(* ===== verification/Prelude.thy ===== *)
theory Prelude
  imports Complex_Main "HOL-Library.Multiset"
begin

text \<open>
  Shared vocabulary of the development: Python's exceptions as a datatype and results
  as a sum type (\<open>Inl\<close> the exception), Python's list indexing and slicing on
  \<open>int\<close> indices, Python's and numpy's integer division and remainder, and a
  sequencing combinator for fallible steps.  Floats of the source are modelled as
  \<open>real\<close>; Python ints as \<open>int\<close>.  The collection \<open>py_simps\<close> gathers the
  definitions a concrete evaluation unfolds.
\<close>

named_theorems py_simps "definitions unfolded when a model runs on concrete input"

section \<open>Exceptions and results\<close>

datatype py_error =
    IndexError
  | ZeroDivisionError
  | ValueError
  | AttributeError
  | UnboundLocalError
  | KeyError
  | TypeError
  | Exception

type_synonym 'a result = "py_error + 'a"

definition rbind :: "'a result \<Rightarrow> ('a \<Rightarrow> 'b result) \<Rightarrow> 'b result" where
  "rbind m f = (case m of Inl e \<Rightarrow> Inl e | Inr x \<Rightarrow> f x)"

lemma rbind_Inl [simp]: "rbind (Inl e) f = Inl e"
  by (simp add: rbind_def)

lemma rbind_Inr [simp]: "rbind (Inr x) f = f x"
  by (simp add: rbind_def)

lemma rbind_eq_Inr:
  "(rbind m f = Inr y) = (\<exists>v. f v = Inr y \<and> m = Inr v)"
  by (cases m) auto

text \<open>A Python \<open>for\<close> loop whose body may raise: stops at the first exception.\<close>

fun rfold :: "('a \<Rightarrow> 's \<Rightarrow> 's result) \<Rightarrow> 'a list \<Rightarrow> 's \<Rightarrow> 's result" where
  "rfold f [] s = Inr s"
| "rfold f (x # xs) s = rbind (f x s) (rfold f xs)"

lemma rfold_invariant:
  assumes "\<And>x s s'. x \<in> set xs \<Longrightarrow> P s \<Longrightarrow> f x s = Inr s' \<Longrightarrow> P s'"
    and "P s" and "rfold f xs s = Inr s'"
  shows "P s'"
  using assms
proof (induction xs arbitrary: s)
  case Nil
  then show ?case by simp
next
  case (Cons x xs)
  then obtain s1 where s1: "f x s = Inr s1" and rest: "rfold f xs s1 = Inr s'"
    by (auto simp: rbind_eq_Inr)
  have "P s1" using Cons.prems(1)[OF _ Cons.prems(2) s1] by simp
  then show ?case using Cons.IH Cons.prems(1) rest by auto
qed

text \<open>
  An operation that may raise keeps a relation between its input and its output; the
  relation survives sequencing when it is transitive.
\<close>

definition preserves :: "('s \<Rightarrow> 's \<Rightarrow> bool) \<Rightarrow> ('s \<Rightarrow> 's result) \<Rightarrow> bool" where
  "preserves R g \<longleftrightarrow> (\<forall>s s'. g s = Inr s' \<longrightarrow> R s s')"

lemma preservesD: "preserves R g \<Longrightarrow> g s = Inr s' \<Longrightarrow> R s s'"
  by (simp add: preserves_def)

lemma preservesI: "(\<And>s s'. g s = Inr s' \<Longrightarrow> R s s') \<Longrightarrow> preserves R g"
  by (simp add: preserves_def)

lemma preserves_rbind:
  assumes "transp R" and "preserves R g" and "preserves R h"
  shows "preserves R (\<lambda>s. rbind (g s) h)"
  using assms unfolding preserves_def rbind_eq_Inr by (meson transpD)

lemma preserves_Inr: "reflp R \<Longrightarrow> preserves R Inr"
  by (simp add: preserves_def reflpD)

lemma preserves_rfold:
  assumes "reflp R" "transp R" "\<And>x. x \<in> set xs \<Longrightarrow> preserves R (f x)"
  shows "rfold f xs s = Inr s' \<Longrightarrow> R s s'"
  using assms(3)
proof (induction xs arbitrary: s)
  case Nil
  then show ?case using assms(1) by (simp add: reflpD)
next
  case (Cons x xs)
  then obtain s1 where s1: "f x s = Inr s1" and rest: "rfold f xs s1 = Inr s'"
    by (auto simp: rbind_eq_Inr)
  have "R s s1" using preservesD [OF Cons.prems(2) s1] by simp
  moreover have "R s1 s'" using Cons.IH [OF rest] Cons.prems(2) by simp
  ultimately show ?case by (rule transpD [OF assms(2)])
qed

text \<open>A list comprehension whose element expression may raise: the first exception wins.\<close>

fun py_map :: "('a \<Rightarrow> 'b result) \<Rightarrow> 'a list \<Rightarrow> 'b list result" where
  "py_map f [] = Inr []"
| "py_map f (x # xs) = rbind (f x) (\<lambda>y. rbind (py_map f xs) (\<lambda>ys. Inr (y # ys)))"

lemma py_map_Inr:
  "(\<And>x. x \<in> set xs \<Longrightarrow> f x = Inr (g x)) \<Longrightarrow> py_map f xs = Inr (map g xs)"
  by (induction xs) (force simp: rbind_def)+

lemma py_map_eq_Inr:
  "py_map f xs = Inr ys \<Longrightarrow> length ys = length xs \<and> (\<forall>i<length xs. f (xs ! i) = Inr (ys ! i))"
proof (induction xs arbitrary: ys)
  case Nil
  then show ?case by simp
next
  case (Cons x xs)
  then obtain y ys' where "f x = Inr y" "py_map f xs = Inr ys'" "ys = y # ys'"
    by (auto simp: rbind_eq_Inr)
  with Cons.IH show ?case by (auto simp: nth_Cons')
qed

lemma py_map_ok: "(\<And>x. x \<in> set xs \<Longrightarrow> \<exists>y. f x = Inr y) \<Longrightarrow> \<exists>ys. py_map f xs = Inr ys"
  by (induction xs) (force simp: rbind_def)+


section \<open>Python lists\<close>

text \<open>\<open>xs[i]\<close>: negative indices count from the end; out of range raises.\<close>

lemma sum_list_divide: "sum_list (map (\<lambda>p. g p / (t :: real)) ps) = sum_list (map g ps) / t"
  by (induction ps) (simp_all add: add_divide_distrib)

definition py_get :: "'a list \<Rightarrow> int \<Rightarrow> 'a result" where
  "py_get xs i =
     (if - int (length xs) \<le> i \<and> i < int (length xs)
      then Inr (xs ! nat (i mod int (length xs))) else Inl IndexError)"

lemma py_get_nat [simp]:
  "py_get xs (int k) = (if k < length xs then Inr (xs ! k) else Inl IndexError)"
  by (simp add: py_get_def)

lemma py_get_negative:
  "0 < k \<Longrightarrow> k \<le> length xs \<Longrightarrow> py_get xs (- int k) = Inr (xs ! (length xs - k))"
proof -
  assume k: "0 < k" "k \<le> length xs"
  have "(- int k) mod int (length xs) = int (length xs - k)"
  proof (cases "k = length xs")
    case True
    then show ?thesis by simp
  next
    case False
    with k have "(- int k) mod int (length xs) = int (length xs) - int k"
      by (simp add: zmod_zminus1_eq_if)
    also have "\<dots> = int (length xs - k)" using k by simp
    finally show ?thesis .
  qed
  moreover have "nat (int (length xs - k)) = length xs - k" by simp
  ultimately show ?thesis using k by (simp only: py_get_def) simp
qed

text \<open>Slice bounds: a negative bound counts from the end, every bound is clipped.\<close>

definition py_slice_bound :: "nat \<Rightarrow> int \<Rightarrow> nat" where
  "py_slice_bound n k = (if k < 0 then nat (max 0 (int n + k)) else min (nat k) n)"

definition py_prefix :: "'a list \<Rightarrow> int \<Rightarrow> 'a list" where
  \<comment> \<open>\<open>xs[:k]\<close>\<close>
  "py_prefix xs k = take (py_slice_bound (length xs) k) xs"

definition py_suffix :: "'a list \<Rightarrow> int \<Rightarrow> 'a list" where
  \<comment> \<open>\<open>xs[k:]\<close>\<close>
  "py_suffix xs k = drop (py_slice_bound (length xs) k) xs"

lemma py_slice_bound_le [simp]: "py_slice_bound n k \<le> n"
  by (simp add: py_slice_bound_def nat_le_iff)

lemma length_py_prefix [simp]: "length (py_prefix xs k) = py_slice_bound (length xs) k"
  by (simp add: py_prefix_def)

lemma length_py_suffix [simp]:
  "length (py_suffix xs k) = length xs - py_slice_bound (length xs) k"
  by (simp add: py_suffix_def)

text \<open>\<open>list.index(v)\<close>: the first position of \<open>v\<close>, ValueError when absent.\<close>

fun first_pos :: "'a \<Rightarrow> 'a list \<Rightarrow> nat" where
  "first_pos v [] = 0"
| "first_pos v (x # xs) = (if x = v then 0 else Suc (first_pos v xs))"

definition py_index :: "'a list \<Rightarrow> 'a \<Rightarrow> nat result" where
  "py_index xs v = (if v \<in> set xs then Inr (first_pos v xs) else Inl ValueError)"

lemma first_pos_props:
  "v \<in> set xs \<Longrightarrow> first_pos v xs < length xs \<and> xs ! first_pos v xs = v
     \<and> (\<forall>j<first_pos v xs. xs ! j \<noteq> v)"
proof (induction xs)
  case Nil
  then show ?case by simp
next
  case (Cons x xs)
  then show ?case by (auto simp: nth_Cons' less_Suc_eq_0_disj)
qed

lemma py_index_Inr:
  "py_index xs v = Inr k \<Longrightarrow> k < length xs \<and> xs ! k = v \<and> (\<forall>j<k. xs ! j \<noteq> v)"
  using first_pos_props[of v xs] by (auto simp: py_index_def split: if_splits)

text \<open>\<open>[v] * n\<close>, with a non-positive \<open>n\<close> giving the empty list.\<close>

definition py_repeat :: "'a \<Rightarrow> int \<Rightarrow> 'a list" where
  "py_repeat v n = replicate (nat n) v"

section \<open>Python and numpy arithmetic\<close>

text \<open>\<open>a / b\<close> on floats raises on a zero divisor.\<close>

definition py_div :: "real \<Rightarrow> real \<Rightarrow> real result" where
  "py_div a b = (if b = 0 then Inl ZeroDivisionError else Inr (a / b))"

lemma py_div_ok [simp]: "b \<noteq> 0 \<Longrightarrow> py_div a b = Inr (a / b)"
  by (simp add: py_div_def)

text \<open>\<open>int(a / b)\<close> on ints: true division, then truncation toward zero.\<close>

definition py_int_div :: "int \<Rightarrow> int \<Rightarrow> int" where
  "py_int_div a b = (if (a < 0) = (b < 0) then \<bar>a\<bar> div \<bar>b\<bar> else - (\<bar>a\<bar> div \<bar>b\<bar>))"

lemma py_int_div_nonneg [simp]: "0 \<le> a \<Longrightarrow> 0 < b \<Longrightarrow> py_int_div a b = a div b"
  by (simp add: py_int_div_def)

text \<open>
  \<open>a % m\<close> where \<open>m\<close> is a numpy integer: the floor remainder of Python
  (\<open>mod\<close> on \<open>int\<close> rounds the same way), and 0 with a runtime warning, not an
  exception, when \<open>m = 0\<close>.
\<close>

definition np_mod :: "int \<Rightarrow> int \<Rightarrow> int" where
  "np_mod a m = (if m = 0 then 0 else a mod m)"

lemma np_mod_zero [simp]: "np_mod a 0 = 0"
  by (simp add: np_mod_def)

section \<open>Repeated field updates\<close>

text \<open>
  A loop that applies the same update to a target once per occurrence in a list changes a
  field by a multiple of the update's increment; these two facts carry every counting
  argument of the diffusion routines.
\<close>

lemma funpow_field_add:
  assumes "\<And>a. g (f a) = g a + c"
  shows "g ((f ^^ n) a) = g a + of_nat n * c"
  by (induction n) (simp_all add: assms algebra_simps)

lemma funpow_field_keep:
  assumes "\<And>a. g (f a) = g a"
  shows "g ((f ^^ n) a) = g a"
  by (induction n) (simp_all add: assms)

declare py_get_def [py_simps] py_slice_bound_def [py_simps] py_prefix_def [py_simps]
  py_suffix_def [py_simps] py_repeat_def [py_simps] py_div_def [py_simps]
  py_int_div_def [py_simps] np_mod_def [py_simps] py_index_def [py_simps]

end
