(* ===== verification/Timeline.thy ===== *)
theory Timeline
  imports Prelude
begin

text \<open>
  The storm-surge timeline helpers of \<open>src/helper_functions.py\<close>:
  \<open>shift_warnings\<close> (shift a timeline by a number of entries, padding with a fill
  value) and \<open>shift_watch_warning\<close> (move the watch, value 0.5, to a fixed distance
  before the first warning, value 1, then shift both).  The model of the population
  (\<open>Model.py\<close>) applies \<open>shift_watch_warning\<close> to every agent's surge series.
  The theory proves the length behaviour of both, that \<open>shift_warnings\<close> refines the
  abstract "value at time \<open>i - s\<close>" timeline, where the watch and the warning land when
  the input has no watch, and that a watch already present before the warning moves the
  placement (the index of the first warning is taken before the watches are removed).
\<close>

section \<open>Definitions\<close>

definition shift_warnings :: "real list \<Rightarrow> int \<Rightarrow> real \<Rightarrow> real list" where
  "shift_warnings warning_list shift_steps fill_value =
     (if shift_steps > 0
      then py_repeat fill_value shift_steps @ py_prefix warning_list (- shift_steps)
      else if shift_steps < 0
      then py_suffix warning_list (- shift_steps) @ py_repeat fill_value (- shift_steps)
      else warning_list)"

text \<open>The watch value and the warning value of a surge timeline.\<close>

abbreviation watch_val :: real where "watch_val \<equiv> 1 / 2"
abbreviation warning_val :: real where "warning_val \<equiv> 1"

text \<open>
  The body after the first warning is found, split off so that its steps can be read one
  by one: remove the watches, compute the watch position from the old index, pad in
  front or behind, place the watch, shift, and trim or pad to the original length.
\<close>

definition place_watch :: "real list \<Rightarrow> int \<Rightarrow> real \<Rightarrow> real list \<times> int" where
  "place_watch result watch_time fill_value =
     (let (result, watch_time) =
        (if watch_time < 0 then (py_repeat fill_value (- watch_time) @ result, 0)
         else (result, watch_time));
        result =
        (if watch_time \<ge> int (length result)
         then result @ py_repeat fill_value (watch_time - int (length result) + 1)
         else result)
      in (result[nat watch_time := watch_val], watch_time))"

definition fit_length :: "real list \<Rightarrow> nat \<Rightarrow> real \<Rightarrow> real list" where
  "fit_length result n fill_value =
     (if length result > n then py_prefix result (int n)
      else if length result < n then result @ py_repeat fill_value (int (n - length result))
      else result)"

definition shift_watch_warning :: "real list \<Rightarrow> int \<Rightarrow> int \<Rightarrow> real \<Rightarrow> real list" where
  "shift_watch_warning warning_list timing gap fill_value =
     (let timing = - timing + 1 + (if gap \<noteq> 0 then 1 else 0);
          gap = gap + 3
      in case py_index warning_list warning_val of
           Inl _ \<Rightarrow> shift_warnings warning_list timing fill_value
         | Inr first_warning \<Rightarrow>
             (let result = filter (\<lambda>v. v \<noteq> watch_val) warning_list;
                  watch_time = int first_warning - gap;
                  result = fst (place_watch result watch_time fill_value);
                  result = shift_warnings result timing fill_value
              in fit_length result (length warning_list) fill_value))"

text \<open>The abstract timeline: the value at (possibly negative) time \<open>t\<close>, fill outside.\<close>

definition timeline_at :: "real list \<Rightarrow> int \<Rightarrow> real \<Rightarrow> real" where
  "timeline_at xs t fill_value =
     (if 0 \<le> t \<and> t < int (length xs) then xs ! nat t else fill_value)"

declare shift_warnings_def [py_simps] place_watch_def [py_simps] fit_length_def [py_simps]
  shift_watch_warning_def [py_simps] timeline_at_def [py_simps]

section \<open>Shifting a timeline\<close>

lemma length_shift_warnings:
  "length (shift_warnings xs s f) =
     (if s > 0 then nat s + py_slice_bound (length xs) (- s)
      else if s < 0 then length xs - py_slice_bound (length xs) (- s) + nat (- s)
      else length xs)"
  by (simp add: shift_warnings_def py_repeat_def)

lemma shift_warnings_nth:
  assumes "\<bar>s\<bar> \<le> int (length xs)" and "i < length xs"
  shows "shift_warnings xs s f ! i = timeline_at xs (int i - s) f"
proof (cases "s > 0")
  case True
  then show ?thesis using assms
    by (auto simp: shift_warnings_def py_repeat_def py_prefix_def py_slice_bound_def
        timeline_at_def nth_append nat_diff_distrib)
next
  case False
  show ?thesis
  proof (cases "s < 0")
    case True
    have e: "nat (int i - s) = i + nat (- s)" using True by arith
    show ?thesis using assms True
      by (auto simp: shift_warnings_def py_repeat_def py_suffix_def py_slice_bound_def
          timeline_at_def nth_append e add.commute)
  next
    case False
    with \<open>\<not> s > 0\<close> assms show ?thesis by (simp add: shift_warnings_def timeline_at_def)
  qed
qed

lemma length_shift_warnings_within:
  "\<bar>s\<bar> \<le> int (length xs) \<Longrightarrow> length (shift_warnings xs s f) = length xs"
  by (auto simp: length_shift_warnings py_slice_bound_def)


section \<open>Placing the watch\<close>

lemma length_fit_length [simp]: "length (fit_length r n f) = n"
  by (simp add: fit_length_def py_repeat_def py_prefix_def py_slice_bound_def; arith)

lemma fit_length_id: "length r = n \<Longrightarrow> fit_length r n f = r"
  by (simp add: fit_length_def)

lemma place_watch_inside:
  "0 \<le> wt \<Longrightarrow> wt < int (length r) \<Longrightarrow> place_watch r wt f = (r[nat wt := watch_val], wt)"
  by (simp add: place_watch_def)

lemma shift_watch_warning_found:
  assumes "py_index wl warning_val = Inr fw"
  shows "shift_watch_warning wl timing gap f =
    fit_length
      (shift_warnings (fst (place_watch (filter (\<lambda>v. v \<noteq> watch_val) wl) (int fw - (gap + 3)) f))
         (- timing + 1 + (if gap \<noteq> 0 then 1 else 0)) f)
      (length wl) f"
  using assms by (simp add: shift_watch_warning_def Let_def)


section \<open>Properties\<close>

text \<open>
  (C28) \<open>shift_warnings\<close> keeps the length of the timeline exactly when the shift is at
  most the length; a longer shift returns a longer list, although its docstring promises
  "the same length as original".
\<close>

theorem shift_warnings_length_iff:
  "length (shift_warnings xs s f) = length xs \<longleftrightarrow> \<bar>s\<bar> \<le> int (length xs)"
  by (auto simp: length_shift_warnings py_slice_bound_def)

text \<open>
  (C27) Within that range \<open>shift_warnings\<close> refines the abstract shifted timeline:
  entry \<open>i\<close> of the result is the entry \<open>i - s\<close> of the input, and the fill value where
  \<open>i - s\<close> falls outside the input.
\<close>

theorem shift_warnings_refines:
  "\<bar>s\<bar> \<le> int (length xs) \<Longrightarrow>
     shift_warnings xs s f = map (\<lambda>i. timeline_at xs (int i - s) f) [0..<length xs]"
  by (rule nth_equalityI) (simp_all add: length_shift_warnings_within shift_warnings_nth)

text \<open>
  When the timeline contains a warning, \<open>shift_watch_warning\<close> returns a timeline
  of the original length, whatever the timing and the gap.
\<close>

theorem shift_watch_warning_length:
  "warning_val \<in> set wl \<Longrightarrow> length (shift_watch_warning wl timing gap f) = length wl"
  by (simp add: shift_watch_warning_def py_index_def Let_def)

text \<open>
  On a timeline without a watch, \<open>shift_watch_warning\<close> puts the first warning
  \<open>T = 1 - timing (+1 if gap \<noteq> 0)\<close> entries later and a watch \<open>gap + 3\<close> entries
  before it, when both positions stay inside the timeline.
\<close>

theorem shift_watch_warning_places:
  assumes nowatch: "watch_val \<notin> set wl"
    and fw: "py_index wl warning_val = Inr fw"
    and gap: "0 < gap + 3" "gap + 3 \<le> int fw"
    and T: "T = - timing + 1 + (if gap \<noteq> 0 then 1 else 0)"
    and inside: "\<bar>T\<bar> \<le> int (length wl)" "0 \<le> int fw - (gap + 3) + T" "int fw + T < int (length wl)"
  shows "shift_watch_warning wl timing gap f ! nat (int fw + T) = warning_val
       \<and> shift_watch_warning wl timing gap f ! nat (int fw - (gap + 3) + T) = watch_val"
proof -
  let ?wt = "int fw - (gap + 3)"
  let ?r = "wl[nat ?wt := watch_val]"
  have fwp: "fw < length wl" "wl ! fw = warning_val" using py_index_Inr[OF fw] by auto
  have filt: "filter (\<lambda>v. v \<noteq> watch_val) wl = wl"
    using nowatch by (induction wl) auto
  have pw: "place_watch wl ?wt f = (?r, ?wt)"
    using gap fwp by (intro place_watch_inside) auto
  have lr: "length ?r = length wl" by simp
  have sw: "length (shift_warnings ?r T f) = length wl"
    using inside(1) lr by (simp add: length_shift_warnings_within)
  have eq: "shift_watch_warning wl timing gap f = shift_warnings ?r T f"
    using shift_watch_warning_found[OF fw, of timing gap f] filt pw T sw
    by (simp add: fit_length_id)
  have ne: "fw \<noteq> nat ?wt" using gap by arith
  have pos: "0 \<le> int fw + T" using inside gap by arith
  have a: "shift_warnings ?r T f ! nat (int fw + T) = warning_val"
    using inside lr fwp ne pos
    by (simp add: shift_warnings_nth timeline_at_def)
  have b: "shift_warnings ?r T f ! nat (?wt + T) = watch_val"
    using inside lr fwp gap
    by (simp add: shift_warnings_nth timeline_at_def)
  show ?thesis using a b eq by simp
qed


section \<open>Witnesses\<close>

theorem shift_warnings_refines_witness:
  "\<bar>1\<bar> \<le> int (length [0, 1 :: real])
   \<and> shift_warnings [0, 1] 1 0 = map (\<lambda>i. timeline_at [0, 1] (int i - 1) 0) [0..<length [0, 1 :: real]]"
  using shift_warnings_refines [of 1 "[0, 1]" 0] by simp

theorem shift_watch_warning_length_witness:
  "warning_val \<in> set [0, warning_val]
   \<and> length (shift_watch_warning [0, warning_val] 0 0 0) = length [0, warning_val]"
  using shift_watch_warning_length [of "[0, warning_val]" 0 0 0] by simp

theorem shift_watch_warning_places_witness:
  "shift_watch_warning [0, 0, 0, 0, 1, 1] 0 0 0 ! 5 = warning_val
   \<and> shift_watch_warning [0, 0, 0, 0, 1, 1] 0 0 0 ! 2 = watch_val"
proof -
  have idx: "py_index [0, 0, 0, 0, 1, 1 :: real] warning_val = Inr 4"
    by (simp add: py_index_def)
  have "shift_watch_warning [0, 0, 0, 0, 1, 1] 0 0 0 ! nat (int 4 + 1) = warning_val
     \<and> shift_watch_warning [0, 0, 0, 0, 1, 1] 0 0 0 ! nat (int 4 - (0 + 3) + 1) = watch_val"
    by (rule shift_watch_warning_places [OF _ idx]) simp_all
  then show ?thesis by simp
qed

end
