(* ===== verification/AgentState.thy ===== *)
theory AgentState
  imports Prelude
begin

text \<open>
  The data of the simulation: the global configuration held by the model object
  (\<open>EvacuationDec.__init__\<close> in \<open>src/Model.py\<close>), one agent (\<open>Individual\<close> in
  \<open>src/Agent.py\<close>), and the population world the scheduler mutates: the store of all
  agents indexed by graph node, the live agent set, the tick counter, the output counters
  and the position of the seeded random generator.  Attribute access by name
  (\<open>getattr\<close>/\<open>setattr\<close> with the names of \<open>coeff_dict\<close>) becomes a datatype of
  attribute names with a getter and a setter.  The agent constructor is modelled with its
  index errors.
\<close>

section \<open>Attribute names\<close>

text \<open>The four protective actions, in the order of the classifier's output columns.\<close>

datatype action = Evac_friends | Evac_hotel | Evac_shelter | Stay

text \<open>The attributes diffusion works on, named as in \<open>coeff_dict\<close>.\<close>

datatype attr = Risk_perception | Act action

section \<open>Configuration\<close>

text \<open>
  The fields of the model object that the agents read.  Besides the named constants the
  record holds the injected collaborators: the classifier
  (\<open>logistic_model.predict_proba(x)[0]\<close>), and the model's seeded generator as two
  streams indexed by the number of draws so far: \<open>random()\<close> and \<open>randbelow(n)\<close>.
\<close>

record params =
  number_of_steps :: int
  min_probability_threshold :: real
  comm_watch_value_risk :: real
  comm_warning_value_risk :: real
  comm_watch_value_imm :: real
  comm_warning_value_imm :: real
  coeff_risk_perception :: real
  ceiling_param :: real
  coeff_action_comm :: real
  grow_factor :: real
  phase_change_factor :: real
  action_comm_value_imm :: real
  action_comm_value :: real
  trop_warning_step :: int
  evac_warning_step :: int
  media_weight_trust :: real
  media_weight_perc :: real
  RA_base :: real
  RI_base :: real
  threshold_strength_RA :: real
  env_strength :: real
  predict_proba :: "real list \<Rightarrow> real list"
  rng_random :: "nat \<Rightarrow> real"
  rng_below :: "nat \<Rightarrow> nat \<Rightarrow> nat"

text \<open>
  The two announcement ticks \<open>EvacuationDec.__init__\<close> derives from its arguments
  \<open>evac_watch_step\<close>, \<open>evac_warning_step\<close>, \<open>watch_shift\<close> and
  \<open>communication_timing\<close>: the tropical watch and the evacuation order.
\<close>

definition announcement_steps :: "int \<Rightarrow> int \<Rightarrow> int \<Rightarrow> int \<Rightarrow> int \<times> int" where
  "announcement_steps watch_step warning_step shift timing =
     (watch_step - shift - timing, warning_step - timing)"

text \<open>
  The configuration built from the default arguments (88 ticks, watch at 55, warning at
  60, no shift, no extra timing); the classifier and the generator streams are supplied.
\<close>

definition default_params ::
  "(real list \<Rightarrow> real list) \<Rightarrow> (nat \<Rightarrow> real) \<Rightarrow> (nat \<Rightarrow> nat \<Rightarrow> nat) \<Rightarrow> params" where
  "default_params classifier rnd rnd_below =
     (let (tw, ew) = announcement_steps 55 60 0 0
      in \<lparr>number_of_steps = 88, min_probability_threshold = 0,
          comm_watch_value_risk = 5 / 100, comm_warning_value_risk = 1 / 10,
          comm_watch_value_imm = 1 / 100, comm_warning_value_imm = 5 / 100,
          coeff_risk_perception = 1, ceiling_param = 4 / 10, coeff_action_comm = 1,
          grow_factor = 30, phase_change_factor = 1 / 10, action_comm_value_imm = 1 / 100,
          action_comm_value = 1 / 10, trop_warning_step = tw, evac_warning_step = ew,
          media_weight_trust = 4 / 100, media_weight_perc = 2 / 10, RA_base = 5 / 10,
          RI_base = 2 / 10, threshold_strength_RA = 4 / 10, env_strength = 18 / 100,
          predict_proba = classifier, rng_random = rnd, rng_below = rnd_below\<rparr>)"

text \<open>\<open>coeff_dict\<close>: one coefficient for risk perception, one for the four actions.\<close>

fun coeff_dict :: "params \<Rightarrow> attr \<Rightarrow> real" where
  "coeff_dict cfg Risk_perception = coeff_risk_perception cfg"
| "coeff_dict cfg (Act _) = coeff_action_comm cfg"

section \<open>Agents\<close>

text \<open>
  An \<open>Individual\<close>: its static parameters, its exogenous series, its graph links (node
  numbers of the acquaintance graph and of the spatial neighbours) and its mutable state.
  \<open>preferred_evac\<close> is unset (\<open>None\<close>) until the protective-action search runs.
\<close>

record agent =
  unique_id :: nat
  factor_values :: "real list"
  weight_values :: "real list"
  media_trust :: "real list"
  media_freq :: "int list"
  acquaintances :: "nat list"
  neigh_individuals :: "nat list"
  rain :: "real list"
  wind :: "real list"
  storm_surge :: "real list"
  rain_cue :: real
  wind_cue :: real
  storm_surge_state :: real
  risk_perception :: real
  evac_friends :: real
  evac_hotel :: real
  evac_shelter :: real
  stay :: real
  phase :: nat
  immediacy_cum :: real
  immediacy_base :: real
  immediacy :: real
  media_cue :: real
  cue_perception :: real
  social_perception :: real
  RI_thresh :: real
  RA_thresh :: real
  env_weight :: real
  preferred_evac :: "action option"

fun get_attr :: "attr \<Rightarrow> agent \<Rightarrow> real" where
  "get_attr Risk_perception a = risk_perception a"
| "get_attr (Act Evac_friends) a = evac_friends a"
| "get_attr (Act Evac_hotel) a = evac_hotel a"
| "get_attr (Act Evac_shelter) a = evac_shelter a"
| "get_attr (Act Stay) a = stay a"

fun set_attr :: "attr \<Rightarrow> real \<Rightarrow> agent \<Rightarrow> agent" where
  "set_attr Risk_perception v a = a\<lparr>risk_perception := v\<rparr>"
| "set_attr (Act Evac_friends) v a = a\<lparr>evac_friends := v\<rparr>"
| "set_attr (Act Evac_hotel) v a = a\<lparr>evac_hotel := v\<rparr>"
| "set_attr (Act Evac_shelter) v a = a\<lparr>evac_shelter := v\<rparr>"
| "set_attr (Act Stay) v a = a\<lparr>stay := v\<rparr>"

text \<open>
  \<open>Individual.__init__\<close>.  The media table row holds the survey's integer answers;
  trust is read from \<open>row[:-5]\<close> (scaled by \<open>media_weight_trust\<close>) and frequency
  from \<open>row[:5]\<close>.  The cues start at index \<open>model.steps\<close>, which is 0 when the
  population is built; the thresholds read positions 0 and 2 of the weight row.
\<close>

definition init_individual ::
  "params \<Rightarrow> int \<Rightarrow> nat \<Rightarrow> real list \<Rightarrow> real list \<Rightarrow> int list \<Rightarrow> real list \<Rightarrow> real list
   \<Rightarrow> real list \<Rightarrow> nat list \<Rightarrow> agent result" where
  "init_individual cfg n_steps uid fv wv mv wnd rn ss acq =
   rbind (py_get rn n_steps) (\<lambda>rc.
   rbind (py_get wnd n_steps) (\<lambda>wc.
   rbind (py_get ss n_steps) (\<lambda>sc.
   rbind (py_get wv 0) (\<lambda>w0.
   rbind (py_get wv 2) (\<lambda>w2.
   Inr \<lparr>unique_id = uid,
        factor_values = fv,
        weight_values = wv,
        media_trust = map (\<lambda>x. media_weight_trust cfg * of_int x) (py_prefix mv (-5)),
        media_freq = py_prefix mv 5,
        acquaintances = acq,
        neigh_individuals = [],
        rain = rn, wind = wnd, storm_surge = ss,
        rain_cue = rc, wind_cue = wc, storm_surge_state = sc,
        risk_perception = 0, evac_friends = 0, evac_hotel = 0, evac_shelter = 0, stay = 0,
        phase = 0, immediacy_cum = 0, immediacy_base = 0, immediacy = 0,
        media_cue = 0, cue_perception = 0, social_perception = 0,
        RI_thresh = RI_base cfg,
        RA_thresh = RA_base cfg + w0 * threshold_strength_RA cfg,
        env_weight = w2 * env_strength cfg,
        preferred_evac = None\<rparr>)))))"

section \<open>The population world\<close>

text \<open>
  \<open>pop\<close> holds every agent ever created, at its graph node (agent \<open>i\<close> has
  \<open>unique_id = i + 1\<close>); removed agents stay there, reachable through the links of
  others.  \<open>agents\<close> is the model's live agent set, in insertion order.
  \<open>evac_history\<close> is the data collector's \<open>evac_agents\<close> column, one entry per
  collected tick.
\<close>

record world =
  pop :: "agent list"
  agents :: "nat list"
  steps :: int
  running :: bool
  evaced_agents :: nat
  average_evac_time :: "real option"
  hotel_choice :: nat
  friends_choice :: nat
  shelter_choice :: nat
  stay_choice :: nat
  phase_0 :: nat
  phase_1 :: nat
  phase_2 :: nat
  evac_history :: "nat list"
  rng_pos :: nat

definition agent_at :: "world \<Rightarrow> nat \<Rightarrow> agent" where
  "agent_at w i = pop w ! i"

definition upd_agent :: "nat \<Rightarrow> (agent \<Rightarrow> agent) \<Rightarrow> world \<Rightarrow> world" where
  "upd_agent i f w = w\<lparr>pop := (pop w)[i := f (pop w ! i)]\<rparr>"

text \<open>The world right after construction, before the first tick.\<close>

definition init_world :: "agent list \<Rightarrow> world" where
  "init_world ags =
     \<lparr>pop = ags, agents = [0..<length ags], steps = 0, running = True, evaced_agents = 0,
      average_evac_time = Some 0, hotel_choice = 0, friends_choice = 0, shelter_choice = 0,
      stay_choice = 0, phase_0 = 0, phase_1 = 0, phase_2 = 0, evac_history = [], rng_pos = 0\<rparr>"

section \<open>Lemmas on the store\<close>

named_theorems world_simps "frame rules of the population store"

lemma length_upd_agent [simp, world_simps]: "length (pop (upd_agent i f w)) = length (pop w)"
  by (simp add: upd_agent_def)

lemma agent_at_upd_agent [world_simps]:
  "j < length (pop w) \<Longrightarrow>
     agent_at (upd_agent i f w) j = (if i = j then f (agent_at w j) else agent_at w j)"
  by (simp add: upd_agent_def agent_at_def)

lemma upd_agent_frame [simp, world_simps]:
  "agents (upd_agent i f w) = agents w" "steps (upd_agent i f w) = steps w"
  "running (upd_agent i f w) = running w" "evaced_agents (upd_agent i f w) = evaced_agents w"
  "average_evac_time (upd_agent i f w) = average_evac_time w"
  "hotel_choice (upd_agent i f w) = hotel_choice w"
  "friends_choice (upd_agent i f w) = friends_choice w"
  "shelter_choice (upd_agent i f w) = shelter_choice w"
  "stay_choice (upd_agent i f w) = stay_choice w"
  "evac_history (upd_agent i f w) = evac_history w" "rng_pos (upd_agent i f w) = rng_pos w"
  by (simp_all add: upd_agent_def)

lemma get_set_attr [simp]: "get_attr att (set_attr att v a) = v"
  by (induction att a rule: get_attr.induct) simp_all

lemma set_attr_frame [simp]:
  "phase (set_attr att v a) = phase a"
  "preferred_evac (set_attr att v a) = preferred_evac a"
  "acquaintances (set_attr att v a) = acquaintances a"
  "neigh_individuals (set_attr att v a) = neigh_individuals a"
  "media_cue (set_attr att v a) = media_cue a"
  "social_perception (set_attr att v a) = social_perception a"
  "immediacy_cum (set_attr att v a) = immediacy_cum a"
  by (induction att a rule: get_attr.induct; simp)+

lemma set_attr_same [simp]: "set_attr att (get_attr att a) a = a"
  by (induction att a rule: get_attr.induct) simp_all

end
