(* ===== verification/Diffusion.thy ===== *)
theory Diffusion
  imports AgentState
begin

text \<open>
  The social diffusion engine: the communication methods of \<open>Individual\<close>
  (\<open>general_communication\<close>, \<open>action_communication\<close>,
  \<open>phase_change_communication\<close>, \<open>Protective_Action_Implementation_communication\<close>
  in \<open>src/Agent.py\<close>) and the model's \<open>government_warning_communication\<close>
  (\<open>src/Model.py\<close>).  Each works on the world and writes the agents it reaches at
  once, as the Python object mutation does.  The lemmas give each routine's exact effect
  on every agent: self-diffusion never changes a value (the average is taken over the
  agent's own value), each broadcast adds its constant once per link, and no routine
  changes a phase, a preferred action or the live set.
\<close>

section \<open>Definitions\<close>

definition general_communication :: "params \<Rightarrow> attr \<Rightarrow> nat \<Rightarrow> world \<Rightarrow> world" where
  "general_communication cfg attribute i w =
     (let a = agent_at w i; acq = acquaintances a
      in if length acq \<noteq> 0 then
           (let comm_sum = sum_list (map (\<lambda>_. get_attr attribute a) acq) / real (length acq);
                own = get_attr attribute a;
                avg = (own + comm_sum) / 2;
                diff = own - avg;
                result = own + diff * coeff_dict cfg attribute
            in upd_agent i (set_attr attribute result) w)
         else w)"

definition action_communication :: "params \<Rightarrow> nat \<Rightarrow> world \<Rightarrow> world" where
  "action_communication cfg i w =
     fold (\<lambda>attribute. general_communication cfg attribute i)
       [Act Evac_friends, Act Evac_hotel, Act Evac_shelter, Act Stay, Risk_perception] w"

text \<open>The bump an acquaintance receives when an agent changes phase.\<close>

definition bump_social :: "real \<Rightarrow> agent \<Rightarrow> agent" where
  "bump_social c a = a\<lparr>social_perception := social_perception a + c\<rparr>"

definition phase_change_communication :: "params \<Rightarrow> nat \<Rightarrow> nat \<Rightarrow> world \<Rightarrow> world" where
  "phase_change_communication cfg i new_phase w =
     (let acq = acquaintances (agent_at w i)
      in if length acq \<noteq> 0
         then fold (\<lambda>j. upd_agent j (bump_social (phase_change_factor cfg))) acq w
         else w)"

text \<open>
  What an acquaintance receives when an agent implements action \<open>act\<close>, and what a
  spatial neighbour receives when the action is an evacuation.
\<close>

definition bump_action :: "params \<Rightarrow> action \<Rightarrow> agent \<Rightarrow> agent" where
  "bump_action cfg act a =
     (set_attr (Act act) (get_attr (Act act) a + action_comm_value cfg) a)
       \<lparr>immediacy_cum := immediacy_cum a + action_comm_value_imm cfg\<rparr>"

definition bump_evac :: "params \<Rightarrow> agent \<Rightarrow> agent" where
  "bump_evac cfg a =
     a\<lparr>evac_friends := evac_friends a + action_comm_value cfg,
       evac_hotel := evac_hotel a + action_comm_value cfg,
       evac_shelter := evac_shelter a + action_comm_value cfg,
       immediacy_cum := immediacy_cum a + action_comm_value_imm cfg\<rparr>"

definition is_evacuation :: "action \<Rightarrow> bool" where
  "is_evacuation act \<longleftrightarrow> act \<in> {Evac_hotel, Evac_friends, Evac_shelter}"

definition Protective_Action_Implementation_communication ::
  "params \<Rightarrow> nat \<Rightarrow> world \<Rightarrow> world result" where
  "Protective_Action_Implementation_communication cfg i w =
     (let a = agent_at w i
      in case preferred_evac a of
           None \<Rightarrow> Inl AttributeError
         | Some act \<Rightarrow>
             (let w1 = fold (\<lambda>j. upd_agent j (bump_action cfg act)) (acquaintances a) w
              in if is_evacuation act
                 then Inr (fold (\<lambda>j. upd_agent j (bump_evac cfg)) (neigh_individuals a) w1)
                 else Inr w1))"

definition bump_gov :: "real \<Rightarrow> real \<Rightarrow> agent \<Rightarrow> agent" where
  "bump_gov comm_value_risk comm_value_immediacy a =
     a\<lparr>social_perception := social_perception a + comm_value_risk,
       immediacy_cum := immediacy_cum a + comm_value_immediacy\<rparr>"

definition government_warning_communication :: "real \<Rightarrow> real \<Rightarrow> world \<Rightarrow> world" where
  "government_warning_communication comm_value_risk comm_value_immediacy w =
     fold (\<lambda>j. upd_agent j (bump_gov comm_value_risk comm_value_immediacy)) (agents w) w"

text \<open>
  Equality up to the fields diffusion writes (social perception, immediacy and the four
  action propensities): the frame of every broadcast.
\<close>

definition strip_social :: "agent \<Rightarrow> agent" where
  "strip_social a = a\<lparr>social_perception := 0, immediacy_cum := 0, evac_friends := 0,
     evac_hotel := 0, evac_shelter := 0, stay := 0\<rparr>"

definition social_only :: "world \<Rightarrow> world \<Rightarrow> bool" where
  "social_only w w' \<longleftrightarrow>
     map strip_social (pop w') = map strip_social (pop w) \<and> w'\<lparr>pop := []\<rparr> = w\<lparr>pop := []\<rparr>"

section \<open>Updates folded over a list of targets\<close>

lemma fold_upd_agent_at:
  "k < length (pop w) \<Longrightarrow>
     agent_at (fold (\<lambda>j. upd_agent j f) js w) k = (f ^^ count_list js k) (agent_at w k)"
proof (induction js arbitrary: w)
  case Nil
  then show ?case by simp
next
  case (Cons j js)
  then show ?case
    by (simp add: agent_at_upd_agent funpow_swap1)
qed

lemma fold_upd_agent_frame [simp]:
  "length (pop (fold (\<lambda>j. upd_agent j f) js w)) = length (pop w)"
  "agents (fold (\<lambda>j. upd_agent j f) js w) = agents w"
  "steps (fold (\<lambda>j. upd_agent j f) js w) = steps w"
  "running (fold (\<lambda>j. upd_agent j f) js w) = running w"
  "evaced_agents (fold (\<lambda>j. upd_agent j f) js w) = evaced_agents w"
  "hotel_choice (fold (\<lambda>j. upd_agent j f) js w) = hotel_choice w"
  "friends_choice (fold (\<lambda>j. upd_agent j f) js w) = friends_choice w"
  "shelter_choice (fold (\<lambda>j. upd_agent j f) js w) = shelter_choice w"
  "stay_choice (fold (\<lambda>j. upd_agent j f) js w) = stay_choice w"
  "evac_history (fold (\<lambda>j. upd_agent j f) js w) = evac_history w"
  "rng_pos (fold (\<lambda>j. upd_agent j f) js w) = rng_pos w"
  "average_evac_time (fold (\<lambda>j. upd_agent j f) js w) = average_evac_time w"
  by (induction js arbitrary: w) simp_all


lemma general_communication_writes_own:
  "general_communication cfg att i w =
     (if acquaintances (agent_at w i) \<noteq> []
      then upd_agent i (set_attr att (get_attr att (agent_at w i))) w else w)"
proof -
  let ?a = "agent_at w i" and ?acq = "acquaintances (agent_at w i)"
  have "?acq \<noteq> [] \<Longrightarrow> sum_list (map (\<lambda>_. get_attr att ?a) ?acq) / real (length ?acq) = get_attr att ?a"
    by (simp add: map_replicate_const sum_list_replicate)
  then show ?thesis by (simp add: general_communication_def Let_def)
qed

lemma upd_agent_same [simp]: "upd_agent i (set_attr att (get_attr att (agent_at w i))) w = w"
  by (simp add: upd_agent_def agent_at_def)

text \<open>
  (C22) Self-diffusion never changes the agent's attribute: \<open>general_communication\<close>
  averages the agent's own value once per acquaintance (\<open>getattr(self, attribute)\<close>),
  so the "mean of the acquaintances" equals the own value and the update adds zero,
  whatever the acquaintances hold and whatever the coefficient.
\<close>

theorem general_communication_unchanged:
  "general_communication cfg att i w = w"
  by (simp add: general_communication_writes_own)

lemma fold_general_communication:
  "fold (\<lambda>att. general_communication cfg att i) atts w = w"
  by (induction atts) (simp_all add: general_communication_writes_own)

lemma action_communication_unchanged:
  "action_communication cfg i w = w"
  unfolding action_communication_def by (rule fold_general_communication)

lemma funpow_bump_social:
  "(bump_social c ^^ n) a = a\<lparr>social_perception := social_perception a + of_nat n * c\<rparr>"
  by (induction n) (simp_all add: bump_social_def algebra_simps)

text \<open>
  A phase-change broadcast adds \<open>phase_change_factor\<close> to the social perception of
  every agent once per acquaintance link from the sender and changes nothing else; the
  phase argument plays no part.
\<close>

theorem phase_change_communication_effect:
  assumes "k < length (pop w)"
  shows "agent_at (phase_change_communication cfg i p w) k =
    (agent_at w k)\<lparr>social_perception := social_perception (agent_at w k)
       + of_nat (count_list (acquaintances (agent_at w i)) k) * phase_change_factor cfg\<rparr>"
  using assms
  by (simp add: phase_change_communication_def Let_def fold_upd_agent_at funpow_bump_social)

lemma get_attr_bump_action:
  "get_attr (Act b) (bump_action cfg act a) = get_attr (Act b) a + (if b = act then action_comm_value cfg else 0)"
  by (cases b; cases act) (simp_all add: bump_action_def)

lemma get_attr_bump_evac:
  "get_attr (Act b) (bump_evac cfg a) = get_attr (Act b) a + (if b \<noteq> Stay then action_comm_value cfg else 0)"
  by (cases b) (simp_all add: bump_evac_def)

lemma immediacy_cum_bumps [simp]:
  "immediacy_cum (bump_action cfg act a) = immediacy_cum a + action_comm_value_imm cfg"
  "immediacy_cum (bump_evac cfg a) = immediacy_cum a + action_comm_value_imm cfg"
  by (simp_all add: bump_action_def bump_evac_def)

lemma of_nat_if_mult: "of_nat n * (if P then c else 0) = of_nat (if P then n else 0) * (c::real)"
  by simp

text \<open>
  (C23) When an agent with preferred action \<open>act\<close> implements it, each acquaintance
  gains \<open>action_comm_value\<close> on \<open>act\<close> and \<open>action_comm_value_imm\<close> on its
  immediacy, once per link; for an evacuation each spatial neighbour also gains
  \<open>action_comm_value\<close> on the three evacuation options (never on stay) and
  \<open>action_comm_value_imm\<close> on its immediacy.
\<close>

theorem Protective_Action_Implementation_communication_effect:
  assumes pref: "preferred_evac (agent_at w i) = Some act" and k: "k < length (pop w)"
  defines "acq \<equiv> acquaintances (agent_at w i)" and "nb \<equiv> neigh_individuals (agent_at w i)"
  shows "\<exists>w'. Protective_Action_Implementation_communication cfg i w = Inr w'
    \<and> (\<forall>b. get_attr (Act b) (agent_at w' k) = get_attr (Act b) (agent_at w k)
          + of_nat ((if b = act then count_list acq k else 0)
                    + (if is_evacuation act \<and> b \<noteq> Stay then count_list nb k else 0))
            * action_comm_value cfg)
    \<and> immediacy_cum (agent_at w' k) = immediacy_cum (agent_at w k)
          + of_nat (count_list acq k + (if is_evacuation act then count_list nb k else 0))
            * action_comm_value_imm cfg"
proof -
  let ?w1 = "fold (\<lambda>j. upd_agent j (bump_action cfg act)) acq w"
  have a1: "agent_at ?w1 k = (bump_action cfg act ^^ count_list acq k) (agent_at w k)"
    using k by (rule fold_upd_agent_at)
  have g1: "get_attr (Act b) (agent_at ?w1 k) = get_attr (Act b) (agent_at w k)
      + of_nat (if b = act then count_list acq k else 0) * action_comm_value cfg" for b
    unfolding a1
    using funpow_field_add [of "get_attr (Act b)" "bump_action cfg act"
        "if b = act then action_comm_value cfg else 0", OF get_attr_bump_action]
    by (simp add: of_nat_if_mult)
  have i1: "immediacy_cum (agent_at ?w1 k) = immediacy_cum (agent_at w k)
      + of_nat (count_list acq k) * action_comm_value_imm cfg"
    unfolding a1 by (rule funpow_field_add) simp
  show ?thesis
  proof (cases "is_evacuation act")
    case True
    let ?w2 = "fold (\<lambda>j. upd_agent j (bump_evac cfg)) nb ?w1"
    have a2: "agent_at ?w2 k = (bump_evac cfg ^^ count_list nb k) (agent_at ?w1 k)"
      using k by (intro fold_upd_agent_at) simp
    have g2: "get_attr (Act b) (agent_at ?w2 k) = get_attr (Act b) (agent_at ?w1 k)
        + of_nat (if b \<noteq> Stay then count_list nb k else 0) * action_comm_value cfg" for b
      unfolding a2
      using funpow_field_add [of "get_attr (Act b)" "bump_evac cfg"
          "if b \<noteq> Stay then action_comm_value cfg else 0", OF get_attr_bump_evac]
      by (simp add: of_nat_if_mult)
    have i2: "immediacy_cum (agent_at ?w2 k) = immediacy_cum (agent_at ?w1 k)
        + of_nat (count_list nb k) * action_comm_value_imm cfg"
      unfolding a2 by (rule funpow_field_add) simp
    have "Protective_Action_Implementation_communication cfg i w = Inr ?w2"
      using pref True by (simp add: Protective_Action_Implementation_communication_def Let_def acq_def nb_def)
    then show ?thesis using True g1 g2 i1 i2 by (simp add: algebra_simps)
  next
    case False
    have "Protective_Action_Implementation_communication cfg i w = Inr ?w1"
      using pref False by (simp add: Protective_Action_Implementation_communication_def Let_def acq_def)
    then show ?thesis using False g1 i1 by simp
  qed
qed

lemma funpow_bump_gov:
  "(bump_gov vr vi ^^ n) a =
     a\<lparr>social_perception := social_perception a + of_nat n * vr,
       immediacy_cum := immediacy_cum a + of_nat n * vi\<rparr>"
  by (induction n) (simp_all add: bump_gov_def algebra_simps)

lemma government_warning_communication_at:
  "k < length (pop w) \<Longrightarrow>
     agent_at (government_warning_communication vr vi w) k =
       (agent_at w k)\<lparr>social_perception := social_perception (agent_at w k) + of_nat (count_list (agents w) k) * vr,
         immediacy_cum := immediacy_cum (agent_at w k) + of_nat (count_list (agents w) k) * vi\<rparr>"
  by (simp add: government_warning_communication_def fold_upd_agent_at funpow_bump_gov)

section \<open>Frame: diffusion writes only the socially influenced fields\<close>

lemma social_only_refl [simp]: "social_only w w"
  by (simp add: social_only_def)

lemma social_only_trans: "social_only w1 w2 \<Longrightarrow> social_only w2 w3 \<Longrightarrow> social_only w1 w3"
  by (simp add: social_only_def)

lemma strip_social_fields:
  "strip_social a' = strip_social a \<Longrightarrow>
     phase a' = phase a \<and> preferred_evac a' = preferred_evac a \<and> acquaintances a' = acquaintances a
     \<and> neigh_individuals a' = neigh_individuals a \<and> risk_perception a' = risk_perception a
     \<and> media_cue a' = media_cue a \<and> cue_perception a' = cue_perception a
     \<and> media_trust a' = media_trust a \<and> media_freq a' = media_freq a"
  by (cases a, cases a') (simp add: strip_social_def)

lemma social_only_agent:
  assumes "social_only w w'"
  shows "length (pop w') = length (pop w)"
    and "k < length (pop w) \<Longrightarrow> strip_social (agent_at w' k) = strip_social (agent_at w k)"
    and "agents w' = agents w" "steps w' = steps w" "rng_pos w' = rng_pos w"
    "running w' = running w" "evaced_agents w' = evaced_agents w"
    "hotel_choice w' = hotel_choice w" "friends_choice w' = friends_choice w"
    "shelter_choice w' = shelter_choice w" "stay_choice w' = stay_choice w"
    "evac_history w' = evac_history w" "average_evac_time w' = average_evac_time w"
    "phase_0 w' = phase_0 w" "phase_1 w' = phase_1 w" "phase_2 w' = phase_2 w"
proof -
  have m: "map strip_social (pop w') = map strip_social (pop w)"
    and r: "w'\<lparr>pop := []\<rparr> = w\<lparr>pop := []\<rparr>" using assms by (auto simp: social_only_def)
  from m show l: "length (pop w') = length (pop w)" by (metis length_map)
  show "k < length (pop w) \<Longrightarrow> strip_social (agent_at w' k) = strip_social (agent_at w k)"
    using m l by (metis agent_at_def nth_map)
  show "agents w' = agents w" "steps w' = steps w" "rng_pos w' = rng_pos w"
    "running w' = running w" "evaced_agents w' = evaced_agents w"
    "hotel_choice w' = hotel_choice w" "friends_choice w' = friends_choice w"
    "shelter_choice w' = shelter_choice w" "stay_choice w' = stay_choice w"
    "evac_history w' = evac_history w" "average_evac_time w' = average_evac_time w"
    "phase_0 w' = phase_0 w" "phase_1 w' = phase_1 w" "phase_2 w' = phase_2 w"
    using arg_cong [OF r, of agents] arg_cong [OF r, of steps] arg_cong [OF r, of rng_pos]
      arg_cong [OF r, of running] arg_cong [OF r, of evaced_agents]
      arg_cong [OF r, of hotel_choice] arg_cong [OF r, of friends_choice]
      arg_cong [OF r, of shelter_choice] arg_cong [OF r, of stay_choice]
      arg_cong [OF r, of evac_history] arg_cong [OF r, of average_evac_time]
      arg_cong [OF r, of phase_0] arg_cong [OF r, of phase_1] arg_cong [OF r, of phase_2]
    by simp_all
qed

lemma map_update_nth_same: "(map g xs)[j := g (xs ! j)] = map g xs"
  by (cases "j < length xs") (simp_all add: list_update_beyond, metis list_update_id nth_map)

lemma social_only_fold:
  assumes "\<And>a. strip_social (f a) = strip_social a"
  shows "social_only w (fold (\<lambda>j. upd_agent j f) js w)"
proof (induction js arbitrary: w)
  case Nil
  then show ?case by simp
next
  case (Cons j js)
  have "social_only w (upd_agent j f w)"
    using assms by (simp add: social_only_def upd_agent_def map_update map_update_nth_same)
  then show ?case using Cons.IH [of "upd_agent j f w"] by (simp add: social_only_trans)
qed

lemma strip_social_bumps [simp]:
  "strip_social (bump_social c a) = strip_social a"
  "strip_social (bump_action cfg act a) = strip_social a"
  "strip_social (bump_evac cfg a) = strip_social a"
  "strip_social (bump_gov vr vi a) = strip_social a"
  by (simp_all add: strip_social_def bump_social_def bump_evac_def bump_gov_def bump_action_def)
    (cases act; simp)

lemma phase_change_communication_social_only:
  "social_only w (phase_change_communication cfg i p w)"
  by (simp add: phase_change_communication_def Let_def social_only_fold)

lemma Protective_Action_Implementation_communication_social_only:
  assumes "Protective_Action_Implementation_communication cfg i w = Inr w'"
  shows "social_only w w'"
proof -
  obtain act where act: "preferred_evac (agent_at w i) = Some act"
    using assms by (auto simp: Protective_Action_Implementation_communication_def Let_def
        split: option.splits)
  let ?w1 = "fold (\<lambda>j. upd_agent j (bump_action cfg act)) (acquaintances (agent_at w i)) w"
  have s1: "social_only w ?w1" by (simp add: social_only_fold)
  have s2: "social_only ?w1 (fold (\<lambda>j. upd_agent j (bump_evac cfg)) js ?w1)" for js
    by (simp add: social_only_fold)
  show ?thesis
    using assms act s1 s2 [THEN social_only_trans [OF s1]]
    by (auto simp: Protective_Action_Implementation_communication_def Let_def split: if_splits)
qed

lemma government_warning_communication_social_only:
  "social_only w (government_warning_communication vr vi w)"
  by (simp add: government_warning_communication_def social_only_fold)

end
