(* ===== verification/AgentPhase.thy ===== *)
theory AgentPhase
  imports Diffusion
begin

text \<open>
  The per-agent decision protocol of \<open>src/Agent.py\<close>: the cue computations
  (\<open>calc_risk_perception\<close>, \<open>calc_media_cue\<close>), the three phase handlers
  (\<open>risk_identification\<close>, \<open>risk_assessment\<close>, \<open>protective_action_assessment\<close>),
  the classifier-driven \<open>protective_action_search\<close> and \<open>Individual.step\<close>, split into
  its preamble (risk, immediacy base, rain, media and the three-tick surge and wind
  refresh), the phase dispatch and the final self-diffusion.  Every exception the code can
  raise on this path (an index past a cue series, a division by zero in the immediacy
  base, a classifier row that does not unpack into four values, an unset preferred action)
  is a value of the result.
\<close>

section \<open>Cues\<close>

definition calc_risk_perception :: "params \<Rightarrow> nat \<Rightarrow> world \<Rightarrow> world" where
  "calc_risk_perception cfg i w =
     upd_agent i (\<lambda>a. a\<lparr>cue_perception :=
        env_weight a * (wind_cue a + rain_cue a) + media_weight_perc cfg * media_cue a\<rparr>) w"

text \<open>
  \<open>sum(np.array(trust) * media_comm)\<close>: numpy multiplies elementwise, broadcasting a
  one-element operand and refusing other length mismatches.
\<close>

definition np_mul_sum :: "real list \<Rightarrow> real list \<Rightarrow> real result" where
  "np_mul_sum xs ys =
     (if length xs = length ys then Inr (sum_list (map2 (*) xs ys))
      else if length xs = 1 then Inr (sum_list (map (\<lambda>y. hd xs * y) ys))
      else if length ys = 1 then Inr (sum_list (map (\<lambda>x. x * hd ys) xs))
      else Inl ValueError)"

definition media_exposure :: "int \<Rightarrow> int list \<Rightarrow> real list" where
  "media_exposure n freqs = map (\<lambda>medium. if np_mod n medium = 0 then 1 else 0) freqs"

definition calc_media_cue :: "params \<Rightarrow> nat \<Rightarrow> world \<Rightarrow> world result" where
  "calc_media_cue cfg i w =
     (let a = agent_at w i;
          media_comm = media_exposure (steps w) (media_freq a)
      in rbind (np_mul_sum (media_trust a) media_comm) (\<lambda>s.
           let raw_increment = s / 5
           in Inr (upd_agent i (\<lambda>a.
                if media_cue a + raw_increment < 1 then a\<lparr>media_cue := media_cue a + raw_increment\<rparr>
                else a\<lparr>media_cue := 1\<rparr>) w)))"

section \<open>Phase handlers\<close>

definition risk_identification :: "params \<Rightarrow> nat \<Rightarrow> world \<Rightarrow> world" where
  "risk_identification cfg i w =
     (let w = calc_risk_perception cfg i w
      in if risk_perception (agent_at w i) \<ge> RI_thresh (agent_at w i)
         then upd_agent i (\<lambda>a. a\<lparr>phase := 1\<rparr>) (phase_change_communication cfg i 1 w)
         else w)"

text \<open>
  \<open>max(evac_values, key=evac_values.get)\<close>: the keys in insertion order, a later key
  replacing the best only when its value is strictly greater.
\<close>

fun first_max :: "'k \<Rightarrow> real \<Rightarrow> ('k \<times> real) list \<Rightarrow> 'k" where
  "first_max k v [] = k"
| "first_max k v ((k', v') # kvs) = (if v' > v then first_max k' v' kvs else first_max k v kvs)"

definition protective_action_search :: "params \<Rightarrow> nat \<Rightarrow> world \<Rightarrow> world result" where
  "protective_action_search cfg i w =
     (case predict_proba cfg (factor_values (agent_at w i)) of
        [f, h, s, st] \<Rightarrow>
          Inr (upd_agent i (\<lambda>a. a\<lparr>evac_friends := f, evac_hotel := h, evac_shelter := s,
                 stay := st,
                 preferred_evac :=
                   Some (first_max Evac_friends f [(Evac_hotel, h), (Evac_shelter, s), (Stay, st)])\<rparr>) w)
      | _ \<Rightarrow> Inl ValueError)"

definition risk_assessment :: "params \<Rightarrow> nat \<Rightarrow> world \<Rightarrow> world result" where
  "risk_assessment cfg i w =
     (let w = calc_risk_perception cfg i w
      in if risk_perception (agent_at w i) > RA_thresh (agent_at w i)
         then rbind (protective_action_search cfg i (phase_change_communication cfg i 2 w))
                (\<lambda>w. Inr (upd_agent i (\<lambda>a. a\<lparr>phase := 2\<rparr>) w))
         else Inr (general_communication cfg Risk_perception i w))"

text \<open>\<open>self.random.random()\<close>: the next draw of the model's generator.\<close>

definition random_draw :: "params \<Rightarrow> world \<Rightarrow> real \<times> world" where
  "random_draw cfg w = (rng_random cfg (rng_pos w), w\<lparr>rng_pos := Suc (rng_pos w)\<rparr>)"

fun count_choice :: "action \<Rightarrow> world \<Rightarrow> world" where
  "count_choice Evac_hotel w = w\<lparr>hotel_choice := Suc (hotel_choice w)\<rparr>"
| "count_choice Evac_friends w = w\<lparr>friends_choice := Suc (friends_choice w)\<rparr>"
| "count_choice Evac_shelter w = w\<lparr>shelter_choice := Suc (shelter_choice w)\<rparr>"
| "count_choice Stay w = w\<lparr>stay_choice := Suc (stay_choice w)\<rparr>"

text \<open>\<open>self.remove()\<close>: the agent leaves the model's agent set, not the store.\<close>

definition remove_agent :: "nat \<Rightarrow> world \<Rightarrow> world" where
  "remove_agent i w = w\<lparr>agents := removeAll i (agents w)\<rparr>"

definition protective_action_assessment :: "params \<Rightarrow> nat \<Rightarrow> world \<Rightarrow> world result" where
  "protective_action_assessment cfg i w =
     (let a = agent_at w i;
          imm = min 1 (immediacy_cum a + immediacy_base a);
          w = upd_agent i (\<lambda>a. a\<lparr>immediacy := imm\<rparr>) w;
          w = calc_risk_perception cfg i w;
          prob_action = min 1 0 + imm
      in if prob_action > min_probability_threshold cfg then
           (let (r, w) = random_draw cfg w
            in if r < prob_action then
                 rbind (Protective_Action_Implementation_communication cfg i w) (\<lambda>w.
                   let w = upd_agent i (\<lambda>a. a\<lparr>phase := 3\<rparr>) w;
                       w = w\<lparr>evaced_agents := Suc (evaced_agents w)\<rparr>
                   in case preferred_evac (agent_at w i) of
                        None \<Rightarrow> Inl AttributeError
                      | Some act \<Rightarrow> Inr (remove_agent i (count_choice act w)))
               else Inr (action_communication cfg i w))
         else Inr (action_communication cfg i w))"

section \<open>The step\<close>

text \<open>
  The base immediacy \<open>ceiling * f / (1 + grow_factor * (1 - f))\<close> with
  \<open>f = (steps + 1) * (1 / number_of_steps)\<close>; both divisions raise on a zero divisor.
\<close>

definition immediacy_base_at :: "params \<Rightarrow> int \<Rightarrow> real result" where
  "immediacy_base_at cfg n =
     rbind (py_div 1 (of_int (number_of_steps cfg))) (\<lambda>inv.
       let f = of_int (n + 1) * inv
       in py_div (ceiling_param cfg * f) (1 + grow_factor cfg * (1 - f)))"

text \<open>
  The agent's own reaction to a surge-state change: entering the watch (0 to 0.5),
  entering the warning (0 to 1) or advancing to it (0.5 to 1) adds the same two constants.
\<close>

definition surge_reaction :: "params \<Rightarrow> real \<Rightarrow> real \<Rightarrow> agent \<Rightarrow> agent" where
  "surge_reaction cfg old_value new_value a =
     (let bump = a\<lparr>social_perception := social_perception a + comm_watch_value_risk cfg,
                   immediacy_cum := immediacy_cum a + comm_warning_value_imm cfg\<rparr>
      in if old_value = 0 then
           (if new_value = 1 / 2 then bump else if new_value = 1 then bump else a)
         else if old_value = 1 / 2 then (if new_value = 1 then bump else a)
         else a)"

definition update_immediacy_base :: "params \<Rightarrow> nat \<Rightarrow> world \<Rightarrow> world result" where
  "update_immediacy_base cfg i w =
     rbind (immediacy_base_at cfg (steps w)) (\<lambda>ib.
       Inr (upd_agent i (\<lambda>a. a\<lparr>immediacy_base := ib\<rparr>) w))"

definition refresh_rain :: "nat \<Rightarrow> world \<Rightarrow> world result" where
  "refresh_rain i w =
     rbind (py_get (rain (agent_at w i)) (steps w - 1)) (\<lambda>rc.
       Inr (upd_agent i (\<lambda>a. a\<lparr>rain_cue := rc\<rparr>) w))"

text \<open>Every third tick: the surge state from \<open>storm_surge[int(n/3) + 1]\<close>.\<close>

definition refresh_surge :: "params \<Rightarrow> nat \<Rightarrow> world \<Rightarrow> world result" where
  "refresh_surge cfg i w =
     (if steps w mod 3 = 0 then
        rbind (py_get (storm_surge (agent_at w i)) (py_int_div (steps w) 3 + 1)) (\<lambda>new_value.
          Inr (upd_agent i (\<lambda>a. surge_reaction cfg (storm_surge_state a) new_value
                                   (a\<lparr>storm_surge_state := new_value\<rparr>)) w))
      else Inr w)"

text \<open>Every third tick: the wind cue from \<open>wind[int(n/3) - 1]\<close>.\<close>

definition refresh_wind :: "nat \<Rightarrow> world \<Rightarrow> world result" where
  "refresh_wind i w =
     (if steps w mod 3 = 0 then
        rbind (py_get (wind (agent_at w i)) (py_int_div (steps w) 3 - 1)) (\<lambda>wc.
          Inr (upd_agent i (\<lambda>a. a\<lparr>wind_cue := wc\<rparr>) w))
      else Inr w)"

definition step_preamble :: "params \<Rightarrow> nat \<Rightarrow> world \<Rightarrow> world result" where
  "step_preamble cfg i w =
     (let w = upd_agent i (\<lambda>a. a\<lparr>risk_perception := min (cue_perception a + social_perception a) 1\<rparr>) w
      in rbind (update_immediacy_base cfg i w) (\<lambda>w.
         rbind (refresh_rain i w) (\<lambda>w.
         rbind (calc_media_cue cfg i w) (\<lambda>w.
         rbind (refresh_surge cfg i w) (refresh_wind i)))))"

definition phase_handler :: "params \<Rightarrow> nat \<Rightarrow> world \<Rightarrow> world result" where
  "phase_handler cfg i w =
     (case phase (agent_at w i) of
        0 \<Rightarrow> Inr (risk_identification cfg i w)
      | Suc 0 \<Rightarrow> risk_assessment cfg i w
      | Suc (Suc 0) \<Rightarrow> protective_action_assessment cfg i w
      | _ \<Rightarrow> Inr w)"

definition individual_step :: "params \<Rightarrow> nat \<Rightarrow> world \<Rightarrow> world result" where
  "individual_step cfg i w =
     rbind (step_preamble cfg i w) (\<lambda>w.
       rbind (phase_handler cfg i w) (\<lambda>w.
         Inr (general_communication cfg Risk_perception i w)))"

section \<open>Definitions for the analysis\<close>

text \<open>
  What the invariants of the population look at: each agent's phase and preferred action,
  the live set and the output counters.  \<open>status_step\<close> lists the four ways one call
  of \<open>individual_step\<close> can change them (none, Unaware to Aware, Aware to Deciding with a
  chosen action, Deciding to Acted with the agent counted and retired);
  \<open>preamble_frame\<close> is what the cue refresh keeps.
\<close>

definition agent_status :: "agent \<Rightarrow> nat \<times> action option" where
  "agent_status a = (phase a, preferred_evac a)"

definition world_status :: "world \<Rightarrow> (nat \<times> action option) list \<times> nat list \<times> nat \<times> nat \<times> nat \<times> nat \<times> nat" where
  "world_status w = (map agent_status (pop w), agents w, hotel_choice w, friends_choice w,
     shelter_choice w, stay_choice w, evaced_agents w)"

definition preamble_frame :: "world \<Rightarrow> world \<Rightarrow> bool" where
  "preamble_frame w w' \<longleftrightarrow> world_status w' = world_status w \<and> steps w' = steps w
     \<and> evac_history w' = evac_history w \<and> rng_pos w' = rng_pos w \<and> running w' = running w"

definition status_step :: "nat \<Rightarrow> world \<Rightarrow> world \<Rightarrow> bool" where
  "status_step i w w' \<longleftrightarrow> steps w' = steps w \<and> evac_history w' = evac_history w
     \<and> running w' = running w \<and>
     (world_status w' = world_status w
      \<or> (phase (agent_at w i) = 0
          \<and> world_status w' = world_status (upd_agent i (\<lambda>a. a\<lparr>phase := 1\<rparr>) w))
      \<or> (phase (agent_at w i) = 1 \<and> (\<exists>act.
          world_status w' = world_status (upd_agent i (\<lambda>a. a\<lparr>phase := 2, preferred_evac := Some act\<rparr>) w)))
      \<or> (phase (agent_at w i) = 2 \<and> (\<exists>act. preferred_evac (agent_at w i) = Some act
          \<and> world_status w' = world_status (remove_agent i (count_choice act
               ((upd_agent i (\<lambda>a. a\<lparr>phase := 3\<rparr>) w)\<lparr>evaced_agents := Suc (evaced_agents w)\<rparr>))))))"

definition acted :: "world \<Rightarrow> nat set" where
  "acted w = {k. k < length (pop w) \<and> phase (agent_at w k) = 3}"

text \<open>
  The population invariant: the live set lists, once each, exactly the agents not yet
  Acted; phases stay within the four states; an agent past Aware has its preferred
  action; the four category counters and the per-tick evacuation history both add up to
  the number of Acted agents.
\<close>

definition pop_inv :: "world \<Rightarrow> bool" where
  "pop_inv w \<longleftrightarrow> distinct (agents w)
     \<and> set (agents w) = {k. k < length (pop w) \<and> phase (agent_at w k) < 3}
     \<and> (\<forall>k<length (pop w). phase (agent_at w k) \<le> 3
           \<and> (2 \<le> phase (agent_at w k) \<longrightarrow> preferred_evac (agent_at w k) \<noteq> None))
     \<and> hotel_choice w + friends_choice w + shelter_choice w + stay_choice w = card (acted w)
     \<and> sum_list (evac_history w) + evaced_agents w = card (acted w)"


section \<open>Lemmas\<close>


lemma world_status_upd_keep:
  assumes "\<And>a. agent_status (f a) = agent_status a"
  shows "world_status (upd_agent i f w) = world_status w"
  using assms by (simp add: world_status_def upd_agent_def map_update map_update_nth_same)

lemma world_status_upd_cong:
  assumes f: "\<And>a b. agent_status a = agent_status b \<Longrightarrow> agent_status (f a) = agent_status (f b)"
    and eq: "world_status w1 = world_status w2"
  shows "world_status (upd_agent i f w1) = world_status (upd_agent i f w2)"
proof -
  have m: "map agent_status (pop w1) = map agent_status (pop w2)"
    using eq by (simp add: world_status_def)
  have l: "length (pop w1) = length (pop w2)"
    using arg_cong [OF m, of length] by simp
  have u: "(map agent_status (pop w1))[i := agent_status (f (pop w1 ! i))]
      = (map agent_status (pop w2))[i := agent_status (f (pop w2 ! i))]"
  proof (cases "i < length (pop w1)")
    case True
    have "map agent_status (pop w1) ! i = map agent_status (pop w2) ! i" by (simp only: m)
    with True l have "agent_status (pop w1 ! i) = agent_status (pop w2 ! i)" by simp
    then have "agent_status (f (pop w1 ! i)) = agent_status (f (pop w2 ! i))" by (rule f)
    then show ?thesis by (simp only: m)
  next
    case False
    with l show ?thesis by (simp add: list_update_beyond m)
  qed
  show ?thesis using eq u unfolding world_status_def upd_agent_def by (simp add: map_update)
qed

lemma world_status_social_only:
  "social_only w w' \<Longrightarrow> world_status w' = world_status w"
proof -
  assume so: "social_only w w'"
  have "map agent_status (pop w') = map agent_status (pop w)"
  proof (rule nth_equalityI)
    show "length (map agent_status (pop w')) = length (map agent_status (pop w))"
      using social_only_agent(1) [OF so] by simp
    fix k assume "k < length (map agent_status (pop w'))"
    then have k: "k < length (pop w)" using social_only_agent(1) [OF so] by simp
    from strip_social_fields [OF social_only_agent(2) [OF so k]]
    show "map agent_status (pop w') ! k = map agent_status (pop w) ! k"
      using k social_only_agent(1) [OF so] by (simp add: agent_status_def agent_at_def)
  qed
  then show ?thesis using social_only_agent [OF so] by (simp add: world_status_def)
qed

lemma world_status_cong_remove:
  "world_status w1 = world_status w2 \<Longrightarrow> world_status (remove_agent i w1) = world_status (remove_agent i w2)"
  by (simp add: world_status_def remove_agent_def)

lemma world_status_cong_count:
  "world_status w1 = world_status w2 \<Longrightarrow> world_status (count_choice act w1) = world_status (count_choice act w2)"
  by (cases act) (simp_all add: world_status_def)

lemma world_status_cong_evaced:
  "world_status w1 = world_status w2 \<Longrightarrow>
     world_status (w1\<lparr>evaced_agents := Suc (evaced_agents w1)\<rparr>) = world_status (w2\<lparr>evaced_agents := Suc (evaced_agents w2)\<rparr>)"
  by (simp add: world_status_def)

lemma agent_status_simps [simp]:
  "agent_status (a\<lparr>risk_perception := x\<rparr>) = agent_status a"
  "agent_status (a\<lparr>immediacy_base := x\<rparr>) = agent_status a"
  "agent_status (a\<lparr>rain_cue := x\<rparr>) = agent_status a"
  "agent_status (a\<lparr>wind_cue := x\<rparr>) = agent_status a"
  "agent_status (a\<lparr>media_cue := x\<rparr>) = agent_status a"
  "agent_status (a\<lparr>cue_perception := x\<rparr>) = agent_status a"
  "agent_status (a\<lparr>immediacy := x\<rparr>) = agent_status a"
  "agent_status (a\<lparr>storm_surge_state := x\<rparr>) = agent_status a"
  "agent_status (surge_reaction cfg o' n a) = agent_status a"
  by (simp_all add: agent_status_def surge_reaction_def Let_def)


lemma preamble_frame_order: "reflp preamble_frame" "transp preamble_frame"
  by (auto simp: preamble_frame_def intro!: reflpI transpI)

lemma preamble_frame_upd:
  "(\<And>a. agent_status (f a) = agent_status a) \<Longrightarrow> preamble_frame w (upd_agent i f w)"
  by (simp add: preamble_frame_def world_status_upd_keep)

lemma preserves_after:
  "transp R \<Longrightarrow> (\<And>s. R s (f s)) \<Longrightarrow> preserves R g \<Longrightarrow> preserves R (\<lambda>s. g (f s))"
  by (auto simp: preserves_def dest: transpD)

lemma update_immediacy_base_frame: "preserves preamble_frame (update_immediacy_base cfg i)"
  by (rule preservesI) (auto simp: update_immediacy_base_def rbind_eq_Inr intro!: preamble_frame_upd)

lemma refresh_rain_frame: "preserves preamble_frame (refresh_rain i)"
  by (rule preservesI) (auto simp: refresh_rain_def rbind_eq_Inr intro!: preamble_frame_upd)

lemma calc_media_cue_frame: "preserves preamble_frame (calc_media_cue cfg i)"
  by (rule preservesI) (auto simp: calc_media_cue_def Let_def rbind_eq_Inr intro!: preamble_frame_upd)

lemma refresh_surge_frame: "preserves preamble_frame (refresh_surge cfg i)"
  by (rule preservesI) (auto simp: refresh_surge_def rbind_eq_Inr preamble_frame_order(1) [THEN reflpD]
      intro!: preamble_frame_upd split: if_splits)

lemma refresh_wind_frame: "preserves preamble_frame (refresh_wind i)"
  by (rule preservesI) (auto simp: refresh_wind_def rbind_eq_Inr preamble_frame_order(1) [THEN reflpD]
      intro!: preamble_frame_upd split: if_splits)

lemma step_preamble_frame: "preserves preamble_frame (step_preamble cfg i)"
proof -
  note t = preamble_frame_order(2)
  let ?F = "\<lambda>w. rbind (update_immediacy_base cfg i w) (\<lambda>w. rbind (refresh_rain i w) (\<lambda>w.
              rbind (calc_media_cue cfg i w) (\<lambda>w. rbind (refresh_surge cfg i w) (refresh_wind i))))"
  have F: "preserves preamble_frame ?F"
    by (rule preserves_rbind [OF t update_immediacy_base_frame
          preserves_rbind [OF t refresh_rain_frame
            preserves_rbind [OF t calc_media_cue_frame
              preserves_rbind [OF t refresh_surge_frame refresh_wind_frame]]]])
  have "step_preamble cfg i =
      (\<lambda>w. ?F (upd_agent i (\<lambda>a. a\<lparr>risk_perception := min (cue_perception a + social_perception a) 1\<rparr>) w))"
    by (simp add: step_preamble_def fun_eq_iff)
  then show ?thesis
    using preserves_after [OF t _ F] preamble_frame_upd by simp
qed


lemma world_status_agent:
  assumes "world_status w1 = world_status w" and "i < length (pop w)"
  shows "length (pop w1) = length (pop w)" "phase (agent_at w1 i) = phase (agent_at w i)"
    "preferred_evac (agent_at w1 i) = preferred_evac (agent_at w i)"
proof -
  have m: "map agent_status (pop w1) = map agent_status (pop w)"
    using assms(1) by (simp add: world_status_def)
  show l: "length (pop w1) = length (pop w)" using arg_cong [OF m, of length] by simp
  have "map agent_status (pop w1) ! i = map agent_status (pop w) ! i" by (simp only: m)
  then have "agent_status (agent_at w1 i) = agent_status (agent_at w i)"
    using assms(2) l by (simp add: agent_at_def)
  then show "phase (agent_at w1 i) = phase (agent_at w i)"
    "preferred_evac (agent_at w1 i) = preferred_evac (agent_at w i)"
    by (simp_all add: agent_status_def)
qed

lemma status_cong_phase:
  "world_status w1 = world_status w \<Longrightarrow>
     world_status (upd_agent i (\<lambda>a. a\<lparr>phase := p\<rparr>) w1) = world_status (upd_agent i (\<lambda>a. a\<lparr>phase := p\<rparr>) w)"
  "world_status w1 = world_status w \<Longrightarrow>
     world_status (upd_agent i (\<lambda>a. a\<lparr>phase := p, preferred_evac := q\<rparr>) w1)
     = world_status (upd_agent i (\<lambda>a. a\<lparr>phase := p, preferred_evac := q\<rparr>) w)"
  by (rule world_status_upd_cong; simp add: agent_status_def)+

lemma status_step_after_frame:
  assumes "preamble_frame w w1" and "status_step i w1 w2" and "i < length (pop w)"
  shows "status_step i w w2"
proof -
  have s: "world_status w1 = world_status w" using assms(1) by (simp add: preamble_frame_def)
  note a = world_status_agent [OF s assms(3)]
  have e: "evaced_agents w1 = evaced_agents w" using s by (simp add: world_status_def)
  show ?thesis
    using assms(1,2) a e status_cong_phase [OF s]
      world_status_cong_remove [OF world_status_cong_count [OF world_status_cong_evaced [OF status_cong_phase(1) [OF s]]]]
    unfolding status_step_def preamble_frame_def
    by (elim conjE disjE exE) (simp_all, metis+)
qed


lemma social_only_preamble_frame: "social_only w w' \<Longrightarrow> preamble_frame w w'"
  by (simp add: preamble_frame_def world_status_social_only social_only_agent)

lemma calc_risk_perception_frame: "preamble_frame w (calc_risk_perception cfg i w)"
  unfolding calc_risk_perception_def by (rule preamble_frame_upd) simp

lemma frame_status:
  "preamble_frame w w' \<Longrightarrow> world_status w' = world_status w"
  "preamble_frame w w' \<Longrightarrow> steps w' = steps w"
  "preamble_frame w w' \<Longrightarrow> evac_history w' = evac_history w"
  "preamble_frame w w' \<Longrightarrow> running w' = running w"
  by (simp_all add: preamble_frame_def)

lemma frame_trans: "preamble_frame w1 w2 \<Longrightarrow> preamble_frame w2 w3 \<Longrightarrow> preamble_frame w1 w3"
  using preamble_frame_order(2) by (rule transpD)

lemma risk_identification_status:
  assumes "phase (agent_at w i) = 0"
  shows "status_step i w (risk_identification cfg i w)"
proof -
  let ?w1 = "calc_risk_perception cfg i w"
  let ?w2 = "phase_change_communication cfg i 1 ?w1"
  have f: "preamble_frame w ?w2"
    using calc_risk_perception_frame phase_change_communication_social_only [THEN social_only_preamble_frame]
    by (rule frame_trans)
  have f1: "preamble_frame w ?w1" by (rule calc_risk_perception_frame)
  show ?thesis
    using assms frame_status [OF f] frame_status [OF f1] status_cong_phase(1) [OF frame_status(1) [OF f], of i 1]
    by (auto simp: risk_identification_def Let_def status_step_def)
qed


lemma world_status_upd_same_effect:
  "(\<And>a. agent_status (f a) = agent_status (g a)) \<Longrightarrow> world_status (upd_agent i f w) = world_status (upd_agent i g w)"
  by (simp add: world_status_def upd_agent_def map_update)

lemma upd_agent_twice: "upd_agent i f (upd_agent i g w) = upd_agent i (\<lambda>a. f (g a)) w"
  by (cases "i < length (pop w)") (simp_all add: upd_agent_def list_update_beyond)

lemma protective_action_search_result:
  assumes "protective_action_search cfg i w = Inr w'"
  shows "\<exists>act. world_status (upd_agent i (\<lambda>a. a\<lparr>phase := 2\<rparr>) w')
      = world_status (upd_agent i (\<lambda>a. a\<lparr>phase := 2, preferred_evac := Some act\<rparr>) w)
    \<and> steps w' = steps w \<and> evac_history w' = evac_history w \<and> running w' = running w"
proof -
  from assms obtain f h s st where w': "w' = upd_agent i (\<lambda>a. a\<lparr>evac_friends := f, evac_hotel := h,
      evac_shelter := s, stay := st,
      preferred_evac := Some (first_max Evac_friends f [(Evac_hotel, h), (Evac_shelter, s), (Stay, st)])\<rparr>) w"
    by (auto simp: protective_action_search_def simp del: first_max.simps split: list.splits)
  let ?act = "first_max Evac_friends f [(Evac_hotel, h), (Evac_shelter, s), (Stay, st)]"
  have "world_status (upd_agent i (\<lambda>a. a\<lparr>phase := 2\<rparr>) w')
      = world_status (upd_agent i (\<lambda>a. a\<lparr>phase := 2, preferred_evac := Some ?act\<rparr>) w)"
    unfolding w' upd_agent_twice
    by (rule world_status_upd_same_effect) (simp add: agent_status_def)
  then show ?thesis using w' by auto
qed

lemma risk_assessment_status:
  assumes "phase (agent_at w i) = 1" and "i < length (pop w)"
    and "risk_assessment cfg i w = Inr w'"
  shows "status_step i w w'"
proof -
  let ?w1 = "calc_risk_perception cfg i w"
  let ?w2 = "phase_change_communication cfg i 2 ?w1"
  have f1: "preamble_frame w ?w1" by (rule calc_risk_perception_frame)
  have f2: "preamble_frame w ?w2"
    using f1 phase_change_communication_social_only [THEN social_only_preamble_frame]
    by (rule frame_trans)
  show ?thesis
  proof (cases "risk_perception (agent_at ?w1 i) > RA_thresh (agent_at ?w1 i)")
    case True
    with assms(3) obtain w3 where s: "protective_action_search cfg i ?w2 = Inr w3"
      and w': "w' = upd_agent i (\<lambda>a. a\<lparr>phase := 2\<rparr>) w3"
      by (auto simp: risk_assessment_def Let_def rbind_eq_Inr)
    from protective_action_search_result [OF s] obtain act where
      st: "world_status w' = world_status (upd_agent i (\<lambda>a. a\<lparr>phase := 2, preferred_evac := Some act\<rparr>) ?w2)"
      and fr: "steps w3 = steps ?w2" "evac_history w3 = evac_history ?w2" "running w3 = running ?w2"
      using w' by blast
    have "world_status w' = world_status (upd_agent i (\<lambda>a. a\<lparr>phase := 2, preferred_evac := Some act\<rparr>) w)"
      using st status_cong_phase(2) [OF frame_status(1) [OF f2]] by simp
    then show ?thesis
      using assms(1) fr w' frame_status [OF f2] unfolding status_step_def by auto
  next
    case False
    have gc: "general_communication cfg Risk_perception i ?w1 = ?w1"
      by (simp add: general_communication_writes_own del: get_attr.simps set_attr.simps)
    from assms(3) False have "w' = ?w1"
      by (simp add: risk_assessment_def Let_def gc)
    then show ?thesis using frame_status [OF f1] by (simp add: status_step_def)
  qed
qed


lemma agent_at_world_fields [simp]:
  "agent_at (w\<lparr>evaced_agents := x\<rparr>) i = agent_at w i"
  "agent_at (w\<lparr>agents := y\<rparr>) i = agent_at w i"
  "agent_at (w\<lparr>rng_pos := z\<rparr>) i = agent_at w i"
  by (simp_all add: agent_at_def)

lemma count_choice_frame [simp]:
  "steps (count_choice act w) = steps w" "evac_history (count_choice act w) = evac_history w"
  "pop (count_choice act w) = pop w" "agents (count_choice act w) = agents w"
  "evaced_agents (count_choice act w) = evaced_agents w" "rng_pos (count_choice act w) = rng_pos w"
  "running (count_choice act w) = running w"
  by (cases act; simp)+

lemma agent_at_count_choice [simp]: "agent_at (count_choice act w) k = agent_at w k"
  by (cases act) (simp_all add: agent_at_def)

lemma random_draw_frame: "preamble_frame w w2 \<Longrightarrow>
    world_status (snd (random_draw cfg w2)) = world_status w \<and> steps (snd (random_draw cfg w2)) = steps w
    \<and> evac_history (snd (random_draw cfg w2)) = evac_history w
    \<and> running (snd (random_draw cfg w2)) = running w"
  by (simp add: random_draw_def preamble_frame_def world_status_def)

lemma protective_action_assessment_status:
  assumes ph: "phase (agent_at w i) = 2" and i: "i < length (pop w)"
    and res: "protective_action_assessment cfg i w = Inr w'"
  shows "status_step i w w'"
proof -
  define imm where "imm = min 1 (immediacy_cum (agent_at w i) + immediacy_base (agent_at w i))"
  define w2 where "w2 = calc_risk_perception cfg i (upd_agent i (\<lambda>a. a\<lparr>immediacy := imm\<rparr>) w)"
  define r where "r = fst (random_draw cfg w2)"
  define w3 where "w3 = snd (random_draw cfg w2)"
  have f2: "preamble_frame w w2"
    unfolding w2_def by (rule frame_trans [OF preamble_frame_upd calc_risk_perception_frame]) simp
  note f3 = random_draw_frame [OF f2, of cfg, folded w3_def]
  have ac2: "action_communication cfg i w2 = w2" and ac3: "action_communication cfg i w3 = w3"
    by (simp_all add: action_communication_unchanged)
  have unfold: "protective_action_assessment cfg i w =
     (if min 1 0 + imm > min_probability_threshold cfg then
        (if r < min 1 0 + imm then
           rbind (Protective_Action_Implementation_communication cfg i w3) (\<lambda>w.
             let w = upd_agent i (\<lambda>a. a\<lparr>phase := 3\<rparr>) w;
                 w = w\<lparr>evaced_agents := Suc (evaced_agents w)\<rparr>
             in case preferred_evac (agent_at w i) of
                  None \<Rightarrow> Inl AttributeError
                | Some act \<Rightarrow> Inr (remove_agent i (count_choice act w)))
         else Inr (action_communication cfg i w3))
      else Inr (action_communication cfg i w2))"
    by (simp add: protective_action_assessment_def imm_def w2_def r_def w3_def Let_def split: prod.split)
  show ?thesis
  proof (cases "min 1 0 + imm > min_probability_threshold cfg \<and> r < min 1 0 + imm")
    case False
    then have "w' = w2 \<or> w' = w3" using res unfolding unfold ac2 ac3 by (auto split: if_splits)
    then show ?thesis using f3 frame_status [OF f2] by (auto simp: status_step_def)
  next
    case True
    with res obtain w4 where pai: "Protective_Action_Implementation_communication cfg i w3 = Inr w4"
      and rest: "(let w = upd_agent i (\<lambda>a. a\<lparr>phase := 3\<rparr>) w4;
                 w = w\<lparr>evaced_agents := Suc (evaced_agents w)\<rparr>
             in case preferred_evac (agent_at w i) of
                  None \<Rightarrow> Inl AttributeError
                | Some act \<Rightarrow> Inr (remove_agent i (count_choice act w))) = Inr w'"
      unfolding unfold by (auto simp: rbind_eq_Inr)
    have s4: "world_status w4 = world_status w" "steps w4 = steps w" "evac_history w4 = evac_history w"
      "running w4 = running w"
      using world_status_social_only [OF Protective_Action_Implementation_communication_social_only [OF pai]]
        social_only_agent [OF Protective_Action_Implementation_communication_social_only [OF pai]] f3
      by simp_all
    have l4: "length (pop w4) = length (pop w)" using world_status_agent(1) [OF s4(1) i] .
    have p4: "preferred_evac (agent_at (upd_agent i (\<lambda>a. a\<lparr>phase := 3\<rparr>) w4) i) = preferred_evac (agent_at w i)"
      using world_status_agent(3) [OF s4(1) i] l4 i by (simp add: agent_at_upd_agent)
    obtain act where act: "preferred_evac (agent_at w i) = Some act"
      and w': "w' = remove_agent i (count_choice act ((upd_agent i (\<lambda>a. a\<lparr>phase := 3\<rparr>) w4)
                 \<lparr>evaced_agents := Suc (evaced_agents (upd_agent i (\<lambda>a. a\<lparr>phase := 3\<rparr>) w4))\<rparr>))"
      using rest p4 by (auto simp: Let_def split: option.splits)
    have "world_status w' = world_status (remove_agent i (count_choice act
        ((upd_agent i (\<lambda>a. a\<lparr>phase := 3\<rparr>) w)\<lparr>evaced_agents := Suc (evaced_agents (upd_agent i (\<lambda>a. a\<lparr>phase := 3\<rparr>) w))\<rparr>)))"
      unfolding w'
      by (intro world_status_cong_remove world_status_cong_count world_status_cong_evaced
          status_cong_phase(1) s4(1))
    then show ?thesis using ph act s4 w' by (simp add: status_step_def remove_agent_def)
  qed
qed


lemma status_step_refl: "status_step i w w"
  by (simp add: status_step_def)

lemma phase_handler_status:
  assumes "i < length (pop w)" and "phase_handler cfg i w = Inr w'"
  shows "status_step i w w'"
proof (cases "phase (agent_at w i)")
  case 0
  then have "w' = risk_identification cfg i w" using assms(2) by (simp add: phase_handler_def)
  then show ?thesis using risk_identification_status [OF 0] by simp
next
  case (Suc p)
  show ?thesis
  proof (cases p)
    case 0
    with Suc assms show ?thesis by (simp add: phase_handler_def risk_assessment_status)
  next
    case (Suc q)
    show ?thesis
    proof (cases q)
      case 0
      with \<open>p = Suc q\<close> \<open>phase (agent_at w i) = Suc p\<close> assms show ?thesis
        by (simp add: phase_handler_def protective_action_assessment_status)
    next
      case (Suc r)
      with \<open>p = Suc q\<close> \<open>phase (agent_at w i) = Suc p\<close> assms show ?thesis
        by (simp add: phase_handler_def status_step_refl)
    qed
  qed
qed

lemma individual_step_status:
  assumes i: "i < length (pop w)" and res: "individual_step cfg i w = Inr w'"
  shows "status_step i w w'"
proof -
  from res obtain w1 w2 where p: "step_preamble cfg i w = Inr w1"
    and h: "phase_handler cfg i w1 = Inr w2"
    and w': "w' = general_communication cfg Risk_perception i w2"
    by (auto simp: individual_step_def rbind_eq_Inr)
  have f1: "preamble_frame w w1" using step_preamble_frame p by (rule preservesD)
  have i1: "i < length (pop w1)" using world_status_agent(1) [OF frame_status(1) [OF f1] i] i by simp
  have "w' = w2" unfolding w'
    by (simp add: general_communication_writes_own del: get_attr.simps set_attr.simps)
  then show ?thesis
    using status_step_after_frame [OF f1 phase_handler_status [OF i1 h] i] by simp
qed


lemma finite_acted [simp]: "finite (acted w)"
  by (simp add: acted_def)

lemma pop_inv_status:
  assumes s: "world_status w' = world_status w" and h: "evac_history w' = evac_history w"
  shows "pop_inv w' = pop_inv w"
proof -
  have m: "map agent_status (pop w') = map agent_status (pop w)"
    using s by (simp add: world_status_def)
  have l: "length (pop w') = length (pop w)" using arg_cong [OF m, of length] by simp
  have a: "k < length (pop w) \<Longrightarrow> phase (agent_at w' k) = phase (agent_at w k)
      \<and> preferred_evac (agent_at w' k) = preferred_evac (agent_at w k)" for k
    using world_status_agent [OF s] by blast
  have c: "acted w' = acted w" unfolding acted_def using a l by auto
  have f: "agents w' = agents w" "hotel_choice w' = hotel_choice w" "friends_choice w' = friends_choice w"
    "shelter_choice w' = shelter_choice w" "stay_choice w' = stay_choice w"
    "evaced_agents w' = evaced_agents w"
    using s by (simp_all add: world_status_def)
  have "{k. k < length (pop w') \<and> phase (agent_at w' k) < 3} = {k. k < length (pop w) \<and> phase (agent_at w k) < 3}"
    using a l by auto
  then show ?thesis unfolding pop_inv_def using a l c f h by auto
qed

lemma count_choice_total:
  "hotel_choice (count_choice act w) + friends_choice (count_choice act w) + shelter_choice (count_choice act w)
     + stay_choice (count_choice act w) = Suc (hotel_choice w + friends_choice w + shelter_choice w + stay_choice w)"
  by (cases act) simp_all

lemma pop_inv_to_aware:
  assumes inv: "pop_inv w" and i: "i < length (pop w)" and ph: "phase (agent_at w i) = 0"
  shows "pop_inv (upd_agent i (\<lambda>a. a\<lparr>phase := 1\<rparr>) w)"
proof -
  let ?w = "upd_agent i (\<lambda>a. a\<lparr>phase := 1\<rparr>) w"
  have at: "k < length (pop w) \<Longrightarrow> agent_at ?w k = (if i = k then (agent_at w k)\<lparr>phase := 1\<rparr> else agent_at w k)" for k
    by (simp add: agent_at_upd_agent)
  note at' = at [simplified]
  have "acted ?w = acted w" using ph by (auto simp: acted_def at' split: if_splits)
  moreover have "{k. k < length (pop ?w) \<and> phase (agent_at ?w k) < 3} = {k. k < length (pop w) \<and> phase (agent_at w k) < 3}"
    using ph i by (auto simp: at' split: if_splits)
  ultimately show ?thesis using inv ph by (auto simp: pop_inv_def at' split: if_splits)
qed

lemma pop_inv_to_deciding:
  assumes inv: "pop_inv w" and i: "i < length (pop w)" and ph: "phase (agent_at w i) = 1"
  shows "pop_inv (upd_agent i (\<lambda>a. a\<lparr>phase := 2, preferred_evac := Some act\<rparr>) w)"
proof -
  let ?w = "upd_agent i (\<lambda>a. a\<lparr>phase := 2, preferred_evac := Some act\<rparr>) w"
  have at: "k < length (pop w) \<Longrightarrow> agent_at ?w k =
      (if i = k then (agent_at w k)\<lparr>phase := 2, preferred_evac := Some act\<rparr> else agent_at w k)" for k
    by (simp add: agent_at_upd_agent)
  note at' = at [simplified]
  have "acted ?w = acted w" using ph by (auto simp: acted_def at' split: if_splits)
  moreover have "{k. k < length (pop ?w) \<and> phase (agent_at ?w k) < 3} = {k. k < length (pop w) \<and> phase (agent_at w k) < 3}"
    using ph i by (auto simp: at' split: if_splits)
  ultimately show ?thesis using inv ph by (auto simp: pop_inv_def at' split: if_splits)
qed

lemma pop_inv_to_acted:
  assumes inv: "pop_inv w" and i: "i < length (pop w)" and ph: "phase (agent_at w i) = 2"
  shows "pop_inv (remove_agent i (count_choice act
           ((upd_agent i (\<lambda>a. a\<lparr>phase := 3\<rparr>) w)\<lparr>evaced_agents := Suc (evaced_agents w)\<rparr>)))"
    (is "pop_inv ?w")
proof -
  let ?u = "upd_agent i (\<lambda>a. a\<lparr>phase := 3\<rparr>) w"
  have at: "k < length (pop w) \<Longrightarrow> agent_at ?w k = (if i = k then (agent_at w k)\<lparr>phase := 3\<rparr> else agent_at w k)" for k
    by (simp add: remove_agent_def agent_at_upd_agent)
  have len: "length (pop ?w) = length (pop w)" by (simp add: remove_agent_def)
  have ac: "acted ?w = insert i (acted w)"
    using i by (auto simp: acted_def at len split: if_splits)
  have ni: "i \<notin> acted w" using ph by (simp add: acted_def)
  have card: "card (acted ?w) = Suc (card (acted w))" using ac ni by simp
  have live: "{k. k < length (pop ?w) \<and> phase (agent_at ?w k) < 3}
      = {k. k < length (pop w) \<and> phase (agent_at w k) < 3} - {i}"
    using i by (auto simp: at len split: if_splits)
  have ag: "agents ?w = removeAll i (agents w)" by (simp add: remove_agent_def)
  have cnt: "hotel_choice ?w + friends_choice ?w + shelter_choice ?w + stay_choice ?w
      = Suc (hotel_choice w + friends_choice w + shelter_choice w + stay_choice w)"
    using count_choice_total [of act "?u\<lparr>evaced_agents := Suc (evaced_agents w)\<rparr>"]
    by (simp add: remove_agent_def)
  have ev: "evaced_agents ?w = Suc (evaced_agents w)" "evac_history ?w = evac_history w"
    by (simp_all add: remove_agent_def)
  show ?thesis
    using inv ph unfolding pop_inv_def
    by (simp only: ag live card cnt ev distinct_removeAll set_removeAll len)
      (auto simp: at split: if_splits)
qed


lemma status_step_pop_inv:
  assumes st: "status_step i w w'" and inv: "pop_inv w" and i: "i < length (pop w)"
  shows "pop_inv w'"
proof -
  have h: "evac_history w' = evac_history w" using st by (simp add: status_step_def)
  have hist_upd: "evac_history (upd_agent i f w) = evac_history w" for f by simp
  from st consider (same) "world_status w' = world_status w"
    | (aware) "phase (agent_at w i) = 0" "world_status w' = world_status (upd_agent i (\<lambda>a. a\<lparr>phase := 1\<rparr>) w)"
    | (deciding) act where "phase (agent_at w i) = 1"
        "world_status w' = world_status (upd_agent i (\<lambda>a. a\<lparr>phase := 2, preferred_evac := Some act\<rparr>) w)"
    | (acted) act where "phase (agent_at w i) = 2"
        "world_status w' = world_status (remove_agent i (count_choice act
               ((upd_agent i (\<lambda>a. a\<lparr>phase := 3\<rparr>) w)\<lparr>evaced_agents := Suc (evaced_agents w)\<rparr>)))"
    unfolding status_step_def by (elim conjE disjE exE) blast+
  then show ?thesis
  proof cases
    case same
    then show ?thesis using pop_inv_status h inv by blast
  next
    case aware
    then show ?thesis using pop_inv_to_aware [OF inv i aware(1)] pop_inv_status [OF aware(2)] h by simp
  next
    case (deciding act)
    then show ?thesis using pop_inv_to_deciding [OF inv i deciding(1)] pop_inv_status [OF deciding(2)] h by simp
  next
    case (acted act)
    then show ?thesis using pop_inv_to_acted [OF inv i acted(1)] pop_inv_status [OF acted(2)] h
      by (simp add: remove_agent_def)
  qed
qed

lemma pop_inv_init_world:
  assumes "\<forall>a\<in>set ags. phase a = 0"
  shows "pop_inv (init_world ags)"
proof -
  have ph: "k < length ags \<Longrightarrow> phase (agent_at (init_world ags) k) = 0" for k
    using assms by (simp add: agent_at_def init_world_def)
  have "acted (init_world ags) = {}" using ph by (auto simp: acted_def init_world_def)
  moreover have "{k. k < length (pop (init_world ags)) \<and> phase (agent_at (init_world ags) k) < 3} = {..<length ags}"
    using ph by (auto simp: init_world_def)
  ultimately show ?thesis using ph by (auto simp: pop_inv_def init_world_def)
qed

lemma pop_inv_steps [simp]: "pop_inv (w\<lparr>steps := n\<rparr>) = pop_inv w"
  by (simp add: pop_inv_def acted_def agent_at_def)

text \<open>
  (C1) One agent's step keeps the population invariant: the live set is exactly the
  agents not yet Acted, each once; every agent past Aware has a preferred action; the
  category counters and the evacuation history both count the Acted agents.  Whatever
  order the scheduler picks, each step (a retirement included) keeps it.
\<close>

theorem individual_step_keeps_pop_inv:
  "pop_inv w \<Longrightarrow> i < length (pop w) \<Longrightarrow> individual_step cfg i w = Inr w' \<Longrightarrow> pop_inv w'"
  by (rule status_step_pop_inv [OF individual_step_status])

text \<open>
  (C4) A step never lowers any agent's phase and raises only the stepping agent's phase,
  by at most one: the phases move Unaware, Aware, Deciding, Acted in order.
\<close>

theorem individual_step_phase_monotone:
  assumes "i < length (pop w)" and "individual_step cfg i w = Inr w'" and "k < length (pop w)"
  shows "length (pop w') = length (pop w)
    \<and> phase (agent_at w k) \<le> phase (agent_at w' k)
    \<and> phase (agent_at w' k) \<le> phase (agent_at w k) + (if k = i then 1 else 0)"
proof -
  have st: "status_step i w w'" using individual_step_status [OF assms(1,2)] .
  have keep: "world_status w' = world_status w2 \<Longrightarrow> length (pop w') = length (pop w2)
      \<and> phase (agent_at w' k) = phase (agent_at w2 k)" if "k < length (pop w2)" for w2
    using world_status_agent [of w' w2 k] that by simp
  have l2: "length (pop (upd_agent i f w)) = length (pop w)" for f by simp
  from st consider (same) "world_status w' = world_status w"
    | (aware) "phase (agent_at w i) = 0" "world_status w' = world_status (upd_agent i (\<lambda>a. a\<lparr>phase := 1\<rparr>) w)"
    | (deciding) act where "phase (agent_at w i) = 1"
        "world_status w' = world_status (upd_agent i (\<lambda>a. a\<lparr>phase := 2, preferred_evac := Some act\<rparr>) w)"
    | (acted) act where "phase (agent_at w i) = 2"
        "world_status w' = world_status (remove_agent i (count_choice act
               ((upd_agent i (\<lambda>a. a\<lparr>phase := 3\<rparr>) w)\<lparr>evaced_agents := Suc (evaced_agents w)\<rparr>)))"
    unfolding status_step_def by (elim conjE disjE exE) blast+
  then show ?thesis
  proof cases
    case same
    then show ?thesis using keep [OF assms(3)] by simp
  next
    case aware
    then show ?thesis using keep [of "upd_agent i (\<lambda>a. a\<lparr>phase := 1\<rparr>) w"] assms(3)
      by (simp add: agent_at_upd_agent)
  next
    case (deciding act)
    then show ?thesis using keep [of "upd_agent i (\<lambda>a. a\<lparr>phase := 2, preferred_evac := Some act\<rparr>) w"] assms(3)
      by (simp add: agent_at_upd_agent)
  next
    case (acted act)
    then show ?thesis
      using keep [of "remove_agent i (count_choice act
               ((upd_agent i (\<lambda>a. a\<lparr>phase := 3\<rparr>) w)\<lparr>evaced_agents := Suc (evaced_agents w)\<rparr>))"] assms(3)
      by (simp add: agent_at_upd_agent remove_agent_def)
  qed
qed

end
