(* ===== verification/Scheduler.thy ===== *)
theory Scheduler
  imports AgentPhase
begin

text \<open>
  The simulation scheduler: \<open>EvacuationDec.step\<close> and the run loop of
  \<open>src/Model.py\<close>, with the two pieces of mesa it relies on modelled from their
  behaviour: the tick counter is incremented before the user's \<open>step\<close> runs, and
  \<open>shuffle_do("step")\<close> snapshots the live agent set, shuffles it with the model's
  generator (Python's \<open>random.shuffle\<close>, a Fisher-Yates pass from the last position
  down) and steps every agent of the snapshot in that order.  Agents mutate one another
  immediately, so a later agent of the same tick sees the effects of earlier ones.  The run
  loop (\<open>while self.running: self.step()\<close>) is a \<open>partial_function\<close> in the option
  monad: \<open>None\<close> is a run that never stops.
\<close>

section \<open>Definitions\<close>

text \<open>
  \<open>random.shuffle\<close>: for \<open>i\<close> from \<open>len(x) - 1\<close> down to 1, swap \<open>x[i]\<close> with
  \<open>x[randbelow(i + 1)]\<close>.  The generator stream \<open>rb\<close> is read at successive
  positions; \<open>mod\<close> keeps a draw in the range \<open>randbelow\<close> guarantees.
\<close>

fun fy_shuffle :: "(nat \<Rightarrow> nat \<Rightarrow> nat) \<Rightarrow> nat \<Rightarrow> nat \<Rightarrow> 'a list \<Rightarrow> 'a list \<times> nat" where
  "fy_shuffle rb 0 pos xs = (xs, pos)"
| "fy_shuffle rb (Suc i) pos xs =
     (let j = rb pos (Suc i + 1) mod (Suc i + 1)
      in fy_shuffle rb i (Suc pos) (xs[Suc i := xs ! j, j := xs ! Suc i]))"

definition shuffle_agents :: "params \<Rightarrow> world \<Rightarrow> nat list \<times> world" where
  "shuffle_agents cfg w =
     (let (order, pos) = fy_shuffle (rng_below cfg) (length (agents w) - 1) (rng_pos w) (agents w)
      in (order, w\<lparr>rng_pos := pos\<rparr>))"

text \<open>\<open>self.agents.get("phase").count(p)\<close>: live agents in phase \<open>p\<close>.\<close>

definition count_phase :: "world \<Rightarrow> nat \<Rightarrow> nat" where
  "count_phase w p = length (filter (\<lambda>k. phase (agent_at w k) = p) (agents w))"

text \<open>
  The population-weighted mean time to action over the collected ticks:
  \<open>sum((t + 1) * n for t, n in enumerate(evacs)) / sum(evacs)\<close>, \<open>None\<close> when nobody
  evacuated.
\<close>

definition average_evac_time_of :: "nat list \<Rightarrow> real option" where
  "average_evac_time_of evacs_per_step =
     (let numerator = sum_list (map (\<lambda>(t, n). (t + 1) * n) (enumerate 0 evacs_per_step));
          denominator = sum_list evacs_per_step
      in if denominator > 0 then Some (real numerator / real denominator) else None)"

text \<open>The announcements of the tick: the tropical watch, else the evacuation order.\<close>

definition announcements :: "params \<Rightarrow> world \<Rightarrow> world" where
  "announcements cfg w =
     (if steps w = trop_warning_step cfg then
        government_warning_communication (comm_watch_value_risk cfg) (comm_watch_value_risk cfg) w
      else if steps w = evac_warning_step cfg then
        government_warning_communication (comm_warning_value_risk cfg) (comm_warning_value_imm cfg) w
      else w)"

text \<open>\<open>datacollector.collect\<close>: the column the summary statistic reads.\<close>

definition collect :: "world \<Rightarrow> world" where
  "collect w = w\<lparr>evac_history := evac_history w @ [evaced_agents w]\<rparr>"

definition finish_run :: "params \<Rightarrow> world \<Rightarrow> world" where
  "finish_run cfg w =
     (if steps w = number_of_steps cfg
      then w\<lparr>average_evac_time := average_evac_time_of (evac_history w), running := False\<rparr>
      else w)"

definition model_step :: "params \<Rightarrow> world \<Rightarrow> world result" where
  "model_step cfg w =
     (let w = w\<lparr>steps := steps w + 1\<rparr>;
          w = w\<lparr>phase_0 := count_phase w 0, phase_1 := count_phase w 1, phase_2 := count_phase w 2\<rparr>;
          (order, w) = shuffle_agents cfg w
      in rbind (rfold (individual_step cfg) order w) (\<lambda>w.
           Inr ((collect (announcements cfg (finish_run cfg w)))\<lparr>evaced_agents := 0\<rparr>)))"

partial_function (option) run_model :: "params \<Rightarrow> world \<Rightarrow> world result option" where
  "run_model cfg w =
     (if running w then
        (case model_step cfg w of
           Inl e \<Rightarrow> Some (Inl e)
         | Inr w' \<Rightarrow> run_model cfg w')
      else Some (Inr w))"

section \<open>Lemmas\<close>

subsection \<open>The shuffle\<close>

lemma fy_shuffle_mset:
  "i < length xs \<Longrightarrow> mset (fst (fy_shuffle rb i pos xs)) = mset xs"
proof (induction rb i pos xs rule: fy_shuffle.induct)
  case (1 rb pos xs)
  then show ?case by simp
next
  case (2 rb i pos xs)
  define j where "j = rb pos (Suc i + 1) mod (Suc i + 1)"
  have "j < Suc i + 1" unfolding j_def by (rule mod_less_divisor) simp
  then have j: "j < length xs" using "2.prems" by linarith
  have "mset (xs[Suc i := xs ! j, j := xs ! Suc i]) = mset xs"
    by (rule mset_swap [OF j "2.prems"])
  moreover have "i < length (xs[Suc i := xs ! j, j := xs ! Suc i])" using "2.prems" by simp
  ultimately show ?case using "2.IH" [OF j_def] by (simp add: Let_def j_def)
qed

lemma fy_shuffle_pos: "snd (fy_shuffle rb i pos xs) = pos + i"
  by (induction rb i pos xs rule: fy_shuffle.induct) (simp_all add: Let_def)

lemma shuffle_agents_mset:
  "mset (fst (shuffle_agents cfg w)) = mset (agents w)"
proof (cases "agents w = []")
  case True
  then show ?thesis by (simp add: shuffle_agents_def case_prod_unfold Let_def)
next
  case False
  then have "length (agents w) - 1 < length (agents w)" by simp
  from fy_shuffle_mset [OF this, of "rng_below cfg" "rng_pos w"] show ?thesis
    by (simp add: shuffle_agents_def case_prod_unfold Let_def)
qed

lemma shuffle_agents_set: "set (fst (shuffle_agents cfg w)) = set (agents w)"
  by (metis set_mset_mset shuffle_agents_mset)

subsection \<open>What a tick keeps\<close>

lemma status_step_shape:
  assumes "status_step i w w'" and "i < length (pop w)"
  shows "length (pop w') = length (pop w) \<and> steps w' = steps w \<and> running w' = running w
    \<and> evac_history w' = evac_history w"
proof -
  have len: "length (pop w') = length (pop w2)" if "world_status w' = world_status w2" for w2
    using that by (simp add: world_status_def) (metis length_map)
  show ?thesis using assms unfolding status_step_def
    by (elim conjE disjE exE) (auto dest!: len simp: remove_agent_def)
qed

lemma pop_inv_cong:
  assumes "pop w' = pop w" "agents w' = agents w" "hotel_choice w' = hotel_choice w"
    "friends_choice w' = friends_choice w" "shelter_choice w' = shelter_choice w"
    "stay_choice w' = stay_choice w" "evaced_agents w' = evaced_agents w" "evac_history w' = evac_history w"
  shows "pop_inv w' = pop_inv w"
  using assms by (simp add: pop_inv_def acted_def agent_at_def)

lemma pop_inv_social_only: "social_only w w' \<Longrightarrow> pop_inv w' = pop_inv w"
  by (rule pop_inv_status [OF world_status_social_only]) (simp_all add: social_only_agent)

lemma pop_inv_collect: "pop_inv w \<Longrightarrow> pop_inv ((collect w)\<lparr>evaced_agents := 0\<rparr>)"
  by (simp add: pop_inv_def acted_def agent_at_def collect_def)

lemma rfold_individual_step:
  assumes "pop_inv w" and "set order \<subseteq> {..<length (pop w)}"
    and "rfold (individual_step cfg) order w = Inr w'"
  shows "pop_inv w' \<and> length (pop w') = length (pop w) \<and> steps w' = steps w
    \<and> running w' = running w \<and> evac_history w' = evac_history w"
proof -
  let ?P = "\<lambda>s. pop_inv s \<and> length (pop s) = length (pop w) \<and> steps s = steps w
    \<and> running s = running w \<and> evac_history s = evac_history w"
  show ?thesis
  proof (rule rfold_invariant [where P = ?P, OF _ _ assms(3)])
    fix i s s' assume i: "i \<in> set order" and P: "?P s" and st: "individual_step cfg i s = Inr s'"
    have il: "i < length (pop s)" using i assms(2) P by auto
    from status_step_pop_inv [OF individual_step_status [OF il st] P [THEN conjunct1] il]
      status_step_shape [OF individual_step_status [OF il st] il]
    show "?P s'" using P by simp
  qed (use assms(1) in simp)
qed

lemma model_step_Inr:
  assumes "model_step cfg w = Inr w'"
  obtains w1 where "rfold (individual_step cfg) (fst (shuffle_agents cfg w))
      (snd (shuffle_agents cfg (w\<lparr>steps := steps w + 1, phase_0 := count_phase w 0,
         phase_1 := count_phase w 1, phase_2 := count_phase w 2\<rparr>))) = Inr w1"
    "w' = (collect (announcements cfg (finish_run cfg w1)))\<lparr>evaced_agents := 0\<rparr>"
  using assms
  by (auto simp: model_step_def count_phase_def agent_at_def shuffle_agents_def rbind_eq_Inr Let_def split: prod.splits)

lemma announcements_social_only: "social_only w (announcements cfg w)"
  by (simp add: announcements_def government_warning_communication_social_only)

lemma tick_end_shape:
  assumes "pop_inv w1"
  shows "pop_inv ((collect (announcements cfg (finish_run cfg w1)))\<lparr>evaced_agents := 0\<rparr>)"
    and "steps ((collect (announcements cfg (finish_run cfg w1)))\<lparr>evaced_agents := 0\<rparr>) = steps w1"
    and "running ((collect (announcements cfg (finish_run cfg w1)))\<lparr>evaced_agents := 0\<rparr>)
         = (running w1 \<and> steps w1 \<noteq> number_of_steps cfg)"
    and "evac_history ((collect (announcements cfg (finish_run cfg w1)))\<lparr>evaced_agents := 0\<rparr>)
         = evac_history w1 @ [evaced_agents w1]"
    and "length (pop ((collect (announcements cfg (finish_run cfg w1)))\<lparr>evaced_agents := 0\<rparr>)) = length (pop w1)"
proof -
  let ?f = "finish_run cfg w1"
  let ?a = "announcements cfg ?f"
  have so: "social_only ?f ?a" by (rule announcements_social_only)
  have f: "pop_inv ?f" "steps ?f = steps w1" "running ?f = (running w1 \<and> steps w1 \<noteq> number_of_steps cfg)"
    "evac_history ?f = evac_history w1" "evaced_agents ?f = evaced_agents w1" "pop ?f = pop w1"
    using assms by (simp_all add: finish_run_def pop_inv_def acted_def agent_at_def)
  have a: "pop_inv ?a" "steps ?a = steps ?f" "running ?a = running ?f" "evac_history ?a = evac_history ?f"
    "evaced_agents ?a = evaced_agents ?f" "length (pop ?a) = length (pop ?f)"
    using pop_inv_social_only [OF so] f(1) social_only_agent [OF so] by simp_all
  show "pop_inv ((collect ?a)\<lparr>evaced_agents := 0\<rparr>)" using pop_inv_collect a(1) by blast
  show "steps ((collect ?a)\<lparr>evaced_agents := 0\<rparr>) = steps w1"
    "running ((collect ?a)\<lparr>evaced_agents := 0\<rparr>) = (running w1 \<and> steps w1 \<noteq> number_of_steps cfg)"
    "evac_history ((collect ?a)\<lparr>evaced_agents := 0\<rparr>) = evac_history w1 @ [evaced_agents w1]"
    "length (pop ((collect ?a)\<lparr>evaced_agents := 0\<rparr>)) = length (pop w1)"
    using a f by (simp_all add: collect_def)
qed

lemma model_step_shape:
  assumes inv: "pop_inv w" and ms: "model_step cfg w = Inr w'"
  shows "pop_inv w' \<and> length (pop w') = length (pop w) \<and> steps w' = steps w + 1
    \<and> running w' = (running w \<and> steps w + 1 \<noteq> number_of_steps cfg)
    \<and> (\<exists>n. evac_history w' = evac_history w @ [n])"
proof -
  let ?w0 = "w\<lparr>steps := steps w + 1, phase_0 := count_phase w 0, phase_1 := count_phase w 1,
     phase_2 := count_phase w 2\<rparr>"
  obtain w1 where r: "rfold (individual_step cfg) (fst (shuffle_agents cfg w)) (snd (shuffle_agents cfg ?w0)) = Inr w1"
    and w': "w' = (collect (announcements cfg (finish_run cfg w1)))\<lparr>evaced_agents := 0\<rparr>"
    using ms by (rule model_step_Inr)
  have s0: "snd (shuffle_agents cfg ?w0) = ?w0\<lparr>rng_pos := snd (fy_shuffle (rng_below cfg)
      (length (agents w) - 1) (rng_pos w) (agents w))\<rparr>"
    by (simp add: shuffle_agents_def case_prod_unfold Let_def)
  have i0: "pop_inv (snd (shuffle_agents cfg ?w0))"
    unfolding s0 using inv by (simp add: pop_inv_def acted_def agent_at_def)
  have sub: "set (fst (shuffle_agents cfg w)) \<subseteq> {..<length (pop (snd (shuffle_agents cfg ?w0)))}"
    using inv unfolding s0 shuffle_agents_set pop_inv_def by auto
  note r1 = rfold_individual_step [OF i0 sub r]
  show ?thesis
    using tick_end_shape [of w1 cfg] r1 unfolding w' s0 by simp
qed

subsection \<open>The run loop\<close>

lemma run_model_stopped: "\<not> running w \<Longrightarrow> run_model cfg w = Some (Inr w)"
  by (simp add: run_model.simps)

lemma run_model_continue:
  "running w \<Longrightarrow> model_step cfg w = Inr w' \<Longrightarrow> run_model cfg w = run_model cfg w'"
  by (simp add: run_model.simps)

lemma run_model_error:
  "running w \<Longrightarrow> model_step cfg w = Inl e \<Longrightarrow> run_model cfg w = Some (Inl e)"
  by (simp add: run_model.simps)

lemma run_model_late_start:
  assumes "run_model cfg w = Some r"
  shows "running w \<longrightarrow> number_of_steps cfg \<le> steps w \<longrightarrow> pop_inv w \<longrightarrow> isl r"
proof (rule run_model.raw_induct [OF _ assms])
  fix run :: "params \<Rightarrow> world \<Rightarrow> world result option" and cfg w r
  assume IH: "\<And>cfg w r. run cfg w = Some r \<Longrightarrow>
      running w \<longrightarrow> number_of_steps cfg \<le> steps w \<longrightarrow> pop_inv w \<longrightarrow> isl r"
    and body: "(if running w then case model_step cfg w of Inl e \<Rightarrow> Some (Inl e) | Inr w' \<Rightarrow> run cfg w'
      else Some (Inr w)) = Some r"
  show "running w \<longrightarrow> number_of_steps cfg \<le> steps w \<longrightarrow> pop_inv w \<longrightarrow> isl r"
  proof (intro impI)
    assume run: "running w" and late: "number_of_steps cfg \<le> steps w" and inv: "pop_inv w"
    show "isl r"
    proof (cases "model_step cfg w")
      case (Inl e)
      then have "r = Inl e" using body run by simp
      then show ?thesis by simp
    next
      case (Inr w1)
      note sh = model_step_shape [OF inv Inr]
      have "run cfg w1 = Some r" using body run Inr by simp
      from IH [OF this] sh late run show ?thesis by simp
    qed
  qed
qed

text \<open>A property every successful tick keeps holds at the end of every normal run.\<close>

lemma run_model_invariant:
  assumes "run_model cfg w = Some r"
  shows "(\<forall>w w'. P w \<longrightarrow> model_step cfg w = Inr w' \<longrightarrow> P w') \<longrightarrow> P w \<longrightarrow> (\<forall>w'. r = Inr w' \<longrightarrow> P w')"
proof (rule run_model.raw_induct [OF _ assms])
  fix run :: "params \<Rightarrow> world \<Rightarrow> world result option" and cfg w r
  assume IH: "\<And>cfg w r. run cfg w = Some r \<Longrightarrow>
      (\<forall>w w'. P w \<longrightarrow> model_step cfg w = Inr w' \<longrightarrow> P w') \<longrightarrow> P w \<longrightarrow> (\<forall>w'. r = Inr w' \<longrightarrow> P w')"
    and body: "(if running w then case model_step cfg w of Inl e \<Rightarrow> Some (Inl e) | Inr w' \<Rightarrow> run cfg w'
      else Some (Inr w)) = Some r"
  show "(\<forall>w w'. P w \<longrightarrow> model_step cfg w = Inr w' \<longrightarrow> P w') \<longrightarrow> P w \<longrightarrow> (\<forall>w'. r = Inr w' \<longrightarrow> P w')"
  proof (intro impI allI)
    fix w' assume step: "\<forall>w w'. P w \<longrightarrow> model_step cfg w = Inr w' \<longrightarrow> P w'" and inv: "P w" and r: "r = Inr w'"
    show "P w'"
    proof (cases "running w")
      case False
      then show ?thesis using body r inv by simp
    next
      case True
      show ?thesis
      proof (cases "model_step cfg w")
        case (Inl e)
        then show ?thesis using body True r by simp
      next
        case (Inr w1)
        have "run cfg w1 = Some r" using body True Inr by simp
        then show ?thesis using IH step inv Inr r by blast
      qed
    qed
  qed
qed

lemma run_model_pop_inv:
  assumes "run_model cfg w = Some r"
  shows "pop_inv w \<longrightarrow> (\<forall>w'. r = Inr w' \<longrightarrow> pop_inv w')"
  using run_model_invariant [OF assms, of pop_inv] model_step_shape by blast

lemma run_model_evaced_reset:
  assumes "run_model cfg w = Some (Inr w')" and "evaced_agents w = 0"
  shows "evaced_agents w' = 0"
proof -
  have "\<forall>w w'. evaced_agents w = 0 \<longrightarrow> model_step cfg w = Inr w' \<longrightarrow> evaced_agents w' = 0"
    by (auto simp: model_step_def Let_def rbind_eq_Inr case_prod_beta collect_def)
  then show ?thesis using run_model_invariant [OF assms(1), of "\<lambda>w. evaced_agents w = 0"] assms(2) by blast
qed

text \<open>A tick without live agents succeeds, and a run in which every tick succeeds never raises.\<close>

lemma model_step_no_agents: "agents w = [] \<Longrightarrow> \<exists>w'. model_step cfg w = Inr w' \<and> agents w' = []"
proof -
  assume e: "agents w = []"
  have "fst (shuffle_agents cfg w) = []" using shuffle_agents_mset [of cfg w] e by simp
  moreover have "agents (announcements cfg v) = agents v" for v
    using social_only_agent(3) [OF announcements_social_only] by blast
  ultimately show ?thesis using e
    by (simp add: model_step_def Let_def case_prod_unfold shuffle_agents_def finish_run_def collect_def)
qed

lemma run_model_no_error:
  assumes "run_model cfg w = Some r"
  shows "(\<forall>w. P w \<longrightarrow> (\<exists>w'. model_step cfg w = Inr w' \<and> P w')) \<longrightarrow> P w \<longrightarrow> (\<exists>w'. r = Inr w')"
proof (rule run_model.raw_induct [OF _ assms])
  fix run :: "params \<Rightarrow> world \<Rightarrow> world result option" and cfg w r
  assume IH: "\<And>cfg w r. run cfg w = Some r \<Longrightarrow>
      (\<forall>w. P w \<longrightarrow> (\<exists>w'. model_step cfg w = Inr w' \<and> P w')) \<longrightarrow> P w \<longrightarrow> (\<exists>w'. r = Inr w')"
    and body: "(if running w then case model_step cfg w of Inl e \<Rightarrow> Some (Inl e) | Inr w' \<Rightarrow> run cfg w'
      else Some (Inr w)) = Some r"
  show "(\<forall>w. P w \<longrightarrow> (\<exists>w'. model_step cfg w = Inr w' \<and> P w')) \<longrightarrow> P w \<longrightarrow> (\<exists>w'. r = Inr w')"
  proof (intro impI)
    assume step: "\<forall>w. P w \<longrightarrow> (\<exists>w'. model_step cfg w = Inr w' \<and> P w')" and p: "P w"
    show "\<exists>w'. r = Inr w'"
    proof (cases "running w")
      case False
      then show ?thesis using body by auto
    next
      case True
      obtain w1 where m: "model_step cfg w = Inr w1" and p1: "P w1" using step p by blast
      have "run cfg w1 = Some r" using body True m by simp
      then show ?thesis using IH step p1 by blast
    qed
  qed
qed

subsection \<open>Parameters and counters\<close>

lemma watch_imm_unread_diffusion:
  fixes x cfg defines "cfg' \<equiv> cfg\<lparr>comm_watch_value_imm := x\<rparr>"
  shows "coeff_dict cfg' att = coeff_dict cfg att"
  and "general_communication cfg' = general_communication cfg"
  and "action_communication cfg' = action_communication cfg"
  and "phase_change_communication cfg' = phase_change_communication cfg"
  and "bump_action cfg' = bump_action cfg"
  and "bump_evac cfg' = bump_evac cfg"
  and "Protective_Action_Implementation_communication cfg' = Protective_Action_Implementation_communication cfg"
proof -
  show c: "coeff_dict cfg' att = coeff_dict cfg att" for att
    by (cases att) (simp_all add: cfg'_def)
  show g: "general_communication cfg' = general_communication cfg"
    by (intro ext) (simp add: general_communication_def c Let_def)
  show "action_communication cfg' = action_communication cfg"
    by (intro ext) (simp add: action_communication_def g)
  show "phase_change_communication cfg' = phase_change_communication cfg"
    by (intro ext) (simp add: phase_change_communication_def cfg'_def Let_def)
  show a: "bump_action cfg' = bump_action cfg"
    by (intro ext) (simp add: bump_action_def cfg'_def)
  show e: "bump_evac cfg' = bump_evac cfg"
    by (intro ext) (simp add: bump_evac_def cfg'_def)
  show "Protective_Action_Implementation_communication cfg' = Protective_Action_Implementation_communication cfg"
    by (intro ext) (simp only: Protective_Action_Implementation_communication_def a e)
qed

lemma watch_imm_unread_step:
  fixes x cfg defines "cfg' \<equiv> cfg\<lparr>comm_watch_value_imm := x\<rparr>"
  shows "individual_step cfg' = individual_step cfg"
    and "model_step cfg' = model_step cfg"
proof -
  have sel: "number_of_steps cfg' = number_of_steps cfg" "min_probability_threshold cfg' = min_probability_threshold cfg"
    "comm_watch_value_risk cfg' = comm_watch_value_risk cfg" "comm_warning_value_risk cfg' = comm_warning_value_risk cfg"
    "comm_warning_value_imm cfg' = comm_warning_value_imm cfg" "coeff_risk_perception cfg' = coeff_risk_perception cfg"
    "ceiling_param cfg' = ceiling_param cfg" "coeff_action_comm cfg' = coeff_action_comm cfg"
    "grow_factor cfg' = grow_factor cfg" "phase_change_factor cfg' = phase_change_factor cfg"
    "action_comm_value_imm cfg' = action_comm_value_imm cfg" "action_comm_value cfg' = action_comm_value cfg"
    "trop_warning_step cfg' = trop_warning_step cfg" "evac_warning_step cfg' = evac_warning_step cfg"
    "media_weight_trust cfg' = media_weight_trust cfg" "media_weight_perc cfg' = media_weight_perc cfg"
    "RA_base cfg' = RA_base cfg" "RI_base cfg' = RI_base cfg" "threshold_strength_RA cfg' = threshold_strength_RA cfg"
    "env_strength cfg' = env_strength cfg" "predict_proba cfg' = predict_proba cfg"
    "rng_random cfg' = rng_random cfg" "rng_below cfg' = rng_below cfg"
    by (simp_all add: cfg'_def)
  note d = watch_imm_unread_diffusion [where x = x and cfg = cfg, folded cfg'_def]
  have c: "calc_risk_perception cfg' = calc_risk_perception cfg" "calc_media_cue cfg' = calc_media_cue cfg"
    "immediacy_base_at cfg' = immediacy_base_at cfg" "surge_reaction cfg' = surge_reaction cfg"
    "random_draw cfg' = random_draw cfg" "protective_action_search cfg' = protective_action_search cfg"
    by (simp_all only: fun_eq_iff simp_thms calc_risk_perception_def calc_media_cue_def immediacy_base_at_def surge_reaction_def
        random_draw_def protective_action_search_def sel)
  have h: "update_immediacy_base cfg' = update_immediacy_base cfg" "refresh_surge cfg' = refresh_surge cfg"
    "risk_identification cfg' = risk_identification cfg" "risk_assessment cfg' = risk_assessment cfg"
    "protective_action_assessment cfg' = protective_action_assessment cfg"
    by (simp_all only: fun_eq_iff simp_thms update_immediacy_base_def refresh_surge_def risk_identification_def risk_assessment_def
        protective_action_assessment_def sel c d)
  have p: "step_preamble cfg' = step_preamble cfg" "phase_handler cfg' = phase_handler cfg"
    by (simp_all only: fun_eq_iff simp_thms step_preamble_def phase_handler_def c h)
  show i: "individual_step cfg' = individual_step cfg"
    by (simp only: fun_eq_iff simp_thms individual_step_def p d)
  have s: "shuffle_agents cfg' = shuffle_agents cfg" "announcements cfg' = announcements cfg"
    "finish_run cfg' = finish_run cfg"
    by (simp_all only: fun_eq_iff simp_thms shuffle_agents_def announcements_def finish_run_def sel)
  show "model_step cfg' = model_step cfg"
    by (simp only: fun_eq_iff simp_thms model_step_def i s)
qed

lemma distinct_count_list: "distinct xs \<Longrightarrow> count_list xs k = (if k \<in> set xs then 1 else 0)"
  by (induction xs) auto


section \<open>Properties\<close>

text \<open>
  \<open>shuffle_do\<close> steps a permutation of the live set: the Fisher-Yates pass
  reorders the agent ids without losing or repeating any, and reads exactly
  \<open>len(agents) - 1\<close> draws of the generator.
\<close>

theorem shuffle_agents_permutes:
  "mset (fst (shuffle_agents cfg w)) = mset (agents w)
   \<and> snd (shuffle_agents cfg w) = w\<lparr>rng_pos := rng_pos w + (length (agents w) - 1)\<rparr>"
  using shuffle_agents_mset [of cfg w]
  by (simp add: shuffle_agents_def case_prod_unfold Let_def fy_shuffle_pos)

text \<open>
  (C2) One tick of \<open>EvacuationDec.step\<close> keeps the population invariant whatever
  order the shuffle picks: the tick counter advances by one, the run stops exactly at
  \<open>number_of_steps\<close>, the agent store keeps its size and the tick's evacuation count is
  appended to the history.
\<close>

theorem model_step_keeps_pop_inv:
  "pop_inv w \<Longrightarrow> model_step cfg w = Inr w' \<Longrightarrow>
     pop_inv w' \<and> length (pop w') = length (pop w) \<and> steps w' = steps w + 1
     \<and> running w' = (running w \<and> steps w + 1 \<noteq> number_of_steps cfg)
     \<and> (\<exists>n. evac_history w' = evac_history w @ [n])"
  by (rule model_step_shape)

lemma run_model_ends:
  assumes "pop_inv w" and "running w" and "steps w < number_of_steps cfg"
  shows "\<exists>r. run_model cfg w = Some r \<and> (\<forall>w'. r = Inr w' \<longrightarrow> pop_inv w' \<and> \<not> running w'
     \<and> steps w' = number_of_steps cfg
     \<and> length (evac_history w') = length (evac_history w) + nat (number_of_steps cfg - steps w))"
  using assms
proof (induction "nat (number_of_steps cfg - steps w)" arbitrary: w)
  case 0
  then show ?case by simp
next
  case (Suc n)
  show ?case
  proof (cases "model_step cfg w")
    case (Inl e)
    then show ?thesis using run_model_error [OF Suc.prems(2)] by simp
  next
    case (Inr w1)
    note sh = model_step_shape [OF Suc.prems(1) Inr]
    show ?thesis
    proof (cases "steps w + 1 = number_of_steps cfg")
      case True
      then show ?thesis using sh run_model_continue [OF Suc.prems(2) Inr] run_model_stopped [of w1 cfg]
        by auto
    next
      case False
      have "n = nat (number_of_steps cfg - steps w1)" using Suc.hyps(2) sh by simp
      from Suc.hyps(1) [OF this] sh False Suc.prems
      obtain r where "run_model cfg w1 = Some r" and
        "\<forall>w'. r = Inr w' \<longrightarrow> pop_inv w' \<and> \<not> running w' \<and> steps w' = number_of_steps cfg
          \<and> length (evac_history w') = length (evac_history w1) + nat (number_of_steps cfg - steps w1)"
        by auto
      then show ?thesis using run_model_continue [OF Suc.prems(2) Inr] sh Suc.prems(3) by auto
    qed
  qed
qed

text \<open>
  (C3) The run loop \<open>while self.running: self.step()\<close> ends when it starts before
  \<open>number_of_steps\<close>: it returns (an exception of a tick included), and a normal
  end is at tick \<open>number_of_steps\<close>, stopped, with the invariant and one history
  entry per tick run.
\<close>

theorem run_model_terminates:
  assumes "pop_inv w" and "running w" and "steps w < number_of_steps cfg"
  shows "\<exists>r. run_model cfg w = Some r \<and> (\<forall>w'. r = Inr w' \<longrightarrow> pop_inv w' \<and> \<not> running w'
     \<and> steps w' = number_of_steps cfg
     \<and> length (evac_history w') = length (evac_history w) + nat (number_of_steps cfg - steps w))"
  by (rule run_model_ends [OF assms])

text \<open>
  (C5) A run that starts at or past \<open>number_of_steps\<close> (for instance a configuration
  with \<open>number_of_steps = 0\<close>) never ends normally: \<open>steps == number_of_steps\<close>
  is the only test that clears \<open>running\<close>, and \<open>steps\<close> only grows.
\<close>

theorem run_model_never_returns:
  assumes "pop_inv w" and "running w" and "number_of_steps cfg \<le> steps w"
  shows "run_model cfg w \<noteq> Some (Inr w')"
  using run_model_late_start [of cfg w "Inr w'"] assms by auto

text \<open>
  (C21) The announcements of a tick reach exactly the agents not yet Acted, once each.  The
  tropical watch adds \<open>comm_watch_value_risk\<close> to both the social perception and the
  immediacy; the evacuation order, on another tick, adds \<open>comm_warning_value_risk\<close> and
  \<open>comm_warning_value_imm\<close>.
\<close>

theorem announcements_effect:
  assumes inv: "pop_inv w" and k: "k < length (pop w)"
  shows "agent_at (announcements cfg w) k =
    (if phase (agent_at w k) < 3 then
       (let (vr, vi) = (if steps w = trop_warning_step cfg then (comm_watch_value_risk cfg, comm_watch_value_risk cfg)
                        else if steps w = evac_warning_step cfg then (comm_warning_value_risk cfg, comm_warning_value_imm cfg)
                        else (0, 0))
        in bump_gov vr vi (agent_at w k))
     else agent_at w k)"
proof -
  have cnt: "count_list (agents w) k = (if phase (agent_at w k) < 3 then 1 else 0)"
    using inv k by (simp add: pop_inv_def distinct_count_list)
  show ?thesis
    using k by (simp add: announcements_def government_warning_communication_at cnt bump_gov_def)
qed

text \<open>
  (C24) \<open>comm_watch_value_imm\<close> is never read: a tick is the same function of the
  world whatever its value.
\<close>

theorem model_step_ignores_comm_watch_value_imm:
  "model_step (cfg\<lparr>comm_watch_value_imm := x\<rparr>) = model_step cfg"
  by (rule watch_imm_unread_step(2))


end
