(* ===== verification/Bounds.thy ===== *)
theory Bounds
  imports Scheduler
begin

text \<open>
  Numeric bounds of an agent's state.  The base immediacy of \<open>Individual.step\<close>
  (\<open>immediacy_base_at\<close>) is a growth curve \<open>c f / (1 + g (1 - f))\<close> in
  \<open>f = (t + 1) / T\<close>: its bounds and growth before the horizon, its overshoot at the
  final tick and its error for \<open>T = 0\<close>.  The cue invariant \<open>cue_ok\<close> (risk
  perception at most 1, media cue in \<open>[0, 1]\<close>, media trust non-negative) and the
  relation \<open>cue_rel\<close> (the invariant carries over and media cues do not decrease) are
  pushed through every operation of a step and of a tick with \<open>preserves\<close>.
\<close>

section \<open>Definitions\<close>

definition cue_fields :: "agent \<Rightarrow> real \<times> real \<times> real list" where
  "cue_fields a = (risk_perception a, media_cue a, media_trust a)"


definition cue_ok_agent :: "agent \<Rightarrow> bool" where
  "cue_ok_agent a \<longleftrightarrow> risk_perception a \<le> 1 \<and> 0 \<le> media_cue a \<and> media_cue a \<le> 1
     \<and> (\<forall>x\<in>set (media_trust a). 0 \<le> x)"


definition cue_ok :: "world \<Rightarrow> bool" where
  "cue_ok w \<longleftrightarrow> (\<forall>k<length (pop w). cue_ok_agent (agent_at w k))"


definition cue_rel :: "world \<Rightarrow> world \<Rightarrow> bool" where
  "cue_rel w w' \<longleftrightarrow> length (pop w') = length (pop w)
     \<and> (\<forall>k<length (pop w). cue_ok_agent (agent_at w k) \<longrightarrow>
          cue_ok_agent (agent_at w' k) \<and> media_cue (agent_at w k) \<le> media_cue (agent_at w' k))"


section \<open>Lemmas\<close>

lemma immediacy_base_at_eq:
  "0 < number_of_steps cfg \<Longrightarrow>
   immediacy_base_at cfg n =
     (let f = real_of_int (n + 1) / real_of_int (number_of_steps cfg)
      in py_div (ceiling_param cfg * f) (1 + grow_factor cfg * (1 - f)))"
  by (simp add: immediacy_base_at_def Let_def divide_inverse)


lemma growth_curve_bounds:
  fixes c g f :: real
  assumes "0 \<le> c" "0 \<le> g" "0 \<le> f" "f \<le> 1"
  shows "0 < 1 + g * (1 - f)" and "0 \<le> c * f / (1 + g * (1 - f))" and "c * f / (1 + g * (1 - f)) \<le> c"
proof -
  show d: "0 < 1 + g * (1 - f)" using assms by (simp add: add_pos_nonneg)
  show "0 \<le> c * f / (1 + g * (1 - f))" using assms d by simp
  have "c * f \<le> c * (1 + g * (1 - f))"
    using assms by (intro mult_left_mono) (simp_all add: mult_nonneg_nonneg add_increasing2)
  then show "c * f / (1 + g * (1 - f)) \<le> c" using d by (simp add: divide_le_eq)
qed


lemma growth_curve_mono:
  fixes c g f f' :: real
  assumes "0 \<le> c" "0 \<le> g" "0 \<le> f" "f \<le> f'" "f' \<le> 1"
  shows "c * f / (1 + g * (1 - f)) \<le> c * f' / (1 + g * (1 - f'))"
proof -
  have d: "0 < 1 + g * (1 - f')" "1 + g * (1 - f') \<le> 1 + g * (1 - f)"
    using assms by (simp_all add: add_pos_nonneg mult_left_mono)
  have "c * f / (1 + g * (1 - f)) \<le> c * f / (1 + g * (1 - f'))"
    using d assms by (intro divide_left_mono) (simp_all add: mult_pos_pos)
  also have "\<dots> \<le> c * f' / (1 + g * (1 - f'))"
    using d assms by (intro divide_right_mono mult_left_mono) simp_all
  finally show ?thesis .
qed


lemma growth_curve_overshoot:
  fixes c g f :: real
  assumes "0 < c" "0 \<le> g" "1 < f" "0 < 1 + g * (1 - f)"
  shows "c < c * f / (1 + g * (1 - f))"
proof -
  have "g * (1 - f) \<le> 0" using assms(2,3) by (intro mult_nonneg_nonpos) simp_all
  then have "1 + g * (1 - f) < f" using assms(3) by linarith
  then have "c * (1 + g * (1 - f)) < c * f" using assms(1) by simp
  then show ?thesis using assms(4) by (simp add: less_divide_eq)
qed


lemma curve_fraction:
  assumes "0 \<le> n" "n + 1 \<le> T" "0 < T"
  shows "0 \<le> real_of_int (n + 1) / real_of_int T" "real_of_int (n + 1) / real_of_int T \<le> 1"
  using assms by (simp_all add: divide_le_eq)


lemma cue_rel_order: "reflp cue_rel" "transp cue_rel"
proof -
  show "reflp cue_rel" by (rule reflpI) (simp add: cue_rel_def)
  show "transp cue_rel"
  proof (rule transpI)
    fix x y z assume xy: "cue_rel x y" and yz: "cue_rel y z"
    show "cue_rel x z" unfolding cue_rel_def
    proof (intro conjI allI impI)
      show "length (pop z) = length (pop x)" using xy yz by (simp add: cue_rel_def)
      fix k assume k: "k < length (pop x)" and ok: "cue_ok_agent (agent_at x k)"
      have ky: "k < length (pop y)" using k xy by (simp add: cue_rel_def)
      from xy k ok have 1: "cue_ok_agent (agent_at y k)" "media_cue (agent_at x k) \<le> media_cue (agent_at y k)"
        by (simp_all add: cue_rel_def)
      from yz ky 1(1) have 2: "cue_ok_agent (agent_at z k)" "media_cue (agent_at y k) \<le> media_cue (agent_at z k)"
        by (simp_all add: cue_rel_def)
      show "cue_ok_agent (agent_at z k)" by (rule 2(1))
      show "media_cue (agent_at x k) \<le> media_cue (agent_at z k)" using 1(2) 2(2) by (rule order_trans)
    qed
  qed
qed


lemma cue_rel_upd:
  "(cue_ok_agent (agent_at w i) \<Longrightarrow> cue_ok_agent (f (agent_at w i)) \<and> media_cue (agent_at w i) \<le> media_cue (f (agent_at w i)))
   \<Longrightarrow> cue_rel w (upd_agent i f w)"
  by (auto simp: cue_rel_def agent_at_upd_agent)


lemma cue_fields_ok: "cue_fields a' = cue_fields a \<Longrightarrow> cue_ok_agent a' = cue_ok_agent a"
  by (simp add: cue_fields_def cue_ok_agent_def)


lemma cue_rel_upd_keep:
  "(\<And>a. cue_fields (f a) = cue_fields a) \<Longrightarrow> cue_rel w (upd_agent i f w)"
proof (rule cue_rel_upd)
  assume h: "\<And>a. cue_fields (f a) = cue_fields a"
  have "cue_ok_agent (f (agent_at w i)) = cue_ok_agent (agent_at w i)" by (rule cue_fields_ok [OF h])
  moreover have "media_cue (f (agent_at w i)) = media_cue (agent_at w i)"
    using h [of "agent_at w i"] by (simp add: cue_fields_def)
  ultimately show "cue_ok_agent (f (agent_at w i)) \<and> media_cue (agent_at w i) \<le> media_cue (f (agent_at w i))"
    if "cue_ok_agent (agent_at w i)" using that by simp
qed


lemma cue_fields_strip: "strip_social a' = strip_social a \<Longrightarrow> cue_fields a' = cue_fields a"
  using strip_social_fields [of a' a] unfolding cue_fields_def by (simp only: prod.inject)


lemma cue_rel_same:
  assumes "length (pop w') = length (pop w)"
    and "\<And>k. k < length (pop w) \<Longrightarrow> cue_fields (agent_at w' k) = cue_fields (agent_at w k)"
  shows "cue_rel w w'"
  unfolding cue_rel_def
proof (intro conjI allI impI)
  show "length (pop w') = length (pop w)" by (rule assms(1))
  fix k assume k: "k < length (pop w)" and ok: "cue_ok_agent (agent_at w k)"
  note e = assms(2) [OF k]
  show "cue_ok_agent (agent_at w' k)" using cue_fields_ok [OF e] ok by simp
  show "media_cue (agent_at w k) \<le> media_cue (agent_at w' k)" using e by (simp add: cue_fields_def)
qed


lemma cue_rel_social:
  assumes "social_only w w'" shows "cue_rel w w'"
proof (rule cue_rel_same)
  show "length (pop w') = length (pop w)" by (rule social_only_agent(1) [OF assms])
  show "cue_fields (agent_at w' k) = cue_fields (agent_at w k)" if "k < length (pop w)" for k
    by (rule cue_fields_strip [OF social_only_agent(2) [OF assms that]])
qed


lemma cue_rel_pop: "pop w' = pop w \<Longrightarrow> cue_rel w w'"
  by (rule cue_rel_same) (simp_all add: agent_at_def)


lemma cue_rel_trans: "cue_rel w1 w2 \<Longrightarrow> cue_rel w2 w3 \<Longrightarrow> cue_rel w1 w3"
  using cue_rel_order(2) by (rule transpD)


lemma cue_fields_updates [simp]:
  "cue_fields (a\<lparr>cue_perception := x\<rparr>) = cue_fields a"
  "cue_fields (a\<lparr>phase := p\<rparr>) = cue_fields a"
  "cue_fields (a\<lparr>immediacy := x\<rparr>) = cue_fields a"
  "cue_fields (a\<lparr>immediacy_base := x\<rparr>) = cue_fields a"
  "cue_fields (a\<lparr>rain_cue := x\<rparr>) = cue_fields a"
  "cue_fields (a\<lparr>wind_cue := x\<rparr>) = cue_fields a"
  "cue_fields (a\<lparr>storm_surge_state := x\<rparr>) = cue_fields a"
  "cue_fields (surge_reaction cfg o' n a) = cue_fields a"
  "cue_fields (a\<lparr>evac_friends := f, evac_hotel := h, evac_shelter := s, stay := st, preferred_evac := q\<rparr>) = cue_fields a"
  by (simp_all add: cue_fields_def surge_reaction_def Let_def)


lemma np_mul_sum_nonneg:
  assumes "\<forall>x\<in>set xs. 0 \<le> x" and "\<forall>y\<in>set ys. 0 \<le> y" and "np_mul_sum xs ys = Inr s"
  shows "0 \<le> s"
proof -
  have zip: "\<forall>p\<in>set (zip xs ys). 0 \<le> fst p * snd p"
  proof
    fix p assume p: "p \<in> set (zip xs ys)"
    obtain a b where ab: "p = (a, b)" by (cases p)
    have "a \<in> set xs" "b \<in> set ys"
      using p unfolding ab by (rule set_zip_leftD, rule set_zip_rightD)
    then show "0 \<le> fst p * snd p" using assms(1,2) ab by simp
  qed
  have hx: "length xs = 1 \<Longrightarrow> 0 \<le> hd xs" and hy: "length ys = 1 \<Longrightarrow> 0 \<le> hd ys"
    using assms(1,2) by (auto simp: length_Suc_conv)
  show ?thesis
    using assms(3) zip hx hy assms(1,2)
    by (auto simp: np_mul_sum_def case_prod_unfold intro!: sum_list_nonneg split: if_splits)
qed


lemma media_exposure_nonneg: "\<forall>y\<in>set (media_exposure n fs). 0 \<le> y"
  by (auto simp: media_exposure_def)


lemma preserves_cue_upd_keep:
  "(\<And>w. \<exists>f. (\<forall>a. cue_fields (f a) = cue_fields a) \<and> g w = upd_agent i f w) \<Longrightarrow> preserves cue_rel (\<lambda>w. Inr (g w))"
  by (rule preservesI) (metis cue_rel_upd_keep sum.inject(2))


lemma update_immediacy_base_cue: "preserves cue_rel (update_immediacy_base cfg i)"
  by (rule preservesI) (auto simp: update_immediacy_base_def rbind_eq_Inr intro!: cue_rel_upd_keep)


lemma refresh_rain_cue: "preserves cue_rel (refresh_rain i)"
  by (rule preservesI) (auto simp: refresh_rain_def rbind_eq_Inr intro!: cue_rel_upd_keep)


lemma refresh_surge_cue: "preserves cue_rel (refresh_surge cfg i)"
  by (rule preservesI) (auto simp: refresh_surge_def rbind_eq_Inr cue_rel_order(1) [THEN reflpD]
      intro!: cue_rel_upd_keep split: if_splits)


lemma refresh_wind_cue: "preserves cue_rel (refresh_wind i)"
  by (rule preservesI) (auto simp: refresh_wind_def rbind_eq_Inr cue_rel_order(1) [THEN reflpD]
      intro!: cue_rel_upd_keep split: if_splits)


lemma calc_media_cue_cue: "preserves cue_rel (calc_media_cue cfg i)"
proof (rule preservesI)
  fix w w' assume r: "calc_media_cue cfg i w = Inr w'"
  let ?a = "agent_at w i"
  from r obtain s where s: "np_mul_sum (media_trust ?a) (media_exposure (steps w) (media_freq ?a)) = Inr s"
    and w': "w' = upd_agent i (\<lambda>a. if media_cue a + s / 5 < 1 then a\<lparr>media_cue := media_cue a + s / 5\<rparr>
                   else a\<lparr>media_cue := 1\<rparr>) w"
    by (auto simp: calc_media_cue_def Let_def rbind_eq_Inr)
  show "cue_rel w w'" unfolding w'
  proof (rule cue_rel_upd)
    assume ok: "cue_ok_agent ?a"
    then have "0 \<le> s" using np_mul_sum_nonneg [OF _ media_exposure_nonneg s] by (simp add: cue_ok_agent_def)
    then show "cue_ok_agent (if media_cue ?a + s / 5 < 1 then ?a\<lparr>media_cue := media_cue ?a + s / 5\<rparr>
                   else ?a\<lparr>media_cue := 1\<rparr>)
      \<and> media_cue ?a \<le> media_cue (if media_cue ?a + s / 5 < 1 then ?a\<lparr>media_cue := media_cue ?a + s / 5\<rparr>
                   else ?a\<lparr>media_cue := 1\<rparr>)"
      using ok by (simp add: cue_ok_agent_def)
  qed
qed


lemma step_preamble_cue: "preserves cue_rel (step_preamble cfg i)"
proof -
  note t = cue_rel_order(2)
  let ?F = "\<lambda>w. rbind (update_immediacy_base cfg i w) (\<lambda>w. rbind (refresh_rain i w) (\<lambda>w.
              rbind (calc_media_cue cfg i w) (\<lambda>w. rbind (refresh_surge cfg i w) (refresh_wind i))))"
  have F: "preserves cue_rel ?F"
    by (rule preserves_rbind [OF t update_immediacy_base_cue
          preserves_rbind [OF t refresh_rain_cue
            preserves_rbind [OF t calc_media_cue_cue
              preserves_rbind [OF t refresh_surge_cue refresh_wind_cue]]]])
  have "step_preamble cfg i =
      (\<lambda>w. ?F (upd_agent i (\<lambda>a. a\<lparr>risk_perception := min (cue_perception a + social_perception a) 1\<rparr>) w))"
    by (simp add: step_preamble_def fun_eq_iff)
  moreover have "cue_rel w (upd_agent i (\<lambda>a. a\<lparr>risk_perception := min (cue_perception a + social_perception a) 1\<rparr>) w)" for w
    by (rule cue_rel_upd) (simp add: cue_ok_agent_def)
  ultimately show ?thesis
    using preserves_after [OF t _ F] by simp
qed


lemma calc_risk_perception_cue: "cue_rel w (calc_risk_perception cfg i w)"
  unfolding calc_risk_perception_def by (rule cue_rel_upd_keep) simp


lemma general_communication_same: "general_communication cfg att i w = w"
  using fold_general_communication [of cfg i "[att]" w] by simp


lemma risk_identification_cue: "cue_rel w (risk_identification cfg i w)"
proof -
  let ?w1 = "calc_risk_perception cfg i w"
  have "cue_rel ?w1 (phase_change_communication cfg i 1 ?w1)"
    by (rule cue_rel_social [OF phase_change_communication_social_only])
  moreover have "cue_rel (phase_change_communication cfg i 1 ?w1)
      (upd_agent i (\<lambda>a. a\<lparr>phase := 1\<rparr>) (phase_change_communication cfg i 1 ?w1))"
    by (rule cue_rel_upd_keep) simp
  ultimately have "cue_rel w (upd_agent i (\<lambda>a. a\<lparr>phase := 1\<rparr>) (phase_change_communication cfg i 1 ?w1))"
    using calc_risk_perception_cue by (blast intro: cue_rel_trans)
  then show ?thesis using calc_risk_perception_cue by (simp add: risk_identification_def Let_def)
qed


lemma protective_action_search_cue:
  "protective_action_search cfg i w = Inr w' \<Longrightarrow> cue_rel w w'"
  by (auto simp: protective_action_search_def simp del: first_max.simps
      intro!: cue_rel_upd_keep split: list.splits)


lemma risk_assessment_cue: "risk_assessment cfg i w = Inr w' \<Longrightarrow> cue_rel w w'"
proof -
  assume r: "risk_assessment cfg i w = Inr w'"
  let ?w1 = "calc_risk_perception cfg i w"
  show ?thesis
  proof (cases "risk_perception (agent_at ?w1 i) > RA_thresh (agent_at ?w1 i)")
    case True
    with r obtain w2 where s: "protective_action_search cfg i (phase_change_communication cfg i 2 ?w1) = Inr w2"
      and w': "w' = upd_agent i (\<lambda>a. a\<lparr>phase := 2\<rparr>) w2"
      by (auto simp: risk_assessment_def Let_def rbind_eq_Inr)
    have "cue_rel ?w1 (phase_change_communication cfg i 2 ?w1)"
      by (rule cue_rel_social [OF phase_change_communication_social_only])
    moreover have "cue_rel w2 (upd_agent i (\<lambda>a. a\<lparr>phase := 2\<rparr>) w2)"
      by (rule cue_rel_upd_keep) simp
    ultimately show ?thesis unfolding w'
      using calc_risk_perception_cue protective_action_search_cue [OF s] by (blast intro: cue_rel_trans)
  next
    case False
    then have "w' = ?w1" using r by (simp add: risk_assessment_def Let_def general_communication_same)
    then show ?thesis by (simp add: calc_risk_perception_cue)
  qed
qed


lemma action_communication_same: "action_communication cfg i w = w"
  unfolding action_communication_def by (rule fold_general_communication)


lemma protective_action_assessment_cue:
  assumes res: "protective_action_assessment cfg i w = Inr w'"
  shows "cue_rel w w'"
proof -
  define imm where "imm = min 1 (immediacy_cum (agent_at w i) + immediacy_base (agent_at w i))"
  define w2 where "w2 = calc_risk_perception cfg i (upd_agent i (\<lambda>a. a\<lparr>immediacy := imm\<rparr>) w)"
  define w3 where "w3 = snd (random_draw cfg w2)"
  have c2: "cue_rel w w2" unfolding w2_def
    by (rule cue_rel_trans [OF cue_rel_upd_keep calc_risk_perception_cue]) simp
  have c3: "cue_rel w w3"
    using c2 cue_rel_pop [of w3 w2] by (simp add: w3_def random_draw_def cue_rel_trans)
  have unfold: "protective_action_assessment cfg i w =
     (if min 1 0 + imm > min_probability_threshold cfg then
        (if fst (random_draw cfg w2) < min 1 0 + imm then
           rbind (Protective_Action_Implementation_communication cfg i w3) (\<lambda>w.
             let w = upd_agent i (\<lambda>a. a\<lparr>phase := 3\<rparr>) w;
                 w = w\<lparr>evaced_agents := Suc (evaced_agents w)\<rparr>
             in case preferred_evac (agent_at w i) of
                  None \<Rightarrow> Inl AttributeError
                | Some act \<Rightarrow> Inr (remove_agent i (count_choice act w)))
         else Inr w3)
      else Inr w2)"
    by (simp add: protective_action_assessment_def imm_def w2_def w3_def Let_def action_communication_same
        split: prod.split)
  show ?thesis
  proof (cases "min 1 0 + imm > min_probability_threshold cfg \<and> fst (random_draw cfg w2) < min 1 0 + imm")
    case False
    then have "w' = w2 \<or> w' = w3" using res unfolding unfold by (auto split: if_splits)
    then show ?thesis using c2 c3 by blast
  next
    case True
    with res obtain w4 act where pai: "Protective_Action_Implementation_communication cfg i w3 = Inr w4"
      and w': "w' = remove_agent i (count_choice act ((upd_agent i (\<lambda>a. a\<lparr>phase := 3\<rparr>) w4)
                 \<lparr>evaced_agents := Suc (evaced_agents (upd_agent i (\<lambda>a. a\<lparr>phase := 3\<rparr>) w4))\<rparr>))"
      unfolding unfold by (auto simp: rbind_eq_Inr Let_def split: option.splits)
    have c4: "cue_rel w3 w4" by (rule cue_rel_social [OF Protective_Action_Implementation_communication_social_only [OF pai]])
    have c5: "cue_rel w4 (upd_agent i (\<lambda>a. a\<lparr>phase := 3\<rparr>) w4)" by (rule cue_rel_upd_keep) simp
    have "pop w' = pop (upd_agent i (\<lambda>a. a\<lparr>phase := 3\<rparr>) w4)"
      unfolding w' by (simp add: remove_agent_def)
    then have c6: "cue_rel (upd_agent i (\<lambda>a. a\<lparr>phase := 3\<rparr>) w4) w'" by (rule cue_rel_pop)
    show ?thesis using c3 c4 c5 c6 by (blast intro: cue_rel_trans)
  qed
qed


lemma phase_handler_cue: "preserves cue_rel (phase_handler cfg i)"
  by (rule preservesI)
    (auto simp: phase_handler_def risk_identification_cue cue_rel_order(1) [THEN reflpD]
      intro: risk_assessment_cue protective_action_assessment_cue split: nat.splits)


lemma individual_step_cue:
  assumes "individual_step cfg i w = Inr w'" shows "cue_rel w w'"
proof -
  from assms obtain w1 w2 where p: "step_preamble cfg i w = Inr w1"
    and h: "phase_handler cfg i w1 = Inr w2" and w': "w' = w2"
    by (auto simp: individual_step_def rbind_eq_Inr general_communication_same)
  show ?thesis
    using preservesD [OF step_preamble_cue p] preservesD [OF phase_handler_cue h] w'
    by (blast intro: cue_rel_trans)
qed


lemma cue_ok_rel: "cue_rel w w' \<Longrightarrow> cue_ok w \<Longrightarrow> cue_ok w'"
  by (simp add: cue_rel_def cue_ok_def)


lemma model_step_cue:
  assumes "model_step cfg w = Inr w'" shows "cue_rel w w'"
proof -
  let ?w0 = "w\<lparr>steps := steps w + 1, phase_0 := count_phase w 0, phase_1 := count_phase w 1,
     phase_2 := count_phase w 2\<rparr>"
  obtain w1 where r: "rfold (individual_step cfg) (fst (shuffle_agents cfg w)) (snd (shuffle_agents cfg ?w0)) = Inr w1"
    and w': "w' = (collect (announcements cfg (finish_run cfg w1)))\<lparr>evaced_agents := 0\<rparr>"
    using assms by (rule model_step_Inr)
  have c0: "cue_rel w (snd (shuffle_agents cfg ?w0))"
    by (rule cue_rel_pop) (simp add: shuffle_agents_def case_prod_unfold Let_def)
  have c1: "cue_rel (snd (shuffle_agents cfg ?w0)) w1"
    by (rule preserves_rfold [OF cue_rel_order _ r]) (simp add: preservesI individual_step_cue)
  have c2: "cue_rel w1 (finish_run cfg w1)" by (rule cue_rel_pop) (simp add: finish_run_def)
  have c3: "cue_rel (finish_run cfg w1) (announcements cfg (finish_run cfg w1))"
    by (rule cue_rel_social [OF announcements_social_only])
  have c4: "cue_rel (announcements cfg (finish_run cfg w1)) w'"
    unfolding w' by (rule cue_rel_pop) (simp add: collect_def)
  show ?thesis using c0 c1 c2 c3 c4 by (blast intro: cue_rel_trans)
qed


section \<open>Properties\<close>

text \<open>
  The base immediacy follows a saturating growth curve over the ticks before the
  horizon: for ticks \<open>0 \<le> n \<le> m\<close> with \<open>m + 1 \<le> number_of_steps\<close> it is
  computed without error, is non-negative, grows with the tick and stays at most
  \<open>ceiling\<close> (non-negative \<open>ceiling\<close> and \<open>grow_factor\<close>).
\<close>

theorem immediacy_base_at_curve:
  assumes c: "0 \<le> ceiling_param cfg" and g: "0 \<le> grow_factor cfg" and T: "0 < number_of_steps cfg"
    and n: "0 \<le> n" "n \<le> m" and m: "m + 1 \<le> number_of_steps cfg"
  shows "\<exists>b b'. immediacy_base_at cfg n = Inr b \<and> immediacy_base_at cfg m = Inr b'
    \<and> 0 \<le> b \<and> b \<le> b' \<and> b' \<le> ceiling_param cfg"
proof -
  let ?T = "real_of_int (number_of_steps cfg)"
  define f where "f = real_of_int (n + 1) / ?T"
  define f' where "f' = real_of_int (m + 1) / ?T"
  have ff: "0 \<le> f" "f \<le> f'" "f' \<le> 1"
    using curve_fraction [of m "number_of_steps cfg"] curve_fraction [of n "number_of_steps cfg"] n m T
    by (simp_all add: f_def f'_def divide_right_mono)
  note b = growth_curve_bounds [OF c g ff(1) order_trans [OF ff(2,3)]]
  note b' = growth_curve_bounds [OF c g order_trans [OF ff(1,2)] ff(3)]
  have e: "immediacy_base_at cfg n = py_div (ceiling_param cfg * f) (1 + grow_factor cfg * (1 - f))"
    "immediacy_base_at cfg m = py_div (ceiling_param cfg * f') (1 + grow_factor cfg * (1 - f'))"
    using T by (simp_all add: immediacy_base_at_eq f_def f'_def Let_def)
  show ?thesis
    using b b' growth_curve_mono [OF c g ff] unfolding e by simp
qed


text \<open>
  (C32) At the final tick the model's \<open>steps\<close> equals \<open>number_of_steps\<close>, so
  \<open>f = (steps + 1) / number_of_steps\<close> exceeds 1 and the base immediacy rises above
  \<open>ceiling\<close> (positive \<open>ceiling\<close>, \<open>grow_factor\<close> below the horizon), against
  the documented saturation below the ceiling.
\<close>

theorem immediacy_base_at_final_tick:
  assumes c: "0 < ceiling_param cfg" and g: "0 \<le> grow_factor cfg"
    and T: "0 < number_of_steps cfg" and gT: "grow_factor cfg < real_of_int (number_of_steps cfg)"
  shows "\<exists>b. immediacy_base_at cfg (number_of_steps cfg) = Inr b \<and> ceiling_param cfg < b"
proof -
  let ?T = "real_of_int (number_of_steps cfg)"
  define f where "f = real_of_int (number_of_steps cfg + 1) / ?T"
  have f1: "1 < f" using T by (simp add: f_def)
  have "grow_factor cfg * (1 - f) = - grow_factor cfg / ?T"
    using T by (simp add: f_def field_simps)
  moreover have "grow_factor cfg / ?T < 1" using gT T by simp
  ultimately have d: "0 < 1 + grow_factor cfg * (1 - f)" by simp
  have e: "immediacy_base_at cfg (number_of_steps cfg) = py_div (ceiling_param cfg * f) (1 + grow_factor cfg * (1 - f))"
    using T by (simp add: immediacy_base_at_eq f_def Let_def)
  show ?thesis
    using growth_curve_overshoot [OF c g f1 d] d unfolding e by simp
qed


text \<open>
  (C33) With \<open>number_of_steps = 0\<close> every agent step raises \<open>ZeroDivisionError\<close>
  from \<open>1 / self.model.number_of_steps\<close>, before any cue is read.
\<close>

theorem individual_step_zero_horizon:
  "number_of_steps cfg = 0 \<Longrightarrow> individual_step cfg i w = Inl ZeroDivisionError"
  by (simp add: individual_step_def step_preamble_def update_immediacy_base_def immediacy_base_at_def py_div_def)


text \<open>
  (C6) A tick keeps every agent's risk perception at most 1 and its media cue within
  \<open>[0, 1]\<close>, and never lowers a media cue, for non-negative media trust: the bounds the
  specification states for all agents at all ticks.
\<close>

theorem model_step_cue_bounds:
  assumes "cue_ok w" and "model_step cfg w = Inr w'"
  shows "cue_ok w' \<and> length (pop w') = length (pop w)
    \<and> (\<forall>k<length (pop w). media_cue (agent_at w k) \<le> media_cue (agent_at w' k))"
  using model_step_cue [OF assms(2)] assms(1) by (auto simp: cue_rel_def cue_ok_def)

end
