(* ===== verification/CueTiming.thy ===== *)
theory CueTiming
  imports Bounds
begin

text \<open>
  When an agent's decision sees its cues.  \<open>Individual.step\<close> sets
  \<open>risk_perception = min(cue_perception + social_perception, 1)\<close> first, from the cue
  perception of the previous tick, and only then refreshes the cues; the Unaware handler
  recomputes \<open>cue_perception\<close> but compares the risk perception already computed.  The
  frame \<open>lag_frame\<close> records that the cue refresh leaves the stepping agent's risk
  perception and identification threshold alone.
\<close>

section \<open>Definitions\<close>

definition lag_fields :: "agent \<Rightarrow> real \<times> real" where
  "lag_fields a = (risk_perception a, RI_thresh a)"


definition lag_frame :: "nat \<Rightarrow> world \<Rightarrow> world \<Rightarrow> bool" where
  "lag_frame i w w' \<longleftrightarrow> length (pop w') = length (pop w)
     \<and> (i < length (pop w) \<longrightarrow> lag_fields (agent_at w' i) = lag_fields (agent_at w i))"


section \<open>Lemmas\<close>

lemma lag_frame_order: "reflp (lag_frame i)" "transp (lag_frame i)"
  by (auto simp: lag_frame_def intro!: reflpI transpI)


lemma lag_frame_upd:
  "(\<And>a. lag_fields (f a) = lag_fields a) \<Longrightarrow> lag_frame i w (upd_agent j f w)"
  by (simp add: lag_frame_def agent_at_upd_agent)


lemma lag_fields_updates [simp]:
  "lag_fields (a\<lparr>cue_perception := x\<rparr>) = lag_fields a"
  "lag_fields (a\<lparr>immediacy_base := x\<rparr>) = lag_fields a"
  "lag_fields (a\<lparr>rain_cue := x\<rparr>) = lag_fields a"
  "lag_fields (a\<lparr>wind_cue := x\<rparr>) = lag_fields a"
  "lag_fields (a\<lparr>media_cue := x\<rparr>) = lag_fields a"
  "lag_fields (surge_reaction cfg o' n (a\<lparr>storm_surge_state := x\<rparr>)) = lag_fields a"
  by (simp_all add: lag_fields_def surge_reaction_def Let_def)


lemma preamble_lag: "preserves (lag_frame i) (\<lambda>w. rbind (update_immediacy_base cfg j w) (\<lambda>w. rbind (refresh_rain j w) (\<lambda>w.
              rbind (calc_media_cue cfg j w) (\<lambda>w. rbind (refresh_surge cfg j w) (refresh_wind j)))))"
proof -
  note t = lag_frame_order(2)
  note r = lag_frame_order(1) [THEN reflpD]
  have a: "preserves (lag_frame i) (update_immediacy_base cfg j)"
    by (rule preservesI) (auto simp: update_immediacy_base_def rbind_eq_Inr intro!: lag_frame_upd)
  have b: "preserves (lag_frame i) (refresh_rain j)"
    by (rule preservesI) (auto simp: refresh_rain_def rbind_eq_Inr intro!: lag_frame_upd)
  have c: "preserves (lag_frame i) (calc_media_cue cfg j)"
    by (rule preservesI) (auto simp: calc_media_cue_def Let_def rbind_eq_Inr intro!: lag_frame_upd)
  have d: "preserves (lag_frame i) (refresh_surge cfg j)"
    by (rule preservesI) (auto simp: refresh_surge_def rbind_eq_Inr r intro!: lag_frame_upd split: if_splits)
  have e: "preserves (lag_frame i) (refresh_wind j)"
    by (rule preservesI) (auto simp: refresh_wind_def rbind_eq_Inr r intro!: lag_frame_upd split: if_splits)
  show ?thesis by (rule preserves_rbind [OF t a preserves_rbind [OF t b preserves_rbind [OF t c preserves_rbind [OF t d e]]]])
qed


section \<open>Properties\<close>

text \<open>
  (C8) An Unaware agent whose risk perception from the previous tick's cues and social
  perception is below its identification threshold stays Unaware in this tick's step,
  whatever cues the step itself reads.  The specification's end-to-end scenario expects
  agents with a cue perception of 0.25 to become Aware at tick 1; in the code they
  become Aware at tick 2 at the earliest.
\<close>

theorem risk_identification_uses_previous_cue:
  assumes i: "i < length (pop w)" and ph: "phase (agent_at w i) = 0"
    and low: "min (cue_perception (agent_at w i) + social_perception (agent_at w i)) 1 < RI_thresh (agent_at w i)"
    and st: "individual_step cfg i w = Inr w'"
  shows "phase (agent_at w' i) = 0"
proof -
  let ?u = "\<lambda>a. a\<lparr>risk_perception := min (cue_perception a + social_perception a) 1\<rparr>"
  from st obtain w1 w2 where p: "step_preamble cfg i w = Inr w1"
    and h: "phase_handler cfg i w1 = Inr w2" and w': "w' = w2"
    by (auto simp: individual_step_def rbind_eq_Inr general_communication_same)
  have p': "rbind (update_immediacy_base cfg i (upd_agent i ?u w)) (\<lambda>w. rbind (refresh_rain i w) (\<lambda>w.
              rbind (calc_media_cue cfg i w) (\<lambda>w. rbind (refresh_surge cfg i w) (refresh_wind i)))) = Inr w1"
    using p by (simp add: step_preamble_def)
  have lf: "lag_frame i (upd_agent i ?u w) w1" by (rule preservesD [OF preamble_lag p'])
  have r1: "risk_perception (agent_at w1 i) = min (cue_perception (agent_at w i) + social_perception (agent_at w i)) 1"
    "RI_thresh (agent_at w1 i) = RI_thresh (agent_at w i)"
    using lf i by (simp_all add: lag_frame_def lag_fields_def agent_at_upd_agent)
  have fr: "preamble_frame w w1" using step_preamble_frame p by (rule preservesD)
  have ph1: "phase (agent_at w1 i) = 0" "i < length (pop w1)"
    using world_status_agent [OF frame_status(1) [OF fr] i] ph i by simp_all
  let ?w2 = "calc_risk_perception cfg i w1"
  have r2: "lag_fields (agent_at ?w2 i) = lag_fields (agent_at w1 i)" "phase (agent_at ?w2 i) = 0"
    using ph1 by (simp_all add: calc_risk_perception_def agent_at_upd_agent)
  have nc: "\<not> risk_perception (agent_at ?w2 i) \<ge> RI_thresh (agent_at ?w2 i)"
    using r1 r2 low unfolding lag_fields_def prod.inject by linarith
  have "w2 = risk_identification cfg i w1" using h ph1 by (simp add: phase_handler_def)
  then have "w2 = ?w2" unfolding risk_identification_def Let_def if_not_P [OF nc] .
  then show ?thesis using r2 w' by simp
qed

end
