(* ===== verification/DataCollection.thy ===== *)
theory DataCollection
  imports Scheduler
begin

text \<open>
  What the datacollector records: \<open>data_collection_attributes\<close> of
  \<open>src/run_config.py\<close> (the agent and model reporters of each outcome setting) and
  the two model reporters of \<open>src/helper_functions.py\<close> that are functions,
  \<open>retrieve_wind_cue\<close> and \<open>retrieve_rain_cue\<close>.  A model reporter is either the
  name of a model attribute or a function of the model; \<open>collect_model\<close> evaluates a
  reporter table on a world the way \<open>DataCollector.collect\<close> does, in order, stopping
  at the first exception.
\<close>

section \<open>Definitions\<close>

datatype reporter = Attr string | Fn string

text \<open>
  The settings are tested with \<open>if\<close>, then \<open>if\<close>/\<open>elif\<close>/\<open>elif\<close>: a setting
  matching none of them leaves both tables unbound at the \<open>return\<close>.
\<close>

definition data_collection_attributes ::
  "string \<Rightarrow> ((string \<times> string) list \<times> (string \<times> reporter) list) result" where
  "data_collection_attributes setting =
     (let first =
        (if setting = ''SingleRun'' then
           Some ([(''phase'', ''phase''), (''wind_cue'', ''wind_cue''), (''rain_cue'', ''rain_cue''),
                  (''media_cue'', ''media_cue''), (''risk_perception'', ''risk_perception''),
                  (''immediacy'', ''immediacy''), (''storm_surge_state'', ''storm_surge_state'')],
                 [(''wind_cue'', Fn ''retrieve_wind_cue''), (''rain_cue'', Fn ''retrieve_rain_cue''),
                  (''phase_0'', Attr ''phase_0''), (''phase_1'', Attr ''phase_1''),
                  (''phase_2'', Attr ''phase_2''), (''evac_agents'', Attr ''evaced_agents''),
                  (''average_evac_time'', Attr ''average_evac_time''),
                  (''hotel_choice'', Attr ''hotel_choice''), (''friends_choice'', Attr ''friends_choice''),
                  (''shelter_choice'', Attr ''shelter_choice''), (''stay_choice'', Attr ''stay_choice'')])
         else None);
         second =
        (if setting = ''verf'' then
           Some ([(''phase'', ''phase''), (''wind_cue'', ''wind_cue''), (''rain_cue'', ''rain_cue''),
                  (''media_cue'', ''media_cue''), (''risk_perception'', ''risk_perception''),
                  (''immediacy'', ''immediacy''), (''storm_surge_state'', ''storm_surge_state'')],
                 [(''phase_0'', Attr ''phase_0''), (''phase_1'', Attr ''phase_1''),
                  (''phase_2'', Attr ''phase_2''), (''evac_agents'', Attr ''evaced_agents''),
                  (''average_evac_time'', Attr ''average_evac_time''),
                  (''hotel_choice'', Attr ''hotel_choice''), (''friends_choice'', Attr ''friends_choice''),
                  (''shelter_choice'', Attr ''shelter_choice''), (''stay_choice'', Attr ''stay_choice'')])
         else if setting = ''convergence'' then
           Some ([(''rain_cue'', ''rain_cue'')],
                 [(''evac_agents'', Attr ''evaced_agents''),
                  (''average_evac_time'', Attr ''average_evac_time''),
                  (''hotel_choice'', Attr ''hotel_choice''), (''friends_choice'', Attr ''friends_choice''),
                  (''shelter_choice'', Attr ''shelter_choice''), (''stay_choice'', Attr ''stay_choice'')])
         else if setting = ''all_agent'' then
           Some ([(''cue_perception'', ''cue_perception''), (''risk_perception'', ''risk_perception''),
                  (''media_cue'', ''media_cue''), (''rain_cue'', ''rain_cue''), (''wind_cue'', ''wind_cue''),
                  (''storm_surge_state'', ''storm_surge_state''), (''evac_friends'', ''evac_friends''),
                  (''evac_hotel'', ''evac_hotel''), (''evac_shelter'', ''evac_shelter''), (''stay'', ''stay''),
                  (''phase'', ''phase''), (''immediacy'', ''immediacy_cum'')],
                 [(''evac_agents'', Attr ''evaced_agents''),
                  (''average_evac_time'', Attr ''average_evac_time''),
                  (''hotel_choice'', Attr ''hotel_choice''), (''friends_choice'', Attr ''friends_choice''),
                  (''shelter_choice'', Attr ''shelter_choice''), (''stay_choice'', Attr ''stay_choice'')])
         else first)
      in case second of None \<Rightarrow> Inl UnboundLocalError | Some tables \<Rightarrow> Inr tables)"

text \<open>\<open>sum(values) / len(values)\<close> over the live agents: a float division by an int.\<close>

definition live_mean :: "(agent \<Rightarrow> real) \<Rightarrow> world \<Rightarrow> real result" where
  "live_mean sel w =
     (let values = map (\<lambda>k. sel (agent_at w k)) (agents w)
      in py_div (sum_list values) (real (length values)))"

definition retrieve_wind_cue :: "world \<Rightarrow> real result" where
  "retrieve_wind_cue w = live_mean wind_cue w"

definition retrieve_rain_cue :: "world \<Rightarrow> real result" where
  "retrieve_rain_cue w = live_mean rain_cue w"

text \<open>A collected model value: a number, or Python's \<open>None\<close> (the statistic before any evacuation).\<close>

datatype cval = Num real | NoneVal

definition model_attr :: "world \<Rightarrow> string \<Rightarrow> cval result" where
  "model_attr w name =
     (if name = ''phase_0'' then Inr (Num (real (phase_0 w)))
      else if name = ''phase_1'' then Inr (Num (real (phase_1 w)))
      else if name = ''phase_2'' then Inr (Num (real (phase_2 w)))
      else if name = ''evaced_agents'' then Inr (Num (real (evaced_agents w)))
      else if name = ''average_evac_time'' then
        Inr (case average_evac_time w of None \<Rightarrow> NoneVal | Some v \<Rightarrow> Num v)
      else if name = ''hotel_choice'' then Inr (Num (real (hotel_choice w)))
      else if name = ''friends_choice'' then Inr (Num (real (friends_choice w)))
      else if name = ''shelter_choice'' then Inr (Num (real (shelter_choice w)))
      else if name = ''stay_choice'' then Inr (Num (real (stay_choice w)))
      else Inl AttributeError)"

definition model_reporter :: "world \<Rightarrow> reporter \<Rightarrow> cval result" where
  "model_reporter w r =
     (case r of
        Attr name \<Rightarrow> model_attr w name
      | Fn f \<Rightarrow>
          (if f = ''retrieve_wind_cue'' then rbind (retrieve_wind_cue w) (\<lambda>v. Inr (Num v))
           else if f = ''retrieve_rain_cue'' then rbind (retrieve_rain_cue w) (\<lambda>v. Inr (Num v))
           else Inl AttributeError))"

fun collect_model :: "world \<Rightarrow> (string \<times> reporter) list \<Rightarrow> (string \<times> cval) list result" where
  "collect_model w [] = Inr []"
| "collect_model w ((name, r) # rs) =
     rbind (model_reporter w r) (\<lambda>v. rbind (collect_model w rs) (\<lambda>vs. Inr ((name, v) # vs)))"

section \<open>Lemmas\<close>

lemma live_mean_eq:
  "live_mean sel w = (if agents w = [] then Inl ZeroDivisionError
     else Inr (sum_list (map (\<lambda>k. sel (agent_at w k)) (agents w)) / real (length (agents w))))"
  by (simp add: live_mean_def py_div_def Let_def)


section \<open>Properties\<close>

text \<open>
  (C29) \<open>data_collection_attributes\<close> raises \<open>UnboundLocalError\<close> exactly for the
  settings other than SingleRun, verf, convergence and all_agent; among them is
  \<open>"phase_1"\<close>, the default \<open>outcome_collection\<close> of \<open>EvacuationDec\<close>.
\<close>

theorem data_collection_attributes_unbound:
  "data_collection_attributes setting = Inl UnboundLocalError \<longleftrightarrow>
     setting \<notin> {''SingleRun'', ''verf'', ''convergence'', ''all_agent''}"
  by (auto simp: data_collection_attributes_def Let_def)


text \<open>
  Every setting that returns tables collects the \<open>evac_agents\<close> column from
  \<open>evaced_agents\<close> and the \<open>average_evac_time\<close> statistic: the column the end of
  run reads.
\<close>

theorem data_collection_attributes_evac_column:
  "data_collection_attributes setting = Inr (agent_rep, model_rep) \<Longrightarrow>
     map_of model_rep ''evac_agents'' = Some (Attr ''evaced_agents'')
     \<and> map_of model_rep ''average_evac_time'' = Some (Attr ''average_evac_time'')"
  by (auto simp: data_collection_attributes_def Let_def split: if_splits)


text \<open>
  (C7) Under the SingleRun setting, collecting the model reporters raises
  \<open>ZeroDivisionError\<close> exactly when the live set is empty (the mean wind cue divides
  by the number of live agents), so a run in which every agent has acted before the last
  tick crashes at the next collection; with live agents every reporter succeeds.
\<close>

theorem single_run_collect_crashes:
  assumes "data_collection_attributes ''SingleRun'' = Inr (agent_rep, model_rep)"
  shows "(collect_model w model_rep = Inl ZeroDivisionError \<longleftrightarrow> agents w = [])
    \<and> (agents w \<noteq> [] \<longrightarrow> (\<exists>vs. collect_model w model_rep = Inr vs))"
proof -
  have m: "model_rep = [(''wind_cue'', Fn ''retrieve_wind_cue''), (''rain_cue'', Fn ''retrieve_rain_cue''),
                  (''phase_0'', Attr ''phase_0''), (''phase_1'', Attr ''phase_1''),
                  (''phase_2'', Attr ''phase_2''), (''evac_agents'', Attr ''evaced_agents''),
                  (''average_evac_time'', Attr ''average_evac_time''),
                  (''hotel_choice'', Attr ''hotel_choice''), (''friends_choice'', Attr ''friends_choice''),
                  (''shelter_choice'', Attr ''shelter_choice''), (''stay_choice'', Attr ''stay_choice'')]"
    using assms by (simp add: data_collection_attributes_def)
  show ?thesis
    unfolding m
    by (auto simp: model_reporter_def model_attr_def retrieve_wind_cue_def retrieve_rain_cue_def
        live_mean_eq split: option.split)
qed

end
