(* ===== verification/Population.thy ===== *)
theory Population
  imports AgentState
begin

text \<open>
  Building the population: \<open>population_bootstrapper\<close> (resampling the three survey
  tables with replacement) and \<open>closest_neighbours\<close> (the spatial neighbours of an
  agent from the model's KD-tree), both of \<open>src/helper_functions.py\<close>.  The CSV files
  enter as tables (lists of rows); the library calls enter as injected functions:
  \<open>random.randint(1, 1000000)\<close> as the value \<open>randint\<close>, pandas'
  \<open>DataFrame.sample(n, replace=True, random_state=r)\<close> as \<open>n\<close> row
  draws, the \<open>i\<close>-th being \<open>sample_draw r R i\<close> for a table of \<open>R\<close> rows (reduced
  modulo \<open>R\<close>, as the sampler's \<open>randint(0, R)\<close> guarantees), and scipy's \<open>KDTree.query(x, k)\<close> as \<open>knn q k\<close>, the
  indices of the tree points nearest to point \<open>q\<close> (scipy pads with the index
  \<open>len(data)\<close> when fewer than \<open>k\<close> points exist).
\<close>

section \<open>Definitions\<close>

type_synonym 'a table = "'a list list"

record boot_env =
  randint :: int
  sample_draw :: "int \<Rightarrow> nat \<Rightarrow> nat \<Rightarrow> nat"

text \<open>\<open>df.drop(columns=df.columns[0])\<close>: the index column the CSV export added.\<close>

definition drop_first_column :: "'a table \<Rightarrow> 'a table" where
  "drop_first_column t = map (drop 1) t"

text \<open>\<open>df.sample(n=n, replace=True, random_state=r)\<close>: raises on an empty table.\<close>

definition df_sample :: "boot_env \<Rightarrow> int \<Rightarrow> nat \<Rightarrow> 'a table \<Rightarrow> 'a table result" where
  "df_sample env r n t =
     (if t = [] \<and> 0 < n then Inl ValueError
      else Inr (map (\<lambda>i. t ! (sample_draw env r (length t) i mod length t)) [0..<n]))"

text \<open>
  \<open>rand_int\<close> is assigned only when no seed is given; otherwise its first use raises.
\<close>

definition population_bootstrapper ::
  "boot_env \<Rightarrow> nat \<Rightarrow> int option \<Rightarrow> 'a table \<times> 'b table \<times> 'c table
   \<Rightarrow> ('a table \<times> 'b table \<times> 'c table) result" where
  "population_bootstrapper env init_individuals seed tables =
     (let rand_int = (if seed = None then Some (randint env) else None);
          (predictors_df, weights, media_weights) = tables;
          predictors_df = drop_first_column predictors_df;
          weights = drop_first_column weights;
          media_weights = drop_first_column media_weights
      in case rand_int of
           None \<Rightarrow> Inl UnboundLocalError
         | Some r \<Rightarrow>
             rbind (df_sample env r init_individuals predictors_df) (\<lambda>resampled_factors.
             rbind (df_sample env r init_individuals weights) (\<lambda>resampled_weights.
             rbind (df_sample env r init_individuals media_weights) (\<lambda>resampled_media_weights.
               Inr (resampled_factors, resampled_weights, resampled_media_weights)))))"

text \<open>\<open>[xs[i] for i in idx]\<close>: the first out-of-range index raises.\<close>

fun py_gather :: "'a list \<Rightarrow> nat list \<Rightarrow> 'a list result" where
  "py_gather xs [] = Inr []"
| "py_gather xs (i # ixs) = rbind (py_get xs (int i)) (\<lambda>x. rbind (py_gather xs ixs) (\<lambda>ys. Inr (x # ys)))"

text \<open>
  \<open>closest_neighbours(model, id, nn)\<close>: the keys of \<open>pos_dict\<close> are the agents in
  creation order, which is the store \<open>pop\<close>; the tree's point \<open>q\<close> is the location
  of \<open>pop ! q\<close>.  The result is a list of store indices (the agents themselves in the
  source), without the agent whose \<open>unique_id\<close> is \<open>id\<close>.
\<close>

definition closest_neighbours ::
  "(nat \<Rightarrow> nat \<Rightarrow> nat list) \<Rightarrow> agent list \<Rightarrow> nat \<Rightarrow> nat \<Rightarrow> nat list result" where
  "closest_neighbours knn store uid nn =
     rbind (py_get store (int uid - 1)) (\<lambda>a.
     rbind (py_get [0..<length store] (int (unique_id a) - 1)) (\<lambda>q.
     let idx = knn q (nn + 1)
     in rbind (py_gather [0..<length store] idx) (\<lambda>keys.
          Inr (filter (\<lambda>k. unique_id (store ! k) \<noteq> uid) keys))))"

section \<open>Lemmas\<close>

lemma df_sample_ok:
  "t \<noteq> [] \<Longrightarrow> df_sample env r n t = Inr (map (\<lambda>i. t ! (sample_draw env r (length t) i mod length t)) [0..<n])"
  by (simp add: df_sample_def)


lemma length_filter_distinct_remove:
  "distinct xs \<Longrightarrow> length (filter (\<lambda>k. k \<noteq> s) xs) + (if s \<in> set xs then 1 else 0) = length xs"
  by (induction xs) auto


lemma py_gather_range:
  "\<forall>i\<in>set ixs. i < n \<Longrightarrow> py_gather [0..<n] ixs = Inr ixs"
  by (induction ixs) auto


text \<open>Every bootstrapped row is a source row without its index column.\<close>

lemma population_bootstrapper_rows:
  "population_bootstrapper env n None (p, wt, md) = Inr (f, w, m) \<Longrightarrow> set m \<subseteq> drop 1 ` set md"
  by (auto simp: population_bootstrapper_def df_sample_def drop_first_column_def Let_def rbind_eq_Inr
      split: if_splits)


section \<open>Properties\<close>

text \<open>
  (C30) \<open>population_bootstrapper\<close> with an explicit seed raises
  \<open>UnboundLocalError\<close>: \<open>rand_int\<close> is assigned only when the seed is \<open>None\<close>, so
  the seeded, reproducible bootstrap the specification asks for never runs.
\<close>

theorem population_bootstrapper_seeded:
  "population_bootstrapper env n (Some s) tables = Inl UnboundLocalError"
  by (simp add: population_bootstrapper_def case_prod_unfold Let_def)


text \<open>
  (C31) Without a seed and with three source tables of equal, non-zero row count, the
  bootstrap is aligned: output row \<open>i\<close> of every table comes from the same source row,
  because the three samples share the random state and the row count.
\<close>

theorem population_bootstrapper_aligned:
  assumes "length predictors = length weights" "length weights = length media" "predictors \<noteq> []"
  shows "\<exists>idx. population_bootstrapper env n None (predictors, weights, media) =
      Inr (map (\<lambda>j. drop 1 (predictors ! j)) idx, map (\<lambda>j. drop 1 (weights ! j)) idx,
           map (\<lambda>j. drop 1 (media ! j)) idx)
    \<and> length idx = n
    \<and> (\<forall>j\<in>set idx. j < length predictors)"
proof -
  let ?R = "length predictors"
  let ?idx = "map (\<lambda>i. sample_draw env (randint env) ?R i mod ?R) [0..<n]"
  have ne: "weights \<noteq> []" "media \<noteq> []" using assms by auto
  show ?thesis
    using assms ne
    by (intro exI [of _ ?idx]) (simp add: population_bootstrapper_def df_sample_def drop_first_column_def Let_def)
qed


text \<open>
  (C35) Without a seed the bootstrap fails only on an empty source table (for a non-empty
  draw), with \<open>ValueError\<close>; source tables of different row counts are not rejected.
\<close>

theorem population_bootstrapper_errors:
  "population_bootstrapper env n None (predictors, weights, media) = Inl e \<longleftrightarrow>
     0 < n \<and> (predictors = [] \<or> weights = [] \<or> media = []) \<and> e = ValueError"
  by (auto simp: population_bootstrapper_def df_sample_def drop_first_column_def Let_def rbind_def
      split: sum.splits)


text \<open>
  (C34) For a KD-tree query returning distinct valid indices, \<open>closest_neighbours\<close>
  never lists the agent itself and returns one index fewer than the query exactly when
  the agent's own point is among the results: if co-located agents push it out, the
  agent gets \<open>nn + 1\<close> neighbours instead of \<open>nn\<close>.
\<close>

theorem closest_neighbours_count:
  assumes ids: "\<forall>k<length store. unique_id (store ! k) = k + 1"
    and i: "i < length store"
    and q: "set (knn i (nn + 1)) \<subseteq> {..<length store}" "distinct (knn i (nn + 1))"
  shows "\<exists>ns. closest_neighbours knn store (i + 1) nn = Inr ns \<and> i \<notin> set ns \<and> set ns \<subseteq> {..<length store}
     \<and> length ns = length (knn i (nn + 1)) - (if i \<in> set (knn i (nn + 1)) then 1 else 0)"
proof -
  have f: "filter (\<lambda>k. unique_id (store ! k) \<noteq> Suc i) (knn i (Suc nn)) = filter (\<lambda>k. k \<noteq> i) (knn i (Suc nn))"
    using q(1) ids by (intro filter_cong) auto
  have g: "py_gather [0..<length store] (knn i (Suc nn)) = Inr (knn i (Suc nn))"
    using q(1) by (intro py_gather_range) auto
  show ?thesis
    using ids i q(1) length_filter_distinct_remove [OF q(2), of i]
    by (auto simp: closest_neighbours_def f g split: if_splits)
qed

end
