(* ===== verification/Selection.thy ===== *)
theory Selection
  imports AgentPhase
begin

text \<open>
  The protective-action selector's arg-max.  \<open>first_max\<close> (in \<open>AgentPhase\<close>) scans
  the classifier's outputs once, replacing the best only on a strictly greater value; the
  reference \<open>argmax_ref\<close> states the specification's rule directly.  The proof goes
  through the scan as a left fold and \<open>rev_induct\<close>.
\<close>

section \<open>Definitions\<close>

definition argmax_ref :: "('k \<times> real) list \<Rightarrow> 'k" where
  "argmax_ref kvs = fst (hd (filter (\<lambda>p. \<forall>q\<in>set kvs. snd q \<le> snd p) kvs))"


section \<open>Lemmas\<close>

lemma first_max_foldl:
  "first_max k v kvs = fst (foldl (\<lambda>(k, v) (k', v'). if v' > v then (k', v') else (k, v)) (k, v) kvs)"
  by (induction kvs arbitrary: k v) auto


lemma exists_max: "xs \<noteq> [] \<Longrightarrow> \<exists>p\<in>set xs. \<forall>q\<in>set xs. snd q \<le> (snd p :: real)"
proof (induction xs)
  case Nil then show ?case by simp
next
  case (Cons x xs)
  show ?case
  proof (cases "xs = []")
    case True then show ?thesis by simp
  next
    case False
    then obtain p where p: "p \<in> set xs" "\<forall>q\<in>set xs. snd q \<le> snd p" using Cons.IH by blast
    show ?thesis
    proof (cases "snd x \<le> snd p")
      case True then show ?thesis using p by auto
    next
      case False then show ?thesis using p by (intro bexI [of _ x]) force+
    qed
  qed
qed


lemma scan_first_max:
  "foldl (\<lambda>(k, v) (k', v'). if v' > v then (k', v') else (k, v)) (p :: 'k \<times> real) xs
     = hd (filter (\<lambda>p'. \<forall>q\<in>set (p # xs). snd q \<le> snd p') (p # xs))"
proof (induction xs rule: rev_induct)
  case Nil
  then show ?case by auto
next
  case (snoc x xs)
  let ?step = "\<lambda>(k, v) (k', v'). if v' > v then (k', v') else (k, v)"
  let ?L = "p # xs"
  let ?m = "\<lambda>p'. \<forall>q\<in>set ?L. snd q \<le> snd p'"
  let ?m' = "\<lambda>p'. \<forall>q\<in>set (?L @ [x]). snd q \<le> snd p'"
  define b where "b = hd (filter ?m ?L)"
  have ne: "filter ?m ?L \<noteq> []" using exists_max [of ?L] by (auto simp: filter_empty_conv)
  have "b \<in> set (filter ?m ?L)" unfolding b_def using ne by (rule hd_in_set)
  then have b: "b \<in> set ?L" "?m b" unfolding set_filter by blast+
  have f: "foldl ?step p (xs @ [x]) = ?step b x" using snoc.IH b_def by simp
  show ?case
  proof (cases "snd x > snd b")
    case True
    have "filter ?m' (?L @ [x]) = [x]"
    proof -
      have e: "filter ?m' ?L = []" using True b(2) by (fastforce simp: filter_empty_conv)
      have mx: "?m' x" using True b(2) by auto
      show ?thesis unfolding filter_append e using mx by (simp only: filter.simps if_P [OF mx] append_Nil)
    qed
    then show ?thesis using f True by (cases b, cases x) simp
  next
    case False
    have "filter ?m' ?L = filter ?m ?L"
    proof (rule filter_cong)
      fix p' assume "p' \<in> set ?L"
      show "?m' p' = ?m p'" using False b by fastforce
    qed simp
    then have "hd (filter ?m' (?L @ [x])) = b" unfolding filter_append using ne b_def by simp
    then show ?thesis using f False by (cases b, cases x) simp
  qed
qed


section \<open>Properties\<close>



text \<open>
  (C11) When the protective-action selector succeeds, the classifier returned four
  probabilities and the agent's preferred action is the arg-max over them in the order
  friends, hotel, shelter, stay, ties going to the earlier action, as the specification
  states.
\<close>

theorem protective_action_search_argmax:
  assumes "protective_action_search cfg i w = Inr w'" and "i < length (pop w)"
  shows "length (predict_proba cfg (factor_values (agent_at w i))) = 4
    \<and> preferred_evac (agent_at w' i) =
        Some (argmax_ref (zip [Evac_friends, Evac_hotel, Evac_shelter, Stay]
                              (predict_proba cfg (factor_values (agent_at w i)))))"
  using assms
  by (auto simp: protective_action_search_def agent_at_upd_agent first_max_foldl scan_first_max argmax_ref_def
      simp del: first_max.simps split: list.splits)

end
