(* ===== verification/Progress.thy ===== *)
theory Progress
  imports Bounds
begin

text \<open>
  When an agent's step raises.  \<open>agent_ready\<close> collects the conditions under which
  every fallible operation of \<open>Individual.step\<close> succeeds (the divisions of the base
  immediacy, the indexing of the cue series, numpy's product of the media vectors, the
  classifier's output, the preferred action of a Deciding agent); \<open>data_frame\<close>
  records that no operation of the step changes the fields these conditions read, so
  the conditions checked at the start of the step hold at each operation.
\<close>

section \<open>Definitions\<close>

definition data_fields :: "agent \<Rightarrow> real list \<times> real list \<times> real list \<times> real list \<times> int list \<times> real list \<times> nat \<times> action option" where
  "data_fields a = (rain a, wind a, storm_surge a, media_trust a, media_freq a, factor_values a, phase a, preferred_evac a)"

definition data_frame :: "nat \<Rightarrow> world \<Rightarrow> world \<Rightarrow> bool" where
  "data_frame i w w' \<longleftrightarrow> length (pop w') = length (pop w) \<and> steps w' = steps w
     \<and> (i < length (pop w) \<longrightarrow> data_fields (agent_at w' i) = data_fields (agent_at w i))"

definition agent_ready :: "params \<Rightarrow> int \<Rightarrow> agent \<Rightarrow> bool" where
  "agent_ready cfg n a \<longleftrightarrow>
     0 < number_of_steps cfg \<and> 0 \<le> grow_factor cfg \<and> grow_factor cfg < real_of_int (number_of_steps cfg)
     \<and> 1 \<le> n \<and> n \<le> number_of_steps cfg
     \<and> nat (n - 1) < length (rain a)
     \<and> (n mod 3 = 0 \<longrightarrow> nat (n div 3 + 1) < length (storm_surge a) \<and> nat (n div 3 - 1) < length (wind a))
     \<and> length (media_trust a) = length (media_freq a)
     \<and> length (predict_proba cfg (factor_values a)) = 4
     \<and> (2 \<le> phase a \<longrightarrow> preferred_evac a \<noteq> None)"

section \<open>Lemmas\<close>

lemma ready_cong: "data_fields a' = data_fields a \<Longrightarrow> agent_ready cfg n a' = agent_ready cfg n a"
  unfolding data_fields_def agent_ready_def by (simp only: prod.inject)

lemma data_frame_order: "reflp (data_frame i)" "transp (data_frame i)"
  by (auto simp: data_frame_def intro!: reflpI transpI)

lemma data_frame_trans: "data_frame i w1 w2 \<Longrightarrow> data_frame i w2 w3 \<Longrightarrow> data_frame i w1 w3"
  using data_frame_order(2) by (rule transpD)

lemma data_frame_upd:
  "(\<And>a. data_fields (f a) = data_fields a) \<Longrightarrow> data_frame i w (upd_agent j f w)"
  by (simp add: data_frame_def agent_at_upd_agent)

lemma data_fields_updates [simp]:
  "data_fields (a\<lparr>risk_perception := x\<rparr>) = data_fields a"
  "data_fields (a\<lparr>immediacy_base := x\<rparr>) = data_fields a"
  "data_fields (a\<lparr>rain_cue := x\<rparr>) = data_fields a"
  "data_fields (a\<lparr>wind_cue := x\<rparr>) = data_fields a"
  "data_fields (a\<lparr>media_cue := x\<rparr>) = data_fields a"
  "data_fields (a\<lparr>cue_perception := x\<rparr>) = data_fields a"
  "data_fields (a\<lparr>immediacy := x\<rparr>) = data_fields a"
  "data_fields (surge_reaction cfg o' n (a\<lparr>storm_surge_state := x\<rparr>)) = data_fields a"
  by (simp_all add: data_fields_def surge_reaction_def Let_def)

lemma data_fields_strip: "strip_social a' = strip_social a \<Longrightarrow> data_fields a' = data_fields a"
  using strip_social_fields [of a' a] strip_social_def
  unfolding data_fields_def
  by (cases a, cases a') (simp add: strip_social_def)

lemma data_frame_social:
  assumes "social_only w w'" shows "data_frame i w w'"
  unfolding data_frame_def
proof (intro conjI impI)
  show "length (pop w') = length (pop w)" "steps w' = steps w" using social_only_agent [OF assms] by simp_all
  show "data_fields (agent_at w' i) = data_fields (agent_at w i)" if "i < length (pop w)"
    by (rule data_fields_strip [OF social_only_agent(2) [OF assms that]])
qed

lemma denominator_pos:
  fixes g T n :: real
  assumes "0 \<le> g" "g < T" "0 < T" "n \<le> T"
  shows "0 < 1 + g * (1 - (n + 1) / T)"
proof -
  have "1 - (n + 1) / T \<ge> - 1 / T" using assms by (simp add: field_simps)
  then have "g * (1 - (n + 1) / T) \<ge> g * (- 1 / T)" using assms(1) by (rule mult_left_mono)
  moreover have "g * (- 1 / T) > -1" using assms by (simp add: field_simps)
  ultimately show ?thesis by linarith
qed

lemma update_immediacy_base_ok:
  assumes "agent_ready cfg (steps w) a"
  shows "\<exists>w'. update_immediacy_base cfg i w = Inr w' \<and> data_frame i w w'"
proof -
  let ?T = "number_of_steps cfg"
  have T: "0 < ?T" and d: "0 < 1 + grow_factor cfg * (1 - (real_of_int (steps w) + 1) / real_of_int ?T)"
    using assms denominator_pos [of "grow_factor cfg" "real_of_int ?T" "real_of_int (steps w)"]
    by (simp_all add: agent_ready_def)
  have "\<exists>b. immediacy_base_at cfg (steps w) = Inr b"
    using d T by (simp add: immediacy_base_at_eq Let_def add.commute)
  then show ?thesis by (auto simp: update_immediacy_base_def intro!: data_frame_upd)
qed

lemma refresh_rain_ok:
  assumes "agent_ready cfg (steps w) (agent_at w i)"
  shows "\<exists>w'. refresh_rain i w = Inr w' \<and> data_frame i w w'"
proof -
  have "1 \<le> steps w" "nat (steps w - 1) < length (rain (agent_at w i))" using assms by (simp_all add: agent_ready_def)
  then have "\<exists>v. py_get (rain (agent_at w i)) (steps w - 1) = Inr v" by (simp add: py_get_def)
  then show ?thesis by (auto simp: refresh_rain_def intro!: data_frame_upd)
qed

lemma np_mul_sum_same_length: "length xs = length ys \<Longrightarrow> \<exists>s. np_mul_sum xs ys = Inr s"
  by (simp add: np_mul_sum_def)

lemma calc_media_cue_ok:
  assumes "agent_ready cfg (steps w) (agent_at w i)"
  shows "\<exists>w'. calc_media_cue cfg i w = Inr w' \<and> data_frame i w w'"
proof -
  have "length (media_trust (agent_at w i)) = length (media_exposure (steps w) (media_freq (agent_at w i)))"
    using assms by (simp add: agent_ready_def media_exposure_def)
  then obtain s where "np_mul_sum (media_trust (agent_at w i)) (media_exposure (steps w) (media_freq (agent_at w i))) = Inr s"
    using np_mul_sum_same_length by blast
  then show ?thesis by (auto simp: calc_media_cue_def Let_def intro!: data_frame_upd)
qed

lemma refresh_surge_ok:
  assumes "agent_ready cfg (steps w) (agent_at w i)"
  shows "\<exists>w'. refresh_surge cfg i w = Inr w' \<and> data_frame i w w'"
proof (cases "steps w mod 3 = 0")
  case True
  have "0 \<le> steps w" "nat (steps w div 3 + 1) < length (storm_surge (agent_at w i))"
    using assms True by (simp_all add: agent_ready_def)
  moreover have "0 \<le> steps w div 3" using \<open>0 \<le> steps w\<close> by simp
  ultimately have "steps w div 3 + 1 < int (length (storm_surge (agent_at w i)))" by linarith
  then have "\<exists>v. py_get (storm_surge (agent_at w i)) (py_int_div (steps w) 3 + 1) = Inr v"
    using \<open>0 \<le> steps w div 3\<close> \<open>0 \<le> steps w\<close> by (simp add: py_get_def)
  then show ?thesis using True by (auto simp: refresh_surge_def intro!: data_frame_upd)
next
  case False
  then show ?thesis by (simp add: refresh_surge_def data_frame_order(1) [THEN reflpD])
qed

lemma refresh_wind_ok:
  assumes "agent_ready cfg (steps w) (agent_at w i)"
  shows "\<exists>w'. refresh_wind i w = Inr w' \<and> data_frame i w w'"
proof (cases "steps w mod 3 = 0")
  case True
  have "1 \<le> steps w" "nat (steps w div 3 - 1) < length (wind (agent_at w i))"
    using assms True by (simp_all add: agent_ready_def)
  moreover have "3 \<le> steps w" using True \<open>1 \<le> steps w\<close> by presburger
  moreover have "1 \<le> steps w div 3" using \<open>3 \<le> steps w\<close> by simp
  ultimately have "steps w div 3 - 1 < int (length (wind (agent_at w i)))" by linarith
  then have "\<exists>v. py_get (wind (agent_at w i)) (py_int_div (steps w) 3 - 1) = Inr v"
    using \<open>1 \<le> steps w div 3\<close> \<open>3 \<le> steps w\<close> by (simp add: py_get_def)
  then show ?thesis using True by (auto simp: refresh_wind_def intro!: data_frame_upd)
next
  case False
  then show ?thesis by (simp add: refresh_wind_def data_frame_order(1) [THEN reflpD])
qed

lemma ready_frame:
  assumes "data_frame i w w'" and "i < length (pop w)" and "agent_ready cfg (steps w) (agent_at w i)"
  shows "agent_ready cfg (steps w') (agent_at w' i) \<and> i < length (pop w')"
  using assms ready_cong [of "agent_at w' i" "agent_at w i" cfg "steps w"] by (simp add: data_frame_def)

lemma step_preamble_ok:
  assumes i: "i < length (pop w)" and r: "agent_ready cfg (steps w) (agent_at w i)"
  shows "\<exists>w'. step_preamble cfg i w = Inr w' \<and> data_frame i w w'"
proof -
  let ?w0 = "upd_agent i (\<lambda>a. a\<lparr>risk_perception := min (cue_perception a + social_perception a) 1\<rparr>) w"
  have f0: "data_frame i w ?w0" by (rule data_frame_upd) simp
  note r0 = ready_frame [OF f0 i r]
  obtain w1 where s1: "update_immediacy_base cfg i ?w0 = Inr w1" and f1: "data_frame i ?w0 w1"
    using update_immediacy_base_ok [OF r0 [THEN conjunct1]] by blast
  note r1 = ready_frame [OF f1 r0 [THEN conjunct2] r0 [THEN conjunct1]]
  obtain w2 where s2: "refresh_rain i w1 = Inr w2" and f2: "data_frame i w1 w2"
    using refresh_rain_ok [OF r1 [THEN conjunct1]] by blast
  note r2 = ready_frame [OF f2 r1 [THEN conjunct2] r1 [THEN conjunct1]]
  obtain w3 where s3: "calc_media_cue cfg i w2 = Inr w3" and f3: "data_frame i w2 w3"
    using calc_media_cue_ok [OF r2 [THEN conjunct1]] by blast
  note r3 = ready_frame [OF f3 r2 [THEN conjunct2] r2 [THEN conjunct1]]
  obtain w4 where s4: "refresh_surge cfg i w3 = Inr w4" and f4: "data_frame i w3 w4"
    using refresh_surge_ok [OF r3 [THEN conjunct1]] by blast
  note r4 = ready_frame [OF f4 r3 [THEN conjunct2] r3 [THEN conjunct1]]
  obtain w5 where s5: "refresh_wind i w4 = Inr w5" and f5: "data_frame i w4 w5"
    using refresh_wind_ok [OF r4 [THEN conjunct1]] by blast
  have "step_preamble cfg i w = Inr w5" using s1 s2 s3 s4 s5 by (simp add: step_preamble_def)
  moreover have "data_frame i w w5" using f0 f1 f2 f3 f4 f5 by (blast intro: data_frame_trans)
  ultimately show ?thesis by blast
qed

lemma calc_risk_perception_data: "data_frame i w (calc_risk_perception cfg j w)"
  unfolding calc_risk_perception_def by (rule data_frame_upd) simp

lemma protective_action_search_ok:
  assumes "length (predict_proba cfg (factor_values (agent_at w i))) = 4"
  shows "\<exists>w'. protective_action_search cfg i w = Inr w'"
proof -
  obtain f h s st where "predict_proba cfg (factor_values (agent_at w i)) = [f, h, s, st]"
    using assms by (auto simp: length_Suc_conv numeral_eq_Suc)
  then show ?thesis by (simp add: protective_action_search_def)
qed

lemma risk_assessment_ok:
  assumes i: "i < length (pop w)" and r: "agent_ready cfg (steps w) (agent_at w i)"
  shows "\<exists>w'. risk_assessment cfg i w = Inr w'"
proof -
  let ?w1 = "phase_change_communication cfg i 2 (calc_risk_perception cfg i w)"
  have "data_frame i w ?w1"
    by (rule data_frame_trans [OF calc_risk_perception_data data_frame_social [OF phase_change_communication_social_only]])
  then have "length (predict_proba cfg (factor_values (agent_at ?w1 i))) = 4"
    using ready_frame [OF _ i r] by (simp add: agent_ready_def)
  then obtain w2 where "protective_action_search cfg i ?w1 = Inr w2" using protective_action_search_ok by blast
  then show ?thesis by (auto simp: risk_assessment_def Let_def)
qed

lemma protective_action_assessment_ok:
  assumes i: "i < length (pop w)" and r: "agent_ready cfg (steps w) (agent_at w i)"
    and ph: "phase (agent_at w i) = 2"
  shows "\<exists>w'. protective_action_assessment cfg i w = Inr w'"
proof -
  define imm where "imm = min 1 (immediacy_cum (agent_at w i) + immediacy_base (agent_at w i))"
  define w2 where "w2 = calc_risk_perception cfg i (upd_agent i (\<lambda>a. a\<lparr>immediacy := imm\<rparr>) w)"
  define w3 where "w3 = snd (random_draw cfg w2)"
  have a: "data_frame i w (upd_agent i (\<lambda>a. a\<lparr>immediacy := imm\<rparr>) w)" by (rule data_frame_upd) simp
  have b: "data_frame i (upd_agent i (\<lambda>a. a\<lparr>immediacy := imm\<rparr>) w) w2"
    unfolding w2_def by (rule calc_risk_perception_data)
  have c: "data_frame i w2 w3" unfolding w3_def random_draw_def by (simp add: data_frame_def agent_at_def)
  have f3: "data_frame i w w3" using a b c by (blast intro: data_frame_trans)
  obtain act where act: "preferred_evac (agent_at w i) = Some act"
    using r ph by (auto simp: agent_ready_def)
  have act3: "preferred_evac (agent_at w3 i) = Some act"
    using f3 i act by (simp add: data_frame_def data_fields_def)
  obtain w4 where pai: "Protective_Action_Implementation_communication cfg i w3 = Inr w4"
    using act3 by (cases "is_evacuation act") (auto simp: Protective_Action_Implementation_communication_def Let_def)
  have f4: "data_frame i w3 w4"
    by (rule data_frame_social [OF Protective_Action_Implementation_communication_social_only [OF pai]])
  have l4: "i < length (pop w4)" using f3 f4 i by (simp add: data_frame_def)
  have act4: "preferred_evac (agent_at (upd_agent i (\<lambda>a. a\<lparr>phase := 3\<rparr>) w4) i) = Some act"
    using f3 f4 i act l4 by (simp add: data_frame_def data_fields_def agent_at_upd_agent)
  have unfold: "protective_action_assessment cfg i w =
     (if min 1 0 + imm > min_probability_threshold cfg then
        (if fst (random_draw cfg w2) < min 1 0 + imm then
           rbind (Protective_Action_Implementation_communication cfg i w3) (\<lambda>w.
             let w = upd_agent i (\<lambda>a. a\<lparr>phase := 3\<rparr>) w;
                 w = w\<lparr>evaced_agents := Suc (evaced_agents w)\<rparr>
             in case preferred_evac (agent_at w i) of
                  None \<Rightarrow> Inl AttributeError
                | Some act \<Rightarrow> Inr (remove_agent i (count_choice act w)))
         else Inr w3)
      else Inr w2)"
    by (simp add: protective_action_assessment_def imm_def w2_def w3_def Let_def action_communication_same
        split: prod.split)
  show ?thesis using act4 unfolding unfold pai by (simp add: Let_def)
qed

lemma phase_handler_ok:
  assumes i: "i < length (pop w)" and r: "agent_ready cfg (steps w) (agent_at w i)"
  shows "\<exists>w'. phase_handler cfg i w = Inr w'"
  using risk_assessment_ok [OF i r] protective_action_assessment_ok [OF i r]
  by (auto simp: phase_handler_def split: nat.split)

section \<open>Properties\<close>

text \<open>
  (C36) At a surge-refresh tick \<open>n\<close> (\<open>n mod 3 = 0\<close>) the step reads
  \<open>storm_surge[n // 3 + 1]\<close>, so a surge series of at most \<open>n // 3 + 1\<close> entries
  raises \<open>IndexError\<close>.  The specification promises only \<open>length \<ge> T/3\<close>: for
  \<open>T = 88\<close> a series of 30 entries meets it and fails at tick 87.
\<close>

theorem refresh_surge_index_error:
  assumes "steps w mod 3 = 0" and "0 \<le> steps w"
    and "length (storm_surge (agent_at w i)) \<le> nat (steps w div 3 + 1)"
  shows "refresh_surge cfg i w = Inl IndexError"
proof -
  have "\<not> steps w div 3 + 1 < int (length (storm_surge (agent_at w i)))" using assms(2,3) by (simp add: le_nat_iff)
  then show ?thesis using assms(1,2) by (simp add: refresh_surge_def py_get_def)
qed

text \<open>
  (C13) An agent's step raises no exception when its data has the shapes the step reads:
  a positive horizon with \<open>0 \<le> grow_factor < number_of_steps\<close>, a tick
  \<open>1 \<le> n \<le> number_of_steps\<close>, a rain series longer than \<open>n - 1\<close>, surge and
  wind series long enough for the indices of a surge-refresh tick, media trust and
  frequency of the same length, a classifier returning four probabilities, and a
  preferred action once Deciding.
\<close>

theorem individual_step_no_exception:
  assumes "i < length (pop w)" and "agent_ready cfg (steps w) (agent_at w i)"
  shows "\<exists>w'. individual_step cfg i w = Inr w'"
proof -
  obtain w1 where p: "step_preamble cfg i w = Inr w1" and f: "data_frame i w w1"
    using step_preamble_ok [OF assms] by blast
  note r1 = ready_frame [OF f assms(1,2)]
  obtain w2 where "phase_handler cfg i w1 = Inr w2"
    using phase_handler_ok [OF r1 [THEN conjunct2] r1 [THEN conjunct1]] by blast
  then show ?thesis using p by (simp add: individual_step_def)
qed

end
