(* ===== verification/Construction.thy ===== *)
theory Construction
  imports Bounds
begin

text \<open>
  The agents \<open>Individual.__init__\<close> builds (\<open>init_individual\<close> in
  \<open>AgentState\<close>): the identifier and acquaintances it stores, what it reads from the
  media row, and that an agent built from non-negative answers starts within the cue
  bounds.  \<open>ModelInit\<close> uses these facts for the whole population.
\<close>

section \<open>Lemmas\<close>

lemma init_individual_Inr:
  "init_individual cfg n uid fv wv mv wnd rn ss acq = Inr a \<Longrightarrow>
     phase a = 0 \<and> preferred_evac a = None \<and> risk_perception a = 0 \<and> media_cue a = 0
     \<and> media_trust a = map (\<lambda>x. media_weight_trust cfg * of_int x) (py_prefix mv (-5))
     \<and> media_freq a = py_prefix mv 5"
  by (auto simp: init_individual_def rbind_eq_Inr)

lemma init_individual_links:
  "init_individual cfg n uid fv wv mv wnd rn ss acq = Inr a \<Longrightarrow>
     unique_id a = uid \<and> acquaintances a = acq"
  by (auto simp: init_individual_def rbind_eq_Inr)

text \<open>An agent built from non-negative media answers starts within the cue bounds.\<close>

lemma init_individual_cue_ok:
  assumes "init_individual cfg n uid fv wv mv wnd rn ss acq = Inr a"
    and "\<forall>x\<in>set mv. 0 \<le> x" and "0 \<le> media_weight_trust cfg"
  shows "cue_ok_agent a"
proof -
  have "\<forall>x\<in>set (py_prefix mv (-5)). 0 \<le> x" using assms(2) by (auto simp: py_prefix_def dest: in_set_takeD)
  then show ?thesis using init_individual_Inr [OF assms(1)] assms(3) by (auto simp: cue_ok_agent_def)
qed

section \<open>Properties\<close>

text \<open>
  (C37) For the ten-column media table of the survey, \<open>Individual.__init__\<close> reads
  trust from \<open>iloc[:, :-5]\<close> and frequency from \<open>iloc[:, :5]\<close>: the same five
  columns, so each agent's media trust is its frequency answers scaled by
  \<open>media_weight_trust\<close>.
\<close>

theorem init_individual_media_columns:
  assumes "init_individual cfg n uid fv wv mv wnd rn ss acq = Inr a" and "length mv = 10"
  shows "media_trust a = map (\<lambda>x. media_weight_trust cfg * of_int x) (media_freq a)"
  using init_individual_Inr [OF assms(1)] assms(2) by (simp add: py_prefix_def py_slice_bound_def)

end
