(* ===== verification/CueParsing.thy ===== *)
theory CueParsing
  imports Prelude
begin

text \<open>
  \<open>parse_np_float_string\<close> of \<open>src/helper_functions.py\<close>, which turns the
  stored cue series of \<open>init_data\<close> (the columns \<open>WindCat\<close>, \<open>RainCat\<close> and
  \<open>storm_Surge\<close>, written as the string of a list of numpy floats) back into lists of
  floats.  The string operations are modelled on \<open>string\<close> (a character is a code
  point below 256): \<open>startswith\<close>/\<open>endswith\<close> and the slice \<open>[1:-1]\<close>, the
  substitution \<open>re.sub(r'np\.float64\(([^)]+)\)', r'\1', val)\<close> as a left-to-right
  scanner, \<open>strip('[]')\<close>, \<open>split(',')\<close> and \<open>strip()\<close>.  The builtin
  \<open>float\<close> is an injected parser \<open>py_float\<close> that may raise \<open>ValueError\<close>.
  The theory proves the round trip: the string numpy prints for a list of floats parses
  back to that list, with or without the wrapping quotes, whenever \<open>float\<close> reads back
  each element's printed form.
\<close>

section \<open>String operations\<close>

text \<open>\<open>str.isspace\<close> for the code points below 256.\<close>

definition py_isspace :: "char \<Rightarrow> bool" where
  "py_isspace c =
     (let n = (of_char c :: nat) in (9 \<le> n \<and> n \<le> 13) \<or> (28 \<le> n \<and> n \<le> 32) \<or> n = 133 \<or> n = 160)"

text \<open>\<open>s.strip(chars)\<close>: drop the leading and the trailing characters of a class.\<close>

definition py_strip_chars :: "(char \<Rightarrow> bool) \<Rightarrow> string \<Rightarrow> string" where
  "py_strip_chars P s = rev (dropWhile P (rev (dropWhile P s)))"

abbreviation py_strip :: "string \<Rightarrow> string" where
  "py_strip \<equiv> py_strip_chars py_isspace"

text \<open>\<open>s.split(c)\<close> with a one-character separator: never an empty list.\<close>

fun py_split :: "char \<Rightarrow> string \<Rightarrow> string list" where
  "py_split c [] = [[]]"
| "py_split c (x # xs) = (if x = c then [] # py_split c xs else (let r = py_split c xs in (x # hd r) # tl r))"

text \<open>
  One match of \<open>np\.float64\(([^)]+)\)\<close> at the start of a string: the group (a
  non-empty run without \<open>)\<close>) and the rest after the closing parenthesis.  The run is
  greedy and must be followed by \<open>)\<close>, so no backtracking can find another match.
\<close>

definition match_float64 :: "string \<Rightarrow> (string \<times> string) option" where
  "match_float64 s =
     (if take 11 s = ''np.float64(''
      then (let r = drop 11 s;
                g = takeWhile (\<lambda>c. c \<noteq> CHR '')'') r;
                t = dropWhile (\<lambda>c. c \<noteq> CHR '')'') r
            in if g \<noteq> [] \<and> t \<noteq> [] then Some (g, tl t) else None)
      else None)"

text \<open>\<open>re.sub\<close> with the replacement \<open>\1\<close>: scan left to right, replace each match by
  its group and continue after it, copy a character where no match starts.\<close>

function sub_float64 :: "string \<Rightarrow> string" where
  "sub_float64 s =
     (case s of
        [] \<Rightarrow> []
      | c # cs \<Rightarrow>
          (case match_float64 s of
             Some (g, rest) \<Rightarrow> g @ sub_float64 rest
           | None \<Rightarrow> c # sub_float64 cs))"
  by pat_completeness auto

lemma match_float64_shorter: "match_float64 s = Some (g, rest) \<Longrightarrow> length rest < length s"
proof -
  assume m: "match_float64 s = Some (g, rest)"
  let ?P = "\<lambda>c. c \<noteq> CHR '')''"
  have "rest = tl (dropWhile ?P (drop 11 s))" and "take 11 s = ''np.float64(''"
    using m by (auto simp: match_float64_def Let_def split: if_splits)
  moreover have "length (dropWhile ?P (drop 11 s)) \<le> length s - 11" by (rule order_trans [OF length_dropWhile_le]) simp
  moreover have "length (take 11 s) = 11" using \<open>take 11 s = ''np.float64(''\<close> by simp
  then have "11 \<le> length s" by simp
  ultimately show ?thesis by simp
qed

termination sub_float64
  by (relation "measure length") (auto dest: match_float64_shorter)

declare sub_float64.simps [simp del]

section \<open>The parser\<close>

text \<open>
  \<open>parse_np_float_string(val)\<close>: drop one pair of wrapping single quotes, replace every
  \<open>np.float64(x)\<close> by \<open>x\<close>, strip the brackets, split at the commas and convert
  every non-blank piece with \<open>float\<close>, left to right.
\<close>

definition strip_quotes :: "string \<Rightarrow> string" where
  "strip_quotes val =
     (if val \<noteq> [] \<and> hd val = CHR 0x27 \<and> last val = CHR 0x27 then py_suffix (py_prefix val (-1)) 1 else val)"

definition parse_np_float_string :: "(string \<Rightarrow> real result) \<Rightarrow> string \<Rightarrow> real list result" where
  "parse_np_float_string py_float val =
     (let val = strip_quotes val;
          cleaned = sub_float64 val
      in py_map (\<lambda>x. py_float (py_strip x))
           (filter (\<lambda>x. py_strip x \<noteq> [])
              (py_split (CHR '','') (py_strip_chars (\<lambda>c. c = CHR ''['' \<or> c = CHR '']'') cleaned))))"

text \<open>
  What \<open>str\<close> of a list of \<open>np.float64\<close> values prints (numpy 2): every element as
  \<open>np.float64(r)\<close> with \<open>r\<close> its \<open>repr\<close>, separated by \<open>, \<close>, in brackets.
\<close>

fun py_join :: "string \<Rightarrow> string list \<Rightarrow> string" where
  "py_join sep [] = []"
| "py_join sep [x] = x"
| "py_join sep (x # y # ys) = x @ sep @ py_join sep (y # ys)"

definition np_float_list_str :: "(real \<Rightarrow> string) \<Rightarrow> real list \<Rightarrow> string" where
  "np_float_list_str rep xs =
     ''['' @ py_join '', '' (map (\<lambda>x. ''np.float64('' @ rep x @ '')'') xs) @ '']''"

text \<open>
  A printed float that \<open>float\<close> reads back: non-empty, without the characters the parser
  splits at, without surrounding blanks or brackets.  Python's \<open>repr\<close> of a finite
  float (\<open>1.25\<close>, \<open>-3e-05\<close>) has this form and \<open>float(repr(x)) == x\<close>.
\<close>

definition float_repr_ok :: "(string \<Rightarrow> real result) \<Rightarrow> string \<Rightarrow> real \<Rightarrow> bool" where
  "float_repr_ok py_float r x =
     (r \<noteq> [] \<and> CHR '')'' \<notin> set r \<and> CHR '','' \<notin> set r
      \<and> \<not> py_isspace (hd r) \<and> \<not> py_isspace (last r)
      \<and> hd r \<notin> {CHR ''['', CHR '']''} \<and> last r \<notin> {CHR ''['', CHR '']''}
      \<and> py_float r = Inr x)"

section \<open>Lemmas\<close>


lemma sub_float64_Nil [simp]: "sub_float64 [] = []"
  by (simp add: sub_float64.simps)

lemma sub_float64_copy:
  "c \<noteq> CHR ''n'' \<Longrightarrow> sub_float64 (c # s) = c # sub_float64 s"
  by (simp add: sub_float64.simps [of "c # s"] match_float64_def)

lemma sub_float64_match:
  assumes "r \<noteq> []" "CHR '')'' \<notin> set r"
  shows "sub_float64 (''np.float64('' @ r @ CHR '')'' # rest) = r @ sub_float64 rest"
proof -
  have tw: "takeWhile (\<lambda>c. c \<noteq> CHR '')'') (r @ CHR '')'' # rest) = r"
    using assms(2) by (induction r) auto
  have dw: "dropWhile (\<lambda>c. c \<noteq> CHR '')'') (r @ CHR '')'' # rest) = CHR '')'' # rest"
    using assms(2) by (induction r) auto
  have "match_float64 (''np.float64('' @ r @ CHR '')'' # rest) = Some (r, rest)"
    unfolding match_float64_def using tw dw assms(1) by (simp add: Let_def)
  then show ?thesis by (subst sub_float64.simps) simp
qed

lemmas sub_float64_match_cons = sub_float64_match [simplified]

lemma sub_float64_body:
  assumes "\<forall>x\<in>set xs. rep x \<noteq> [] \<and> CHR '')'' \<notin> set (rep x)"
  shows "sub_float64 (py_join '', '' (map (\<lambda>x. ''np.float64('' @ rep x @ '')'') xs) @ '']'')
       = py_join '', '' (map rep xs) @ '']''"
  using assms
proof (induction xs rule: induct_list012)
  case 1
  then show ?case by (simp add: sub_float64_copy)
next
  case (2 x)
  then show ?case by (simp add: sub_float64_copy sub_float64_match_cons)
next
  case (3 x y zs)
  then show ?case by (simp add: sub_float64_copy sub_float64_match_cons)
qed

lemma py_strip_chars_Cons: "P c \<Longrightarrow> py_strip_chars P (c # s) = py_strip_chars P s"
  by (simp add: py_strip_chars_def)

lemma py_strip_chars_keep:
  "s \<noteq> [] \<Longrightarrow> \<not> P (hd s) \<Longrightarrow> \<not> P (last s) \<Longrightarrow> py_strip_chars P s = s"
proof -
  assume s: "s \<noteq> []" "\<not> P (hd s)" "\<not> P (last s)"
  have "dropWhile P s = s" using s(1,2) by (cases s) auto
  moreover have "dropWhile P (rev s) = rev s" using s(1,3) by (cases "rev s") (auto simp: last_rev hd_rev)
  ultimately show ?thesis by (simp add: py_strip_chars_def)
qed

lemma py_strip_chars_brackets:
  assumes "P a" "P b" "body = [] \<or> (\<not> P (hd body) \<and> \<not> P (last body))"
  shows "py_strip_chars P (a # body @ [b]) = body"
proof (cases "body = []")
  case True
  then show ?thesis using assms(1,2) by (simp add: py_strip_chars_def)
next
  case False
  then have h: "\<not> P (hd body)" "\<not> P (last body)" using assms(3) by auto
  have "dropWhile P (body @ [b]) = body @ [b]" using False h(1) by (cases body) auto
  moreover have r: "dropWhile P (rev body) = rev body" using False h(2) by (cases "rev body") (auto simp: hd_rev)
  moreover have "dropWhile P (b # rev body) = rev body" using assms(2) r by simp
  ultimately show ?thesis using assms(1) by (simp add: py_strip_chars_def)
qed

lemma py_split_append:
  "c \<notin> set a \<Longrightarrow> py_split c (a @ c # b) = a # py_split c b"
  by (induction a) auto

lemma py_split_none: "c \<notin> set a \<Longrightarrow> py_split c a = [a]"
  by (induction a) auto

lemma py_split_join:
  assumes "\<forall>r\<in>set rs. CHR '','' \<notin> set r" "rs \<noteq> []"
  shows "py_split (CHR '','') (py_join '', '' rs) = hd rs # map (\<lambda>r. CHR '' '' # r) (tl rs)"
  using assms
proof (induction rs rule: induct_list012)
  case (2 x)
  then show ?case by (simp add: py_split_none)
next
  case (3 x y zs)
  then show ?case by (simp add: py_split_append)
qed simp

lemma py_map_map_Inr:
  "(\<And>x. x \<in> set ys \<Longrightarrow> f (h x) = Inr x) \<Longrightarrow> py_map f (map h ys) = Inr ys"
  by (induction ys) auto


lemma py_join_hd_last:
  assumes "rs \<noteq> []" "\<forall>r\<in>set rs. r \<noteq> []"
  shows "py_join sep rs \<noteq> [] \<and> hd (py_join sep rs) = hd (hd rs) \<and> last (py_join sep rs) = last (last rs)"
  using assms by (induction sep rs rule: py_join.induct) auto

lemma strip_quotes_wrapped: "strip_quotes (CHR 0x27 # s @ [CHR 0x27]) = s"
proof -
  have "nat (1 + int (length s)) = Suc (length s)" by simp
  then show ?thesis by (simp add: strip_quotes_def py_suffix_def py_prefix_def py_slice_bound_def)
qed

lemma float_repr_ok_strip:
  "float_repr_ok fl r x \<Longrightarrow> py_strip r = r \<and> py_strip (CHR '' '' # r) = r"
  unfolding float_repr_ok_def
  by (simp add: py_strip_chars_keep py_strip_chars_Cons py_isspace_def)

text \<open>The parse of the printed list, once the quotes are gone.\<close>

lemma parse_unquoted:
  assumes ok: "\<forall>x\<in>set xs. float_repr_ok fl (rep x) x"
  shows "py_map (\<lambda>x. fl (py_strip x))
           (filter (\<lambda>x. py_strip x \<noteq> [])
              (py_split (CHR '','') (py_strip_chars (\<lambda>c. c = CHR ''['' \<or> c = CHR '']'')
                 (sub_float64 (np_float_list_str rep xs))))) = Inr xs"
proof (cases xs)
  case Nil
  then show ?thesis
    by (simp add: np_float_list_str_def sub_float64_copy py_strip_chars_def)
next
  case (Cons x1 xs')
  let ?B = "\<lambda>c. c = CHR ''['' \<or> c = CHR '']''"
  let ?J = "py_join '', '' (map rep xs)"
  have ne: "\<forall>x\<in>set xs. rep x \<noteq> [] \<and> CHR '')'' \<notin> set (rep x)" using ok by (simp add: float_repr_ok_def)
  have sub: "sub_float64 (np_float_list_str rep xs) = CHR ''['' # ?J @ '']''"
    using sub_float64_body [OF ne] by (simp add: np_float_list_str_def sub_float64_copy)
  have hl: "?J \<noteq> [] \<and> hd ?J = hd (rep x1) \<and> last ?J = last (rep (last xs))"
    using py_join_hd_last [of "map rep xs" "'', ''"] ne Cons by (simp add: last_map)
  have "\<not> ?B (hd (rep x1)) \<and> \<not> ?B (last (rep (last xs)))"
    using ok Cons by (simp add: float_repr_ok_def)
  then have strip: "py_strip_chars ?B (CHR ''['' # ?J @ '']'') = ?J"
    using py_strip_chars_brackets [of ?B "CHR ''[''" "CHR '']''" ?J] hl by simp
  have nocomma: "\<forall>r\<in>set (map rep xs). CHR '','' \<notin> set r" using ok by (auto simp: float_repr_ok_def)
  have split: "py_split (CHR '','') ?J = rep x1 # map (\<lambda>x. CHR '' '' # rep x) xs'"
    using py_split_join [OF nocomma] Cons by simp
  have st: "\<And>x. x \<in> set xs \<Longrightarrow> py_strip (rep x) = rep x \<and> py_strip (CHR '' '' # rep x) = rep x \<and> fl (rep x) = Inr x"
    using ok float_repr_ok_strip by (auto simp: float_repr_ok_def)
  have filt: "filter (\<lambda>x. py_strip x \<noteq> []) (rep x1 # map (\<lambda>x. CHR '' '' # rep x) xs')
            = rep x1 # map (\<lambda>x. CHR '' '' # rep x) xs'"
    using st ne Cons by (auto intro: filter_True)
  have "py_map (\<lambda>x. fl (py_strip x)) (map (\<lambda>x. CHR '' '' # rep x) xs') = Inr xs'"
    by (rule py_map_map_Inr) (use st Cons in auto)
  then show ?thesis using sub strip split filt st Cons by simp
qed

section \<open>Properties\<close>

text \<open>
  (C15) Round trip: the string numpy prints for a list of floats (\<open>[np.float64(r), ...]\<close>,
  with or without the wrapping single quotes of the CSV export) parses back to exactly
  that list, whenever \<open>float\<close> reads back every element's printed form \<open>r\<close>.
  In particular the empty list \<open>[]\<close> parses to the empty series.
\<close>

theorem parse_np_float_string_roundtrip:
  assumes "\<forall>x\<in>set xs. float_repr_ok py_float (rep x) x"
  shows "parse_np_float_string py_float (np_float_list_str rep xs) = Inr xs
       \<and> parse_np_float_string py_float (CHR 0x27 # np_float_list_str rep xs @ [CHR 0x27]) = Inr xs"
proof -
  have "strip_quotes (np_float_list_str rep xs) = np_float_list_str rep xs"
    by (simp add: strip_quotes_def np_float_list_str_def)
  then show ?thesis using parse_unquoted [OF assms]
    by (simp add: parse_np_float_string_def strip_quotes_wrapped Let_def)
qed

end
