(* ===== verification/ModelInit.thy ===== *)
theory ModelInit
  imports Construction CueParsing Population Timeline DataCollection
begin

text \<open>
  The population construction of \<open>EvacuationDec.__init__\<close> (\<open>src/Model.py\<close>, from
  \<open>agent_init_data\<close> to the data collector) and the constructor as a whole, which ends
  by running the model.  The components meet here: the cue columns of \<open>init_data\<close>
  are parsed by \<open>parse_np_float_string\<close> (\<open>CueParsing\<close>), the survey tables are
  resampled by \<open>population_bootstrapper\<close> (\<open>Population\<close>), every node of the
  small-world graph gets an \<open>Individual\<close> (\<open>init_individual\<close>) whose surge series
  is moved by \<open>shift_watch_warning\<close> (\<open>Timeline\<close>), the spatial neighbours come from
  \<open>closest_neighbours\<close>, the collection setting from \<open>data_collection_attributes\<close>
  (\<open>DataCollection\<close>), and the run from \<open>run_model\<close> (\<open>Scheduler\<close>).

  The inputs the constructor reads from files and libraries are the record
  \<open>init_env\<close>: the graph as the neighbour lists \<open>list(G.neighbors(i))\<close>, the rows of
  \<open>init_data\<close> (the three cue strings and \<open>PopDense\<close>), the survey tables, the
  bootstrap's random functions, the \<open>i\<close>-th draw of \<open>np.random.choice\<close>, the builtin
  \<open>float\<close> and the KD-tree query.  mesa numbers agents from 1 in creation order, so the
  agent of node \<open>i\<close> has \<open>unique_id = i + 1\<close> and is \<open>pop ! i\<close>.  mesa's
  \<open>NetworkGrid.get_neighbors(i)\<close> lists the agents already placed on the neighbouring
  nodes; \<open>Individual.__init__\<close> calls it before \<open>place_agent\<close> of its own node and
  while the later nodes are still empty.
\<close>

section \<open>Definitions\<close>

record init_env =
  graph_adj :: "nat list list"
  init_rows :: "(string \<times> string \<times> string \<times> real) list"
  survey :: "real table \<times> real table \<times> int table"
  boot :: boot_env
  area_draw :: "nat \<Rightarrow> nat"
  float_parser :: "string \<Rightarrow> real result"
  kd_query :: "nat \<Rightarrow> nat \<Rightarrow> nat list"
  n_neighbors :: nat
  watch_shift :: int
  communication_timing :: int
  outcome_collection :: string

text \<open>
  \<open>np.random.choice(a, p=p)\<close>: raises \<open>ValueError\<close> for an empty range or a
  probability vector of the wrong length, with a negative entry or not summing to 1;
  otherwise the injected draw, in range.
\<close>

definition np_random_choice :: "nat \<Rightarrow> real list \<Rightarrow> nat \<Rightarrow> nat result" where
  "np_random_choice a p draw =
     (if a = 0 \<or> length p \<noteq> a \<or> list_ex (\<lambda>x. x < 0) p \<or> sum_list p \<noteq> 1 then Inl ValueError
      else Inr (draw mod a))"

text \<open>\<open>series[k]\<close> on a series with the default index \<open>0..n-1\<close>: a missing label raises.\<close>

definition series_get :: "'a list \<Rightarrow> nat \<Rightarrow> 'a result" where
  "series_get xs k = (if k < length xs then Inr (xs ! k) else Inl KeyError)"

text \<open>
  The acquaintances \<open>Individual.__init__\<close> of node \<open>i\<close> finds: the agents placed so
  far on the neighbouring nodes, which are the nodes below \<open>i\<close>.
\<close>

definition placed_neighbours :: "nat list list \<Rightarrow> nat \<Rightarrow> nat list" where
  "placed_neighbours adj node_id = filter (\<lambda>j. j < node_id) (adj ! node_id)"

text \<open>One pass of the node loop: the area draw, the attribute dictionary in the source's
  order, and the agent.\<close>

definition node_agent ::
  "params \<Rightarrow> init_env \<Rightarrow> real table \<times> real table \<times> int table
   \<Rightarrow> real list list \<times> real list list \<times> real list list \<Rightarrow> nat \<Rightarrow> agent result" where
  "node_agent cfg env boot_tables cues node_id =
     (let (factor_data, weight_data, media_weight) = boot_tables;
          (wind_list, rain_list, surge_list) = cues
      in rbind (np_random_choice (length (init_rows env)) (map (\<lambda>r. snd (snd (snd r))) (init_rows env))
                 (area_draw env node_id)) (\<lambda>population_idx.
         rbind (py_get factor_data (int node_id)) (\<lambda>fv.
         rbind (py_get weight_data (int node_id)) (\<lambda>wv.
         rbind (py_get media_weight (int node_id)) (\<lambda>mv.
         rbind (series_get wind_list population_idx) (\<lambda>wnd.
         rbind (series_get rain_list population_idx) (\<lambda>rn.
         rbind (series_get surge_list population_idx) (\<lambda>ss.
           init_individual cfg 0 (node_id + 1) fv wv mv wnd rn
             (shift_watch_warning ss (py_int_div (communication_timing env) 3) (py_int_div (watch_shift env) 3) 0)
             (placed_neighbours (graph_adj env) node_id)))))))))"

text \<open>
  \<open>EvacuationDec.__init__\<close> up to the data collector: parse the three cue columns,
  bootstrap one survey row per node, build the agents node by node, give every agent its
  spatial neighbours, and build the collector's reporter tables.
\<close>

definition model_init :: "params \<Rightarrow> init_env \<Rightarrow> world result" where
  "model_init cfg env =
     (let n = length (graph_adj env);
          parse = parse_np_float_string (float_parser env)
      in rbind (py_map (\<lambda>r. parse (fst r)) (init_rows env)) (\<lambda>wind_list.
         rbind (py_map (\<lambda>r. parse (fst (snd r))) (init_rows env)) (\<lambda>rain_list.
         rbind (py_map (\<lambda>r. parse (fst (snd (snd r)))) (init_rows env)) (\<lambda>surge_list.
         rbind (population_bootstrapper (boot env) n None (survey env)) (\<lambda>boot_tables.
         rbind (py_map (node_agent cfg env boot_tables (wind_list, rain_list, surge_list)) [0..<n]) (\<lambda>ags.
         rbind (py_map (\<lambda>k. closest_neighbours (kd_query env) ags (k + 1) (n_neighbors env)) [0..<n]) (\<lambda>neighs.
         rbind (data_collection_attributes (outcome_collection env)) (\<lambda>_.
           Inr (init_world (map (\<lambda>(a, nb). a\<lparr>neigh_individuals := nb\<rparr>) (zip ags neighs)))))))))))"

text \<open>The constructor, which ends with \<open>self.run_model()\<close>.\<close>

definition evacuation_dec :: "params \<Rightarrow> init_env \<Rightarrow> world result option" where
  "evacuation_dec cfg env =
     (case model_init cfg env of Inl e \<Rightarrow> Some (Inl e) | Inr w \<Rightarrow> run_model cfg w)"

section \<open>Lemmas\<close>

lemma node_agent_Inr:
  assumes "node_agent cfg env (fd, wd, md) cues k = Inr a"
  shows "\<exists>fv wv mv wnd rn ss. mv \<in> set md
     \<and> init_individual cfg 0 (k + 1) fv wv mv wnd rn ss (placed_neighbours (graph_adj env) k) = Inr a"
proof -
  obtain wl rl sl where c: "cues = (wl, rl, sl)" by (cases cues) auto
  from assms obtain mv fv wv wnd rn ss where mv: "py_get md (int k) = Inr mv"
    and i: "init_individual cfg 0 (k + 1) fv wv mv wnd rn ss (placed_neighbours (graph_adj env) k) = Inr a"
    unfolding node_agent_def c Let_def prod.case by (auto simp: rbind_eq_Inr simp del: py_get_nat)
  have "mv \<in> set md" using mv by (simp split: if_splits) (metis nth_mem)
  then show ?thesis using i by blast
qed

lemma model_init_Inr:
  assumes "model_init cfg env = Inr w"
  obtains ags neighs fd wd md cues where
    "w = init_world (map (\<lambda>(a, nb). a\<lparr>neigh_individuals := nb\<rparr>) (zip ags neighs))"
    "length ags = length (graph_adj env)" "length neighs = length (graph_adj env)"
    "\<forall>k<length (graph_adj env). node_agent cfg env (fd, wd, md) cues k = Inr (ags ! k)"
    "population_bootstrapper (boot env) (length (graph_adj env)) None (survey env) = Inr (fd, wd, md)"
proof -
  from assms obtain wl rl sl bt ags neighs where
    bt: "population_bootstrapper (boot env) (length (graph_adj env)) None (survey env) = Inr bt"
    and ags: "py_map (node_agent cfg env bt (wl, rl, sl)) [0..<length (graph_adj env)] = Inr ags"
    and nb: "py_map (\<lambda>k. closest_neighbours (kd_query env) ags (k + 1) (n_neighbors env)) [0..<length (graph_adj env)] = Inr neighs"
    and w: "w = init_world (map (\<lambda>(a, nb). a\<lparr>neigh_individuals := nb\<rparr>) (zip ags neighs))"
    unfolding model_init_def Let_def by (auto simp: rbind_eq_Inr)
  obtain fd wd md where b: "bt = (fd, wd, md)" by (cases bt) auto
  show ?thesis
  proof (rule that [OF w])
    show "length ags = length (graph_adj env)" using py_map_eq_Inr [OF ags] by simp
    show "length neighs = length (graph_adj env)" using py_map_eq_Inr [OF nb] by simp
    show "\<forall>k<length (graph_adj env). node_agent cfg env (fd, wd, md) (wl, rl, sl) k = Inr (ags ! k)"
      using py_map_eq_Inr [OF ags] b by simp
    show "population_bootstrapper (boot env) (length (graph_adj env)) None (survey env) = Inr (fd, wd, md)"
      using bt b by simp
  qed
qed

lemma model_init_agents:
  assumes "model_init cfg env = Inr w"
  shows "length (pop w) = length (graph_adj env) \<and> steps w = 0
    \<and> (\<forall>k<length (pop w). \<exists>a nb fv wv mv wnd rn ss. agent_at w k = a\<lparr>neigh_individuals := nb\<rparr>
         \<and> mv \<in> drop 1 ` set (snd (snd (survey env)))
         \<and> init_individual cfg 0 (k + 1) fv wv mv wnd rn ss (placed_neighbours (graph_adj env) k) = Inr a)"
proof -
  obtain ags neighs fd wd md cues where
    w: "w = init_world (map (\<lambda>(a, nb). a\<lparr>neigh_individuals := nb\<rparr>) (zip ags neighs))"
    and la: "length ags = length (graph_adj env)" and ln: "length neighs = length (graph_adj env)"
    and na: "\<forall>k<length (graph_adj env). node_agent cfg env (fd, wd, md) cues k = Inr (ags ! k)"
    and bt: "population_bootstrapper (boot env) (length (graph_adj env)) None (survey env) = Inr (fd, wd, md)"
    using model_init_Inr [OF assms] by metis
  obtain p wt m where s: "survey env = (p, wt, m)" by (cases "survey env") auto
  have rows: "set md \<subseteq> drop 1 ` set m" using population_bootstrapper_rows bt s by simp
  have lp: "length (pop w) = length (graph_adj env)" using w la ln by (simp add: init_world_def)
  have each: "\<exists>a nb fv wv mv wnd rn ss. agent_at w k = a\<lparr>neigh_individuals := nb\<rparr>
         \<and> mv \<in> drop 1 ` set (snd (snd (survey env)))
         \<and> init_individual cfg 0 (k + 1) fv wv mv wnd rn ss (placed_neighbours (graph_adj env) k) = Inr a"
    if k: "k < length (pop w)" for k
  proof -
    have kk: "k < length (graph_adj env)" using k lp by simp
    obtain fv wv mv wnd rn ss where mv: "mv \<in> set md"
      and i: "init_individual cfg 0 (k + 1) fv wv mv wnd rn ss (placed_neighbours (graph_adj env) k) = Inr (ags ! k)"
      using node_agent_Inr na kk by metis
    have "agent_at w k = (ags ! k)\<lparr>neigh_individuals := neighs ! k\<rparr>"
      using w kk la ln by (simp add: init_world_def agent_at_def)
    moreover have "mv \<in> drop 1 ` set (snd (snd (survey env)))" using mv rows s by auto
    ultimately show ?thesis using i by blast
  qed
  have "steps w = 0" using w by (simp add: init_world_def)
  then show ?thesis using lp each by blast
qed

lemma model_init_pop_inv:
  assumes "model_init cfg env = Inr w"
  shows "pop_inv w \<and> running w \<and> steps w = 0"
proof -
  obtain ags where w: "w = init_world ags" using model_init_Inr [OF assms] by metis
  have "\<forall>a\<in>set ags. phase a = 0"
  proof
    fix a assume "a \<in> set ags"
    then obtain k where k: "k < length ags" "a = ags ! k" by (auto simp: in_set_conv_nth)
    then obtain b nb fv wv mv wnd rn ss where "agent_at w k = b\<lparr>neigh_individuals := nb\<rparr>"
      and "init_individual cfg 0 (k + 1) fv wv mv wnd rn ss (placed_neighbours (graph_adj env) k) = Inr b"
      using model_init_agents [OF assms] w by (auto simp: init_world_def)
    then show "phase a = 0" using init_individual_Inr k w by (fastforce simp: init_world_def agent_at_def)
  qed
  then show ?thesis using w pop_inv_init_world by (simp add: init_world_def)
qed

section \<open>Properties\<close>


text \<open>
  (C18) The constructed model starts in both invariants the ticks preserve (the
  population invariant and the cue bounds), at tick 0 with one agent per graph node,
  whenever the survey's media answers and \<open>media_weight_trust\<close> are non-negative.
\<close>

theorem model_init_invariants:
  assumes "model_init cfg env = Inr w"
    and "\<forall>row\<in>set (snd (snd (survey env))). \<forall>x\<in>set row. 0 \<le> x" and "0 \<le> media_weight_trust cfg"
  shows "pop_inv w \<and> cue_ok w \<and> steps w = 0 \<and> length (pop w) = length (graph_adj env)"
proof -
  note ag = model_init_agents [OF assms(1)]
  have "cue_ok_agent (agent_at w k)" if k: "k < length (pop w)" for k
  proof -
    obtain a nb fv wv mv wnd rn ss where e: "agent_at w k = a\<lparr>neigh_individuals := nb\<rparr>"
      and mv: "mv \<in> drop 1 ` set (snd (snd (survey env)))"
      and i: "init_individual cfg 0 (k + 1) fv wv mv wnd rn ss (placed_neighbours (graph_adj env) k) = Inr a"
      using ag k by blast
    have "\<forall>x\<in>set mv. 0 \<le> x" using mv assms(2) by (auto dest: in_set_dropD)
    then have "cue_ok_agent a" using init_individual_cue_ok [OF i _ assms(3)] by blast
    then show ?thesis using e by (simp add: cue_ok_agent_def)
  qed
  then show ?thesis using model_init_pop_inv [OF assms(1)] ag by (simp add: cue_ok_def)
qed

end
