(* ===== verification/Laplace.thy ===== *)
theory Laplace
  imports Prelude "HOL-Library.AList"
begin

text \<open>
  \<open>src/Weather/Laplace_inter.py\<close>: the circumcentre of a triangle, the Laplace
  (non-Sibsonian natural-neighbour) interpolation of a height at a point of a Delaunay
  triangulation, and the bounding box of a point cloud.  The triangulation is a startinpy
  object the function mutates (it inserts the query point and removes it again); it is an
  abstract state \<open>'d\<close> with the five startinpy methods the code calls as the record
  \<open>dt_ops\<close>.  Vertex 0 is startinpy's infinite vertex.

  Two kinds of float arithmetic occur and are kept apart.  The coordinates returned by
  \<open>get_point\<close> are numpy floats, so a division by zero among them yields \<open>inf\<close> or
  \<open>nan\<close> with a warning, no exception: such a non-finite value is \<open>None\<close> (for the
  circumcentre of a degenerate triangle) or \<open>NaN\<close> (for the result).  \<open>math.sqrt\<close>
  returns Python floats, so \<open>voronoi_edge / x_pi\<close> raises \<open>ZeroDivisionError\<close>.
  The dictionary of weights keeps Python's insertion order (\<open>AList.update\<close>).
\<close>

section \<open>Definitions\<close>

text \<open>A result of the interpolation: a float, or \<open>np.nan\<close>.\<close>

datatype lval = Val real | NaN

record 'd dt_ops =
  get_point :: "'d \<Rightarrow> nat \<Rightarrow> real \<times> real \<times> real"
  is_inside_convex_hull :: "'d \<Rightarrow> real \<times> real \<Rightarrow> bool"
  insert_one_pt :: "'d \<Rightarrow> real \<times> real \<times> real \<Rightarrow> nat \<times> 'd"
  incident_triangles_to_vertex :: "'d \<Rightarrow> nat \<Rightarrow> nat list list"
  remove :: "'d \<Rightarrow> nat \<Rightarrow> 'd"

text \<open>
  \<open>circum_center(dt, triangle)\<close>: \<open>None\<close> when \<open>d = 0\<close> (a degenerate triangle, for
  which numpy returns non-finite coordinates).
\<close>

definition circum_center :: "'d dt_ops \<Rightarrow> 'd \<Rightarrow> nat list \<Rightarrow> (real \<times> real) option result" where
  "circum_center ops dt triangle =
     rbind (py_get triangle 0) (\<lambda>v1. rbind (py_get triangle 1) (\<lambda>v2. rbind (py_get triangle 2) (\<lambda>v3.
       let (px_1, py_1, pz_1) = get_point ops dt v1;
           (px_2, py_2, pz_2) = get_point ops dt v2;
           (px_3, py_3, pz_3) = get_point ops dt v3;
           d = 2 * (px_1 * (py_2 - py_3) + px_2 * (py_3 - py_1) + px_3 * (py_1 - py_2));
           x = (px_1 * px_1 + py_1 * py_1) * (py_2 - py_3) + (px_2 * px_2 + py_2 * py_2) * (py_3 - py_1)
               + (px_3 * px_3 + py_3 * py_3) * (py_1 - py_2);
           y = (px_1 * px_1 + py_1 * py_1) * (px_3 - px_2) + (px_2 * px_2 + py_2 * py_2) * (px_1 - px_3)
               + (px_3 * px_3 + py_3 * py_3) * (px_2 - px_1)
       in Inr (if d = 0 then None else Some (x / d, y / d)))))"

text \<open>
  One pass of the loop over the incident triangles: the circumcentres of triangle
  \<open>index\<close> and of the next one (cyclically), the vertex the two triangles share besides
  the query point (\<open>list(set(t1) & set(t2))\<close> with \<open>new_id\<close> removed; the order of
  the set is irrelevant once exactly one vertex is left), the length of the Voronoi edge
  between the centres and the weight \<open>voronoi_edge / x_pi\<close> stored in the dictionary.
\<close>

definition laplace_edge ::
  "'d dt_ops \<Rightarrow> 'd \<Rightarrow> real \<Rightarrow> real \<Rightarrow> nat \<Rightarrow> nat list list \<Rightarrow> nat
   \<Rightarrow> (nat \<times> real option) list \<Rightarrow> (nat \<times> real option) list result" where
  "laplace_edge ops dt x y new_id triangles_vertex index weights =
     rbind (circum_center ops dt (triangles_vertex ! index)) (\<lambda>center_triangle_1.
     let triangle_1 = triangles_vertex ! index;
         next = (if length triangles_vertex = index + 1 then 0 else index + 1)
     in rbind (circum_center ops dt (triangles_vertex ! next)) (\<lambda>center_triangle_2.
     let triangle_2 = triangles_vertex ! next;
         common = remdups (filter (\<lambda>v. v \<in> set triangle_2) triangle_1)
     in if new_id \<notin> set common then Inl ValueError
        else
          let dt_vertex_v_edge = remove1 new_id common
          in if length dt_vertex_v_edge \<noteq> 1 then Inl Exception
             else
               let v = hd dt_vertex_v_edge;
                   voronoi_edge =
                     (case (center_triangle_1, center_triangle_2) of
                        (Some (a1, b1), Some (a2, b2)) \<Rightarrow> Some (sqrt ((a2 - a1)\<^sup>2 + (b2 - b1)\<^sup>2))
                      | _ \<Rightarrow> None);
                   x_pi = sqrt ((x - fst (get_point ops dt v))\<^sup>2 + (y - fst (snd (get_point ops dt v)))\<^sup>2)
               in if x_pi = 0 then Inl ZeroDivisionError
                  else Inr (AList.update v (map_option (\<lambda>e. e / x_pi) voronoi_edge) weights)))"

text \<open>
  The final sum: \<open>z_value += height * weight / total_edge_dist\<close> over the dictionary.
  The height is a numpy float, so a zero total gives \<open>nan\<close>; a non-finite weight makes
  the result \<open>nan\<close> as well.  An empty dictionary leaves \<open>z_value = 0\<close>.
\<close>

definition laplace_value :: "'d dt_ops \<Rightarrow> 'd \<Rightarrow> (nat \<times> real option) list \<Rightarrow> lval" where
  "laplace_value ops dt weights =
     (case those (map snd weights) of
        None \<Rightarrow> NaN
      | Some ws \<Rightarrow>
          (let total_edge_dist = sum_list ws
           in if weights \<noteq> [] \<and> total_edge_dist = 0 then NaN
              else Val (sum_list (map (\<lambda>(v, w). snd (snd (get_point ops dt v)) * w / total_edge_dist)
                                      (zip (map fst weights) ws)))))"

text \<open>
  \<open>interpolate_laplace(dt, x, y)\<close>: the result and the triangulation afterwards.  Outside
  the convex hull it returns \<open>nan\<close> untouched; otherwise it inserts the query point,
  returns \<open>nan\<close> at once (without removing it) when an incident triangle has the infinite
  vertex, runs the loop (whose exceptions also leave the point inserted), and removes the
  point before returning the sum.
\<close>

definition interpolate_laplace :: "'d dt_ops \<Rightarrow> 'd \<Rightarrow> real \<Rightarrow> real \<Rightarrow> lval result \<times> 'd" where
  "interpolate_laplace ops dt x y =
     (if \<not> is_inside_convex_hull ops dt (x, y) then (Inr NaN, dt)
      else
        let (new_id, dt1) = insert_one_pt ops dt (x, y, 0);
            triangles_vertex = incident_triangles_to_vertex ops dt1 new_id
        in if list_ex (\<lambda>triangle. 0 \<in> set triangle) triangles_vertex then (Inr NaN, dt1)
           else
             case rfold (laplace_edge ops dt1 x y new_id triangles_vertex) [0..<length triangles_vertex] [] of
               Inl e \<Rightarrow> (Inl e, dt1)
             | Inr weights \<Rightarrow>
                 let z_value = laplace_value ops dt1 weights
                 in (Inr z_value, remove ops dt1 new_id))"

text \<open>\<open>bbox(pts_all)\<close>: \<open>np.min\<close>/\<open>np.max\<close> of the first two columns; an empty cloud raises.\<close>

definition bbox :: "(real \<times> real \<times> real) list \<Rightarrow> (real \<times> real \<times> real \<times> real) result" where
  "bbox pts_all =
     (if pts_all = [] then Inl ValueError
      else Inr (Min (set (map fst pts_all)), Max (set (map fst pts_all)),
                Min (set (map (\<lambda>p. fst (snd p)) pts_all)), Max (set (map (\<lambda>p. fst (snd p)) pts_all))))"

section \<open>Lemmas\<close>

text \<open>The circumcentre of a non-degenerate triangle is equidistant from its corners.\<close>

lemma circum_center_equidistant:
  assumes "circum_center ops dt [v1, v2, v3] = Inr (Some (cx, cy))"
  shows "(cx - fst (get_point ops dt v1))\<^sup>2 + (cy - fst (snd (get_point ops dt v1)))\<^sup>2
       = (cx - fst (get_point ops dt v2))\<^sup>2 + (cy - fst (snd (get_point ops dt v2)))\<^sup>2
     \<and> (cx - fst (get_point ops dt v1))\<^sup>2 + (cy - fst (snd (get_point ops dt v1)))\<^sup>2
       = (cx - fst (get_point ops dt v3))\<^sup>2 + (cy - fst (snd (get_point ops dt v3)))\<^sup>2"
proof -
  obtain x1 y1 z1 where p1: "get_point ops dt v1 = (x1, y1, z1)" by (cases "get_point ops dt v1") auto
  obtain x2 y2 z2 where p2: "get_point ops dt v2 = (x2, y2, z2)" by (cases "get_point ops dt v2") auto
  obtain x3 y3 z3 where p3: "get_point ops dt v3 = (x3, y3, z3)" by (cases "get_point ops dt v3") auto
  define d where "d = 2 * (x1 * (y2 - y3) + x2 * (y3 - y1) + x3 * (y1 - y2))"
  have dn: "d \<noteq> 0" and c: "cx * d = (x1 * x1 + y1 * y1) * (y2 - y3) + (x2 * x2 + y2 * y2) * (y3 - y1) + (x3 * x3 + y3 * y3) * (y1 - y2)"
    and c': "cy * d = (x1 * x1 + y1 * y1) * (x3 - x2) + (x2 * x2 + y2 * y2) * (x1 - x3) + (x3 * x3 + y3 * y3) * (x2 - x1)"
    using assms by (auto simp: circum_center_def py_get_def p1 p2 p3 d_def Let_def split: if_splits)
  have "(cx - x1)\<^sup>2 + (cy - y1)\<^sup>2 = (cx - x2)\<^sup>2 + (cy - y2)\<^sup>2 \<and> (cx - x1)\<^sup>2 + (cy - y1)\<^sup>2 = (cx - x3)\<^sup>2 + (cy - y3)\<^sup>2"
  proof -
    have e1: "d * ((cx - x1)\<^sup>2 + (cy - y1)\<^sup>2 - ((cx - x2)\<^sup>2 + (cy - y2)\<^sup>2)) = 0"
      using c c' unfolding d_def by algebra
    have e2: "d * ((cx - x1)\<^sup>2 + (cy - y1)\<^sup>2 - ((cx - x3)\<^sup>2 + (cy - y3)\<^sup>2)) = 0"
      using c c' unfolding d_def by algebra
    show ?thesis using e1 e2 dn by simp
  qed
  then show ?thesis by (simp add: p1 p2 p3)
qed

lemma set_update_subset: "set (AList.update k v al) \<subseteq> insert (k, v) (set al)"
  by (induction al) auto

lemma laplace_edge_ok:
  assumes step: "laplace_edge ops dt x y new_id tv index wd = Inr wd'"
    and i: "index < length tv" and no0: "\<not> list_ex (\<lambda>t. 0 \<in> set t) tv"
    and inv: "\<forall>(k, w)\<in>set wd. k \<noteq> new_id \<and> k \<noteq> 0 \<and> (\<forall>e. w = Some e \<longrightarrow> 0 \<le> e)"
  shows "\<forall>(k, w)\<in>set wd'. k \<noteq> new_id \<and> k \<noteq> 0 \<and> (\<forall>e. w = Some e \<longrightarrow> 0 \<le> e)"
proof -
  let ?nx = "if length tv = index + 1 then 0 else index + 1"
  let ?common = "remdups (filter (\<lambda>v. v \<in> set (tv ! ?nx)) (tv ! index))"
  obtain c1 c2 where c: "new_id \<in> set ?common" "length (remove1 new_id ?common) = 1"
    and xp: "sqrt ((x - fst (get_point ops dt (hd (remove1 new_id ?common))))\<^sup>2
                 + (y - fst (snd (get_point ops dt (hd (remove1 new_id ?common)))))\<^sup>2) \<noteq> 0"
    and wd': "wd' = AList.update (hd (remove1 new_id ?common))
        (map_option (\<lambda>e. e / sqrt ((x - fst (get_point ops dt (hd (remove1 new_id ?common))))\<^sup>2
                 + (y - fst (snd (get_point ops dt (hd (remove1 new_id ?common)))))\<^sup>2))
          (case (c1, c2) of (Some (a1, b1), Some (a2, b2)) \<Rightarrow> Some (sqrt ((a2 - a1)\<^sup>2 + (b2 - b1)\<^sup>2)) | _ \<Rightarrow> None)) wd"
    using step unfolding laplace_edge_def Let_def by (auto simp: rbind_eq_Inr split: if_splits)
  let ?v = "hd (remove1 new_id ?common)"
  have vin: "?v \<in> set (remove1 new_id ?common)" using c(2) by (cases "remove1 new_id ?common") auto
  then have v1: "?v \<noteq> new_id" by (simp add: set_remove1_eq)
  have "?v \<in> set (tv ! index)" using vin notin_set_remove1 by fastforce
  moreover have "0 \<notin> set (tv ! index)" using no0 i by (auto simp: list_ex_iff)
  ultimately have v2: "?v \<noteq> 0" by metis
  define s where "s = sqrt ((x - fst (get_point ops dt ?v))\<^sup>2 + (y - fst (snd (get_point ops dt ?v)))\<^sup>2)"
  define ve where "ve = (case (c1, c2) of (Some (a1, b1), Some (a2, b2)) \<Rightarrow> Some (sqrt ((a2 - a1)\<^sup>2 + (b2 - b1)\<^sup>2)) | _ \<Rightarrow> None)"
  have ve: "\<forall>e. ve = Some e \<longrightarrow> 0 \<le> e" unfolding ve_def by (auto split: option.splits)
  have nn: "\<forall>e. map_option (\<lambda>e. e / s) ve = Some e \<longrightarrow> 0 \<le> e" using ve by (auto simp: s_def)
  have sub: "set wd' \<subseteq> insert (?v, map_option (\<lambda>e. e / s) ve) (set wd)"
    unfolding wd' s_def ve_def by (rule set_update_subset)
  show ?thesis
  proof (intro ballI, clarify)
    fix k w assume "(k, w) \<in> set wd'"
    then have "(k = ?v \<and> w = map_option (\<lambda>e. e / s) ve) \<or> (k, w) \<in> set wd" using sub by blast
    then show "k \<noteq> new_id \<and> k \<noteq> 0 \<and> (\<forall>e. w = Some e \<longrightarrow> 0 \<le> e)"
    proof
      assume "k = ?v \<and> w = map_option (\<lambda>e. e / s) ve"
      then show ?thesis using v1 v2 nn by simp
    next
      assume "(k, w) \<in> set wd"
      then show ?thesis using inv by fastforce
    qed
  qed
qed

lemma laplace_weights_ok:
  assumes "rfold (laplace_edge ops dt x y new_id tv) [0..<length tv] [] = Inr wd"
    and "\<not> list_ex (\<lambda>t. 0 \<in> set t) tv"
  shows "\<forall>(k, w)\<in>set wd. k \<noteq> new_id \<and> k \<noteq> 0 \<and> (\<forall>e. w = Some e \<longrightarrow> 0 \<le> e)"
proof (rule rfold_invariant [OF _ _ assms(1)])
  fix i s s'
  assume i: "i \<in> set [0..<length tv]" and inv: "\<forall>(k, w)\<in>set s. k \<noteq> new_id \<and> k \<noteq> 0 \<and> (\<forall>e. w = Some e \<longrightarrow> 0 \<le> e)"
    and st: "laplace_edge ops dt x y new_id tv i s = Inr s'"
  show "\<forall>(k, w)\<in>set s'. k \<noteq> new_id \<and> k \<noteq> 0 \<and> (\<forall>e. w = Some e \<longrightarrow> 0 \<le> e)"
    using laplace_edge_ok [OF st _ assms(2) inv] i by simp
qed simp

lemma laplace_weights_nonempty:
  assumes "rfold (laplace_edge ops dt x y new_id tv) [0..<length tv] [] = Inr wd" and "tv \<noteq> []"
  shows "wd \<noteq> []"
proof -
  have "rfold (laplace_edge ops dt x y new_id tv) xs d = Inr wd \<Longrightarrow> xs \<noteq> [] \<Longrightarrow> wd \<noteq> []" for xs d
  proof (induction xs arbitrary: d)
    case Nil
    then show ?case by simp
  next
    case (Cons i xs)
    then obtain d1 where d1: "laplace_edge ops dt x y new_id tv i d = Inr d1"
      and r: "rfold (laplace_edge ops dt x y new_id tv) xs d1 = Inr wd" by (auto simp: rbind_eq_Inr)
    have "d1 \<noteq> []" using d1 by (auto simp: laplace_edge_def Let_def rbind_eq_Inr split: if_splits)
    then show ?case using r Cons.IH by (cases xs) auto
  qed
  then show ?thesis using assms by simp
qed

lemma those_Some: "those xs = Some ys \<Longrightarrow> xs = map Some ys"
  by (induction xs arbitrary: ys) (auto split: option.splits)

lemma weighted_sum_bounds:
  assumes "\<forall>p\<in>set ps. 0 \<le> snd p \<and> lo \<le> fst p \<and> fst p \<le> (hi :: real)"
  shows "lo * sum_list (map snd ps) \<le> sum_list (map (\<lambda>p. fst p * snd p) ps)
       \<and> sum_list (map (\<lambda>p. fst p * snd p) ps) \<le> hi * sum_list (map snd ps)"
  using assms
proof (induction ps)
  case Nil
  then show ?case by simp
next
  case (Cons p ps)
  have "lo * snd p \<le> fst p * snd p" "fst p * snd p \<le> hi * snd p"
    using Cons.prems by (auto intro: mult_right_mono)
  then show ?case using Cons by (simp add: distrib_left)
qed

lemma weighted_mean_bounds:
  assumes "\<forall>p\<in>set ps. 0 \<le> snd p \<and> lo \<le> fst p \<and> fst p \<le> (hi :: real)" and "sum_list (map snd ps) \<noteq> 0"
  shows "lo \<le> sum_list (map (\<lambda>p. fst p * snd p / sum_list (map snd ps)) ps)
       \<and> sum_list (map (\<lambda>p. fst p * snd p / sum_list (map snd ps)) ps) \<le> hi"
proof -
  let ?t = "sum_list (map snd ps)"
  have "0 \<le> ?t" using assms(1) by (intro sum_list_nonneg) auto
  then have t: "0 < ?t" using assms(2) by simp
  note b = weighted_sum_bounds [OF assms(1)]
  show ?thesis unfolding sum_list_divide using b t by (simp add: pos_le_divide_eq pos_divide_le_eq)
qed

lemma in_set_zip_map: "(a, b) \<in> set (zip xs ys) \<Longrightarrow> (a, f b) \<in> set (zip xs (map f ys))"
  by (auto simp: set_zip)

lemma laplace_value_bounds:
  assumes v: "laplace_value ops dt wd = Val z" and ne: "wd \<noteq> []"
    and ok: "\<forall>(k, w)\<in>set wd. (\<forall>e. w = Some e \<longrightarrow> 0 \<le> e)
               \<and> lo \<le> snd (snd (get_point ops dt k)) \<and> snd (snd (get_point ops dt k)) \<le> hi"
  shows "lo \<le> z \<and> z \<le> hi"
proof -
  obtain ws where ws: "those (map snd wd) = Some ws"
    using v by (auto simp: laplace_value_def split: option.splits)
  have m: "map snd wd = map Some ws" by (rule those_Some [OF ws])
  then have len: "length ws = length wd" by (metis length_map)
  have wd: "zip (map fst wd) (map Some ws) = wd" using m by (metis zip_map_fst_snd)
  have t: "sum_list ws \<noteq> 0"
    and z: "z = sum_list (map (\<lambda>(v, w). snd (snd (get_point ops dt v)) * w / sum_list ws) (zip (map fst wd) ws))"
    using v ne ws by (auto simp: laplace_value_def Let_def split: if_splits)
  let ?ps = "map (\<lambda>(v, w). (snd (snd (get_point ops dt v)), w)) (zip (map fst wd) ws)"
  have ms: "map snd ?ps = ws" using len by (simp add: case_prod_unfold comp_def map_snd_zip)
  have z': "z = sum_list (map (\<lambda>p. fst p * snd p / sum_list (map snd ?ps)) ?ps)"
    unfolding ms z by (simp add: case_prod_unfold o_def)
  have "\<forall>p\<in>set ?ps. 0 \<le> snd p \<and> lo \<le> fst p \<and> fst p \<le> hi"
  proof
    fix p assume "p \<in> set ?ps"
    then obtain v w where p: "p = (snd (snd (get_point ops dt v)), w)" and vw: "(v, w) \<in> set (zip (map fst wd) ws)"
      by auto
    have "(v, Some w) \<in> set wd" using in_set_zip_map [OF vw, of Some] wd by simp
    then show "0 \<le> snd p \<and> lo \<le> fst p \<and> fst p \<le> hi" using ok p by fastforce
  qed
  from weighted_mean_bounds [OF this] show ?thesis using t ms z' by simp
qed

lemma interpolate_laplace_Val:
  assumes "interpolate_laplace ops dt x y = (Inr (Val z), dt')"
  shows "\<exists>wd. is_inside_convex_hull ops dt (x, y)
     \<and> \<not> list_ex (\<lambda>t. 0 \<in> set t) (incident_triangles_to_vertex ops (snd (insert_one_pt ops dt (x, y, 0))) (fst (insert_one_pt ops dt (x, y, 0))))
     \<and> rfold (laplace_edge ops (snd (insert_one_pt ops dt (x, y, 0))) x y (fst (insert_one_pt ops dt (x, y, 0)))
          (incident_triangles_to_vertex ops (snd (insert_one_pt ops dt (x, y, 0))) (fst (insert_one_pt ops dt (x, y, 0)))))
          [0..<length (incident_triangles_to_vertex ops (snd (insert_one_pt ops dt (x, y, 0))) (fst (insert_one_pt ops dt (x, y, 0))))] [] = Inr wd
     \<and> laplace_value ops (snd (insert_one_pt ops dt (x, y, 0))) wd = Val z
     \<and> dt' = remove ops (snd (insert_one_pt ops dt (x, y, 0))) (fst (insert_one_pt ops dt (x, y, 0)))"
  using assms
  by (auto simp: interpolate_laplace_def Let_def case_prod_unfold split: if_splits sum.splits)

text \<open>Every point of a non-empty cloud lies in its bounding box.\<close>

lemma bbox_contains:
  assumes "bbox pts_all = Inr (x_min, x_max, y_min, y_max)" and "p \<in> set pts_all"
  shows "x_min \<le> fst p \<and> fst p \<le> x_max \<and> y_min \<le> fst (snd p) \<and> fst (snd p) \<le> y_max"
  using assms by (auto simp: bbox_def split: if_splits)

section \<open>Properties\<close>

text \<open>
  (C17) Laplace interpolation is bounded by the data: when \<open>interpolate_laplace\<close>
  returns a float, it lies between the lowest and the highest height of the
  triangulation's finite vertices, provided the insertion of the query point keeps the
  other points and gives it incident triangles.
\<close>

theorem interpolate_laplace_bounded:
  assumes r: "interpolate_laplace ops dt x y = (Inr (Val z), dt')"
    and keep: "\<forall>v. v \<noteq> fst (insert_one_pt ops dt (x, y, 0))
                 \<longrightarrow> get_point ops (snd (insert_one_pt ops dt (x, y, 0))) v = get_point ops dt v"
    and heights: "\<forall>v. v \<noteq> 0 \<longrightarrow> lo \<le> snd (snd (get_point ops dt v)) \<and> snd (snd (get_point ops dt v)) \<le> hi"
    and tri: "incident_triangles_to_vertex ops (snd (insert_one_pt ops dt (x, y, 0))) (fst (insert_one_pt ops dt (x, y, 0))) \<noteq> []"
  shows "lo \<le> z \<and> z \<le> hi"
proof -
  let ?new = "fst (insert_one_pt ops dt (x, y, 0))" and ?dt1 = "snd (insert_one_pt ops dt (x, y, 0))"
  let ?tv = "incident_triangles_to_vertex ops ?dt1 ?new"
  obtain wd where no0: "\<not> list_ex (\<lambda>t. 0 \<in> set t) ?tv"
    and w: "rfold (laplace_edge ops ?dt1 x y ?new ?tv) [0..<length ?tv] [] = Inr wd"
    and v: "laplace_value ops ?dt1 wd = Val z"
    using interpolate_laplace_Val [OF r] by blast
  have ok: "\<forall>(k, w)\<in>set wd. k \<noteq> ?new \<and> k \<noteq> 0 \<and> (\<forall>e. w = Some e \<longrightarrow> 0 \<le> e)"
    by (rule laplace_weights_ok [OF w no0])
  have "\<forall>(k, w)\<in>set wd. (\<forall>e. w = Some e \<longrightarrow> 0 \<le> e)
      \<and> lo \<le> snd (snd (get_point ops ?dt1 k)) \<and> snd (snd (get_point ops ?dt1 k)) \<le> hi"
    using ok keep heights by fastforce
  then show ?thesis using laplace_value_bounds [OF v] laplace_weights_nonempty [OF w tri] by blast
qed

text \<open>
  (C16) Round trip of the triangulation: when \<open>interpolate_laplace\<close> returns a float
  and removing the inserted query point undoes its insertion, the triangulation is given
  back unchanged.  But when an incident triangle has the infinite vertex, the function
  returns \<open>nan\<close> without removing the point: the caller's triangulation keeps it.
\<close>

theorem interpolate_laplace_restores:
  assumes r: "interpolate_laplace ops dt x y = (res, dt')"
    and inverse: "remove ops (snd (insert_one_pt ops dt (x, y, 0))) (fst (insert_one_pt ops dt (x, y, 0))) = dt"
  shows "(\<forall>z. res = Inr (Val z) \<longrightarrow> dt' = dt)
    \<and> (is_inside_convex_hull ops dt (x, y)
        \<and> list_ex (\<lambda>t. 0 \<in> set t) (incident_triangles_to_vertex ops (snd (insert_one_pt ops dt (x, y, 0))) (fst (insert_one_pt ops dt (x, y, 0))))
        \<longrightarrow> res = Inr NaN \<and> dt' = snd (insert_one_pt ops dt (x, y, 0)))"
proof
  show "\<forall>z. res = Inr (Val z) \<longrightarrow> dt' = dt"
  proof (intro allI impI)
    fix z assume "res = Inr (Val z)"
    then have "interpolate_laplace ops dt x y = (Inr (Val z), dt')" using r by simp
    from interpolate_laplace_Val [OF this] show "dt' = dt" using inverse by auto
  qed
  show "is_inside_convex_hull ops dt (x, y)
        \<and> list_ex (\<lambda>t. 0 \<in> set t) (incident_triangles_to_vertex ops (snd (insert_one_pt ops dt (x, y, 0))) (fst (insert_one_pt ops dt (x, y, 0))))
        \<longrightarrow> res = Inr NaN \<and> dt' = snd (insert_one_pt ops dt (x, y, 0))"
    using r by (auto simp: interpolate_laplace_def Let_def case_prod_unfold)
qed

end
