(* ===== verification/Plots.thy ===== *)
theory Plots
  imports Prelude "HOL-Library.Multiset"
begin

text \<open>
  The data preparation of \<open>src/Viz/Plots.py\<close> (the drawing itself is matplotlib and is
  not modelled).  Times are whole hours after 2017-09-03 00:00, the \<open>start_time\<close> of
  the plots; a tick is two hours.  \<open>compare_real_data\<close> turns the collected per-tick
  evacuation counts into one timestamp per evacuee for a histogram, \<open>cum_evac\<close> plots
  their running total from 23:00, and \<open>plot_environmental_and_social_cues\<close> looks up the
  time of the rows of tick 55 and 60 to mark the storm watch and warning.  The theory
  proves that the histogram data is a faithful expansion of the counts (counting it per
  tick gives the counts back) and that the running total ends at the total.
\<close>

section \<open>Definitions\<close>

text \<open>\<open>start_time + pd.to_timedelta(index * step_hours, unit="h")\<close>, \<open>step_hours = 2\<close>.\<close>

definition plot_time :: "int \<Rightarrow> nat \<Rightarrow> int" where
  "plot_time start idx = start + 2 * int idx"

text \<open>
  \<open>compare_real_data\<close>: \<open>hist_values.extend([df_model.loc[idx, "datetime"]] * count)\<close>
  for every tick \<open>idx\<close> of the \<open>evac_agents\<close> column.
\<close>

fun hist_from :: "int \<Rightarrow> nat \<Rightarrow> nat list \<Rightarrow> int list" where
  "hist_from start idx [] = []"
| "hist_from start idx (cnt # counts) = replicate cnt (plot_time start idx) @ hist_from start (Suc idx) counts"

definition hist_values :: "int \<Rightarrow> nat list \<Rightarrow> int list" where
  "hist_values start evac_agents = hist_from start 0 evac_agents"

text \<open>\<open>df['evac_agents'].cumsum()\<close>.\<close>

fun cumsum_from :: "nat \<Rightarrow> nat list \<Rightarrow> nat list" where
  "cumsum_from acc [] = []"
| "cumsum_from acc (x # xs) = (acc + x) # cumsum_from (acc + x) xs"

definition cumsum :: "nat list \<Rightarrow> nat list" where
  "cumsum xs = cumsum_from 0 xs"

text \<open>
  \<open>df.loc[df["Step"] == s, "time"].values[0]\<close> over the rows \<open>(Step, time)\<close> of the
  agent data: \<open>IndexError\<close> when no row has that step.
\<close>

definition event_time :: "(int \<times> int) list \<Rightarrow> int \<Rightarrow> int result" where
  "event_time rows s = py_get (map snd (filter (\<lambda>r. fst r = s) rows)) 0"

section \<open>Lemmas\<close>

lemma plot_time_inj [simp]: "(plot_time start i = plot_time start j) = (i = j)"
  by (simp add: plot_time_def)

lemma count_hist_from:
  "count (mset (hist_from start k cs)) (plot_time start i) = (if k \<le> i \<and> i < k + length cs then cs ! (i - k) else 0)"
proof (induction cs arbitrary: k)
  case Nil
  then show ?case by simp
next
  case (Cons c cs)
  show ?case
  proof (cases "i = k")
    case True
    have "count (mset (hist_from start (Suc k) cs)) (plot_time start i) = 0" using Cons.IH [of "Suc k"] True by simp
    then show ?thesis using True by simp
  next
    case False
    then have "(k \<le> i \<and> i < k + length (c # cs)) = (Suc k \<le> i \<and> i < Suc k + length cs)" by auto
    moreover have "Suc k \<le> i \<Longrightarrow> (c # cs) ! (i - k) = cs ! (i - Suc k)" by (simp add: Suc_diff_Suc nth_Cons')
    ultimately show ?thesis using Cons.IH [of "Suc k"] False by auto
  qed
qed

lemma length_hist_from: "length (hist_from start k cs) = sum_list cs"
  by (induction cs arbitrary: k) auto

lemma set_hist_from: "set (hist_from start k cs) \<subseteq> plot_time start ` {k..<k + length cs}"
proof (induction cs arbitrary: k)
  case Nil
  then show ?case by simp
next
  case (Cons c cs)
  then have "set (hist_from start (Suc k) cs) \<subseteq> plot_time start ` {k..<k + length (c # cs)}" by fastforce
  then show ?case by auto
qed

lemma event_time_missing: "(event_time rows s = Inl IndexError) = (s \<notin> fst ` set rows)"
  by (auto simp: event_time_def py_get_def filter_empty_conv)

lemma cumsum_from_last_Cons: "last (acc # cumsum_from acc xs) = acc + sum_list xs"
  by (induction xs arbitrary: acc) (simp_all add: add.assoc)

lemma length_cumsum_from [simp]: "length (cumsum_from acc xs) = length xs"
  by (induction acc xs rule: cumsum_from.induct) auto

lemma cumsum_last: "xs \<noteq> [] \<Longrightarrow> last (cumsum xs) = sum_list xs"
proof -
  assume "xs \<noteq> []"
  then have "cumsum_from 0 xs \<noteq> []" by (metis length_0_conv length_cumsum_from)
  then show ?thesis using cumsum_from_last_Cons [of 0 xs] by (simp add: cumsum_def)
qed

section \<open>Properties\<close>

text \<open>
  (C38) Round trip of the histogram data of \<open>compare_real_data\<close>: expanding the
  collected \<open>evac_agents\<close> counts into one timestamp per evacuee and counting the
  timestamps per tick gives the counts back; the data has one entry per evacuee and no
  timestamp outside the ticks.
\<close>

theorem hist_values_roundtrip:
  "length (hist_values start evac_agents) = sum_list evac_agents
   \<and> (\<forall>i<length evac_agents. count (mset (hist_values start evac_agents)) (plot_time start i) = evac_agents ! i)
   \<and> set (hist_values start evac_agents) \<subseteq> plot_time start ` {..<length evac_agents}"
  using count_hist_from [of start 0 evac_agents] length_hist_from [of start 0 evac_agents]
    set_hist_from [of start 0 evac_agents]
  by (simp add: hist_values_def atLeast0LessThan)

end
