(* ===== verification/Convergence.thy ===== *)
theory Convergence
  imports Prelude "HOL-Library.AList"
begin

text \<open>
  The statistics of the batch script \<open>src/ConvergenceeAnalysis.py\<close>: keep the rows of
  the last step of \<open>mesa.batch_run\<close>'s result, add for every metric its running mean
  (\<open>expanding().mean()\<close>) and the running mean standardised by its own mean and sample
  standard deviation, reset the index twice, select the raw metric columns with
  \<open>iteration\<close> and \<open>AgentID\<close>, average them per iteration, and plot the
  standardised columns of that average.  A data frame is its index labels and its named
  float columns in order; a float may be \<open>nan\<close> (\<open>None\<close>), and pandas' reductions
  skip \<open>nan\<close>.  Selecting a missing column raises \<open>KeyError\<close>; \<open>reset_index\<close>
  names the new column \<open>index\<close>, or \<open>level_0\<close> when \<open>index\<close> exists, and raises
  \<open>ValueError\<close> when both exist.  The batch run and the drawing are not modelled.
\<close>

section \<open>Definitions\<close>

type_synonym column = "real option list"
type_synonym frame = "real list \<times> (string \<times> column) list"

text \<open>The column names of a frame.\<close>

abbreviation df_cols :: "frame \<Rightarrow> string set" where
  "df_cols df \<equiv> fst ` set (snd df)"

text \<open>\<open>df[name]\<close>.\<close>

definition df_col :: "frame \<Rightarrow> string \<Rightarrow> column result" where
  "df_col df name = (case map_of (snd df) name of None \<Rightarrow> Inl KeyError | Some c \<Rightarrow> Inr c)"

text \<open>\<open>df[name] = c\<close>: replace the column in place or append it.\<close>

definition df_set :: "frame \<Rightarrow> string \<Rightarrow> column \<Rightarrow> frame" where
  "df_set df name c = (fst df, AList.update name c (snd df))"

text \<open>\<open>df[mask]\<close>: the rows where the mask holds, with their labels.\<close>

definition df_filter :: "frame \<Rightarrow> bool list \<Rightarrow> frame" where
  "df_filter df keep =
     (map fst (filter snd (zip (fst df) keep)),
      map (\<lambda>(n, c). (n, map fst (filter snd (zip c keep)))) (snd df))"

definition df_reset_index :: "frame \<Rightarrow> frame result" where
  "df_reset_index df =
     (let labels = map Some (fst df); n = length (fst df)
      in if map_of (snd df) ''index'' = None then Inr (map real [0..<n], (''index'', labels) # snd df)
         else if map_of (snd df) ''level_0'' = None then Inr (map real [0..<n], (''level_0'', labels) # snd df)
         else Inl ValueError)"

text \<open>\<open>df[[c1, ..., ck]]\<close>.\<close>

definition df_select :: "frame \<Rightarrow> string list \<Rightarrow> frame result" where
  "df_select df names = rbind (py_map (\<lambda>n. rbind (df_col df n) (\<lambda>c. Inr (n, c))) names) (\<lambda>cs. Inr (fst df, cs))"

text \<open>Reductions that skip \<open>nan\<close>: \<open>max\<close>, \<open>mean\<close> and \<open>std\<close> (\<open>ddof = 1\<close>).\<close>

definition nan_values :: "column \<Rightarrow> real list" where
  "nan_values c = map the (filter (\<lambda>v. v \<noteq> None) c)"

definition nan_max :: "column \<Rightarrow> real option" where
  "nan_max c = (if nan_values c = [] then None else Some (Max (set (nan_values c))))"

definition nan_mean :: "column \<Rightarrow> real option" where
  "nan_mean c = (let xs = nan_values c in if xs = [] then None else Some (sum_list xs / real (length xs)))"

definition nan_std :: "column \<Rightarrow> real option" where
  "nan_std c =
     (let xs = nan_values c in
      if length xs < 2 then None
      else Some (sqrt (sum_list (map (\<lambda>x. (x - sum_list xs / real (length xs))\<^sup>2) xs) / real (length xs - 1))))"

text \<open>\<open>s.expanding().mean()\<close>: the mean of every prefix.\<close>

definition expanding_mean :: "column \<Rightarrow> column" where
  "expanding_mean c = map (\<lambda>k. nan_mean (take k c)) [1..<length c + 1]"

text \<open>\<open>(s - mean) / std\<close> on numpy floats: \<open>nan\<close> propagates, a zero deviation gives a
  non-finite value.\<close>

definition standardize :: "column \<Rightarrow> real option \<Rightarrow> real option \<Rightarrow> column" where
  "standardize c mean std =
     map (\<lambda>v. case (v, mean, std) of
                (Some x, Some m, Some s) \<Rightarrow> if s = 0 then None else Some ((x - m) / s)
              | _ \<Rightarrow> None) c"

text \<open>\<open>groupby(key).mean()\<close>: one row per key value (sorted, \<open>nan\<close> keys dropped), the
  mean of every other column over the rows of that key.\<close>

definition df_groupby_mean :: "frame \<Rightarrow> string \<Rightarrow> frame result" where
  "df_groupby_mean df key =
     rbind (df_col df key) (\<lambda>keys.
       let ks = sort (remdups (nan_values keys))
       in Inr (ks, map (\<lambda>(n, c). (n, map (\<lambda>k. nan_mean (map snd (filter (\<lambda>p. fst p = Some k) (zip keys c)))) ks))
                      (filter (\<lambda>p. fst p \<noteq> key) (snd df))))"

definition metrics :: "string list" where
  "metrics = [''average_evac_time'', ''hotel_choice'', ''friends_choice'', ''stay_choice'']"

text \<open>The body of the loop over the metrics.\<close>

definition metric_stats :: "string \<Rightarrow> frame \<Rightarrow> frame result" where
  "metric_stats metric df =
     rbind (df_col df metric) (\<lambda>c.
     let df = df_set df (metric @ ''_running_mean'') (expanding_mean c)
     in rbind (df_col df (metric @ ''_running_mean'')) (\<lambda>rm.
        let mean = nan_mean rm; std = nan_std rm
        in Inr (df_set df (metric @ ''_standardized'') (standardize rm mean std))))"

text \<open>Everything up to \<open>df_correct\<close>.\<close>

definition convergence_frames :: "frame \<Rightarrow> frame result" where
  "convergence_frames result_batch =
     rbind (df_col result_batch ''Step'') (\<lambda>steps.
     let m = nan_max steps;
         df = df_filter result_batch (map (\<lambda>v. v \<noteq> None \<and> v = m) steps)
     in rbind (df_reset_index df) (\<lambda>df.
        rbind (rfold metric_stats metrics df) (\<lambda>df.
        rbind (df_reset_index df) (\<lambda>df.
        rbind (df_select df (metrics @ [''iteration'', ''AgentID''])) (\<lambda>sel.
        df_groupby_mean sel ''iteration'')))))"

text \<open>The plotting loop reads \<open>df_correct[f'{metric}_standardized']\<close>.\<close>

definition convergence_plot :: "frame \<Rightarrow> unit result" where
  "convergence_plot df_correct =
     rfold (\<lambda>metric u. rbind (df_col df_correct (metric @ ''_standardized'')) (\<lambda>_. Inr u)) metrics ()"

definition convergence_analysis :: "frame \<Rightarrow> unit result" where
  "convergence_analysis result_batch = rbind (convergence_frames result_batch) convergence_plot"

section \<open>Lemmas\<close>

lemma df_col_Inr: "n \<in> df_cols df \<Longrightarrow> \<exists>c. df_col df n = Inr c"
  by (auto simp: df_col_def dest: weak_map_of_SomeI)

lemma df_col_missing: "n \<notin> df_cols df \<Longrightarrow> df_col df n = Inl KeyError"
  by (simp add: df_col_def iffD2 [OF map_of_eq_None_iff])

lemma df_col_set_same [simp]: "df_col (df_set df n c) n = Inr c"
  by (simp add: df_col_def df_set_def update_conv')

lemma df_cols_set [simp]: "df_cols (df_set df n c) = insert n (df_cols df)"
  by (simp add: df_set_def dom_update)

lemma df_cols_filter [simp]: "df_cols (df_filter df keep) = df_cols df"
  by (force simp: df_filter_def)

lemma df_reset_index_Inr:
  "''index'' \<notin> df_cols df \<Longrightarrow> df_reset_index df = Inr (map real [0..<length (fst df)], (''index'', map Some (fst df)) # snd df)"
  "''index'' \<in> df_cols df \<Longrightarrow> ''level_0'' \<notin> df_cols df \<Longrightarrow>
   df_reset_index df = Inr (map real [0..<length (fst df)], (''level_0'', map Some (fst df)) # snd df)"
  by (simp_all add: df_reset_index_def map_of_eq_None_iff)

lemma metric_stats_Inr:
  assumes "m \<in> df_cols df"
  shows "\<exists>df'. metric_stats m df = Inr df'
           \<and> df_cols df' = df_cols df \<union> {m @ ''_running_mean'', m @ ''_standardized''}"
proof -
  obtain c where "df_col df m = Inr c" using df_col_Inr [OF assms] by blast
  then show ?thesis by (simp add: metric_stats_def Let_def insert_commute)
qed

lemma rfold_metric_stats_Inr:
  "set ms \<subseteq> df_cols df \<Longrightarrow>
   \<exists>df'. rfold metric_stats ms df = Inr df'
     \<and> df_cols df' = df_cols df \<union> (\<lambda>m. m @ ''_running_mean'') ` set ms \<union> (\<lambda>m. m @ ''_standardized'') ` set ms"
proof (induction ms arbitrary: df)
  case Nil
  then show ?case by simp
next
  case (Cons m ms)
  obtain df1 where s: "metric_stats m df = Inr df1"
    and c1: "df_cols df1 = df_cols df \<union> {m @ ''_running_mean'', m @ ''_standardized''}"
    using metric_stats_Inr [of m df] Cons.prems by auto
  have "set ms \<subseteq> df_cols df1" using Cons.prems c1 by auto
  then obtain df2 where r: "rfold metric_stats ms df1 = Inr df2"
    and c2: "df_cols df2 = df_cols df1 \<union> (\<lambda>m. m @ ''_running_mean'') ` set ms \<union> (\<lambda>m. m @ ''_standardized'') ` set ms"
    using Cons.IH [of df1] by blast
  show ?case using s r c1 c2 by auto
qed

lemma df_select_Inr:
  assumes "set names \<subseteq> df_cols df"
  shows "\<exists>cs. df_select df names = Inr (fst df, cs) \<and> map fst cs = names"
proof -
  have "\<And>n. n \<in> set names \<Longrightarrow> rbind (df_col df n) (\<lambda>c. Inr (n, c)) = Inr (n, the (map_of (snd df) n))"
    using assms by (auto simp: df_col_def dest!: weak_map_of_SomeI split: option.splits)
  then have "py_map (\<lambda>n. rbind (df_col df n) (\<lambda>c. Inr (n, c))) names = Inr (map (\<lambda>n. (n, the (map_of (snd df) n))) names)"
    by (rule py_map_Inr)
  then show ?thesis by (simp add: df_select_def comp_def)
qed

lemma fst_set_filter_key: "fst ` {p \<in> set xs. fst p \<noteq> key} = fst ` set xs - {key}"
  by auto

lemma df_groupby_mean_Inr:
  assumes "key \<in> df_cols df"
  shows "\<exists>df'. df_groupby_mean df key = Inr df' \<and> df_cols df' = df_cols df - {key}"
proof -
  obtain keys where "df_col df key = Inr keys" using df_col_Inr [OF assms] by blast
  then show ?thesis by (simp add: df_groupby_mean_def Let_def image_image fst_set_filter_key split_def)
qed




section \<open>Properties\<close>


text \<open>
  (C39) The script fails at its plot: on a batch result with the columns it reads
  (\<open>Step\<close>, \<open>iteration\<close>, \<open>AgentID\<close> and the four metrics) and no \<open>index\<close> or
  \<open>level_0\<close> column, the statistics succeed and \<open>df_correct\<close> holds only the four
  raw metrics and \<open>AgentID\<close> averaged per iteration, so the first
  \<open>df_correct[f'{metric}_standardized']\<close> of the plotting loop raises \<open>KeyError\<close>.
\<close>

theorem convergence_analysis_key_error:
  assumes "{''Step'', ''iteration'', ''AgentID''} \<union> set metrics \<subseteq> df_cols result_batch"
    and "''index'' \<notin> df_cols result_batch" and "''level_0'' \<notin> df_cols result_batch"
  shows "\<exists>df_correct. convergence_frames result_batch = Inr df_correct
           \<and> df_cols df_correct = insert ''AgentID'' (set metrics)
           \<and> convergence_analysis result_batch = Inl KeyError"
proof -
  let ?rm = "(\<lambda>m. m @ ''_running_mean'') ` set metrics" and ?st = "(\<lambda>m. m @ ''_standardized'') ` set metrics"
  obtain steps where st: "df_col result_batch ''Step'' = Inr steps"
    using df_col_Inr [of "''Step''" result_batch] assms(1) by auto
  let ?df0 = "df_filter result_batch (map (\<lambda>v. v \<noteq> None \<and> v = nan_max steps) steps)"
  obtain df1 where r1: "df_reset_index ?df0 = Inr df1" and c1: "df_cols df1 = insert ''index'' (df_cols result_batch)"
    using df_reset_index_Inr(1) [of ?df0] assms(2) by simp
  have "set metrics \<subseteq> df_cols df1" using assms(1) c1 by blast
  then obtain df2 where r2: "rfold metric_stats metrics df1 = Inr df2" and c2: "df_cols df2 = df_cols df1 \<union> ?rm \<union> ?st"
    using rfold_metric_stats_Inr [of metrics df1] by blast
  have "''level_0'' \<notin> df_cols df2" using c2 c1 assms(3) by (auto simp: metrics_def)
  then obtain df3 where r3: "df_reset_index df2 = Inr df3" and c3: "df_cols df3 = insert ''level_0'' (df_cols df2)"
    using df_reset_index_Inr(2) [of df2] c2 c1 by simp
  have "set (metrics @ [''iteration'', ''AgentID'']) \<subseteq> df_cols df3" using assms(1) c1 c2 c3 by (auto simp: metrics_def)
  then obtain cs where r4: "df_select df3 (metrics @ [''iteration'', ''AgentID'']) = Inr (fst df3, cs)"
    and c4: "map fst cs = metrics @ [''iteration'', ''AgentID'']"
    using df_select_Inr [of "metrics @ [''iteration'', ''AgentID'']" df3] by blast
  have "df_cols (fst df3, cs) = set (metrics @ [''iteration'', ''AgentID''])"
    using arg_cong [OF c4, of set] by simp
  moreover have "set (metrics @ [''iteration'', ''AgentID'']) - {''iteration''} = insert ''AgentID'' (set metrics)"
    by (auto simp: metrics_def)
  ultimately obtain df4 where r5: "df_groupby_mean (fst df3, cs) ''iteration'' = Inr df4"
    and c5: "df_cols df4 = insert ''AgentID'' (set metrics)"
    using df_groupby_mean_Inr [of "''iteration''" "(fst df3, cs)"] by auto
  have f: "convergence_frames result_batch = Inr df4"
    using st r1 r2 r3 r4 r5 by (simp add: convergence_frames_def Let_def)
  have "df_col df4 ''average_evac_time_standardized'' = Inl KeyError"
    using c5 by (intro df_col_missing) (simp add: metrics_def)
  then have "convergence_plot df4 = Inl KeyError" by (simp add: convergence_plot_def metrics_def)
  then show ?thesis using f c5 by (simp add: convergence_analysis_def)
qed

end
