(* ===== verification/AgentInitData.thy ===== *)
theory AgentInitData
  imports Prelude "HOL-Library.AList"
begin

text \<open>
  The table processing of \<open>agent_init_data\<close> in \<open>src/helper_functions.py\<close>: when no
  cached extract exists for the state and county, the nation-wide ACS table is read, the
  seven education columns at positions 7 to 13 are summed into \<open>some_highschool\<close>, the
  tracts of the county and state are selected, every tract with an all-zero demographic
  group is dropped, each group's counts are turned into proportions, and the tract's
  share of the population becomes \<open>PopDense\<close>.  A GeoDataFrame is its row labels and
  its named columns in order; a cell is a number, a text or pandas' missing value.
  Reading and writing the GeoPackage files is I/O: the cached extract (when the directory
  exists) and the national table are arguments.  The theorems show that the kept tracts
  are exactly those without a zero group, that every group of every kept tract then sums
  to one, and that no division by zero happens.
\<close>

section \<open>Definitions\<close>

text \<open>A cell: a number, a text or another non-numeric value such as a geometry
  (\<open>Txt\<close>), or pandas' missing value.  A GeoPackage layer cannot have two fields of
  one name, so the column labels of the national table are distinct, and pandas'
  label-based selection \<open>df[df.columns[a:b]]\<close> is the positional slice.\<close>

datatype cell = Num real | Txt string | NA

type_synonym gdf = "nat list \<times> (string \<times> cell list) list"

text \<open>\<open>df[name]\<close>.\<close>

definition gdf_col :: "gdf \<Rightarrow> string \<Rightarrow> cell list result" where
  "gdf_col df name = (case map_of (snd df) name of None \<Rightarrow> Inl KeyError | Some c \<Rightarrow> Inr c)"

text \<open>\<open>df[name] = c\<close>: replace the column in place or append it.\<close>

definition gdf_set :: "gdf \<Rightarrow> string \<Rightarrow> cell list \<Rightarrow> gdf" where
  "gdf_set df name c = (fst df, AList.update name c (snd df))"

text \<open>The rows at the positions \<open>idx\<close>, in that order (boolean indexing and
  \<open>drop\<close> keep the rows in table order).\<close>

definition select_rows :: "gdf \<Rightarrow> nat list \<Rightarrow> gdf" where
  "select_rows df idx = (map (\<lambda>j. fst df ! j) idx, map (\<lambda>(n, c). (n, map (\<lambda>j. c ! j) idx)) (snd df))"

definition row_positions :: "gdf \<Rightarrow> (nat \<Rightarrow> bool) \<Rightarrow> nat list" where
  "row_positions df P = filter P [0..<length (fst df)]"

text \<open>\<open>df.columns[a:b]\<close> with \<open>0 \<le> a \<le> b\<close>.\<close>

definition col_slice :: "nat \<Rightarrow> nat \<Rightarrow> 'c list \<Rightarrow> 'c list" where
  "col_slice a b cols = take (b - a) (drop a cols)"

definition row_cells :: "(string \<times> cell list) list \<Rightarrow> nat \<Rightarrow> cell list" where
  "row_cells cols i = map (\<lambda>c. snd c ! i) cols"

text \<open>A sum with pandas' \<open>skipna\<close>: missing values count as nothing, a text raises.\<close>

fun num_val :: "cell \<Rightarrow> real" where
  "num_val (Num x) = x"
| "num_val (Txt s) = 0"
| "num_val NA = 0"

fun is_txt :: "cell \<Rightarrow> bool" where
  "is_txt (Txt s) = True"
| "is_txt _ = False"

definition cells_sum :: "cell list \<Rightarrow> real result" where
  "cells_sum cs = (if list_ex is_txt cs then Inl TypeError else Inr (sum_list (map num_val cs)))"

text \<open>\<open>df[df.columns[a:b]].sum(axis=1)\<close>.\<close>

definition slice_sums :: "gdf \<Rightarrow> nat \<Rightarrow> nat \<Rightarrow> real list result" where
  "slice_sums df a b = py_map (\<lambda>i. cells_sum (row_cells (col_slice a b (snd df)) i)) [0..<length (fst df)]"

text \<open>Division of a cell by a float: numpy gives a non-finite value for a zero divisor,
  which the model does not tell apart from the missing value.\<close>

fun cell_div :: "cell \<Rightarrow> real \<Rightarrow> cell result" where
  "cell_div (Num x) d = Inr (if d = 0 then NA else Num (x / d))"
| "cell_div (Txt s) d = Inl TypeError"
| "cell_div NA d = Inr NA"

definition div_column :: "cell list \<Rightarrow> real list \<Rightarrow> cell list result" where
  "div_column c ds = py_map (\<lambda>(x, d). cell_div x d) (zip c ds)"

text \<open>Lines 160-162: \<open>some_highschool\<close> replaces the education columns at position 7
  (\<open>drop\<close> removes them by name; \<open>insert\<close> raises \<open>ValueError\<close> for an existing
  column and \<open>IndexError\<close> for a position past the end).\<close>

definition combine_education :: "gdf \<Rightarrow> gdf result" where
  "combine_education final_gdf =
     rbind (slice_sums final_gdf 7 14) (\<lambda>some_highschool.
     let names = map fst (col_slice 7 14 (snd final_gdf));
         cols = filter (\<lambda>c. fst c \<notin> set names) (snd final_gdf)
     in if ''some_highschool'' \<in> fst ` set cols then Inl ValueError
        else if length cols < 7 then Inl IndexError
        else Inr (fst final_gdf, take 7 cols @ (''some_highschool'', map Num some_highschool) # drop 7 cols))"

text \<open>\<open>df[df[name].isin(values)]\<close>.\<close>

fun cell_in :: "string list \<Rightarrow> cell \<Rightarrow> bool" where
  "cell_in vals (Txt s) = (s \<in> set vals)"
| "cell_in vals _ = False"

definition isin_rows :: "gdf \<Rightarrow> string \<Rightarrow> string list \<Rightarrow> gdf result" where
  "isin_rows df name vals =
     rbind (gdf_col df name) (\<lambda>c. Inr (select_rows df (row_positions df (\<lambda>j. cell_in vals (c ! j)))))"

definition groups :: "(nat \<times> nat) list" where
  "groups = [(6, 16), (17, 33), (34, 53), (55, 70)]"

text \<open>Lines 167-174: the labels of the tracts whose group sums to zero.\<close>

definition zero_labels :: "gdf \<Rightarrow> nat \<times> nat \<Rightarrow> nat list result" where
  "zero_labels df g =
     rbind (slice_sums df (fst g) (snd g)) (\<lambda>a. Inr (map fst (filter (\<lambda>p. snd p = 0) (zip (fst df) a))))"

definition tracts_to_remove :: "gdf \<Rightarrow> nat list result" where
  "tracts_to_remove df = rbind (py_map (zero_labels df) groups) (\<lambda>ls. Inr (concat ls))"

text \<open>Line 175: \<open>gdf_AOI.drop(indexes_to_remove)\<close> drops every row with such a label.\<close>

definition drop_labels :: "gdf \<Rightarrow> nat list \<Rightarrow> gdf" where
  "drop_labels df labels = select_rows df (row_positions df (\<lambda>j. fst df ! j \<notin> set labels))"

text \<open>Lines 177-180: the columns of one group divided row-wise by the group's sum.\<close>

definition normalize_group :: "nat \<times> nat \<Rightarrow> gdf \<Rightarrow> gdf result" where
  "normalize_group g df =
     rbind (slice_sums df (fst g) (snd g)) (\<lambda>a.
     rbind (py_map (\<lambda>(n, c). rbind (div_column c a) (\<lambda>c'. Inr (n, c'))) (col_slice (fst g) (snd g) (snd df))) (\<lambda>cs.
     Inr (fst df, take (fst g) (snd df) @ cs @ drop (snd g) (snd df))))"

text \<open>Line 181: \<open>PopDense\<close>, the tract's share of the total population.\<close>

definition add_pop_dense :: "gdf \<Rightarrow> gdf result" where
  "add_pop_dense df =
     rbind (gdf_col df ''AgeTotal'') (\<lambda>c.
     rbind (cells_sum c) (\<lambda>total.
     rbind (div_column c (replicate (length c) total)) (\<lambda>dense.
     Inr (gdf_set df ''PopDense'' dense))))"

text \<open>Lines 160-165: the combined table restricted to the county and the state.\<close>

definition area_of_interest :: "string list \<Rightarrow> string list \<Rightarrow> gdf \<Rightarrow> gdf result" where
  "area_of_interest state county final_gdf =
     rbind (combine_education final_gdf) (\<lambda>final_gdf.
     rbind (isin_rows final_gdf ''County'' county) (\<lambda>gdf_AOI.
     isin_rows gdf_AOI ''State'' state))"

text \<open>The \<open>else\<close> branch of \<open>agent_init_data\<close> after reading the national table.\<close>

definition process_acs :: "string list \<Rightarrow> string list \<Rightarrow> gdf \<Rightarrow> gdf result" where
  "process_acs state county final_gdf =
     rbind (area_of_interest state county final_gdf) (\<lambda>gdf_AOI.
     rbind (tracts_to_remove gdf_AOI) (\<lambda>indexes_to_remove.
     rbind (rfold normalize_group groups (drop_labels gdf_AOI indexes_to_remove)) add_pop_dense))"

text \<open>\<open>agent_init_data\<close>: the cached extract when its directory exists, else the
  processed national table.\<close>

definition agent_init_data :: "gdf option \<Rightarrow> gdf \<Rightarrow> string list \<Rightarrow> string list \<Rightarrow> gdf result" where
  "agent_init_data cached national state county =
     (case cached of Some df \<Rightarrow> Inr df | None \<Rightarrow> process_acs state county national)"

text \<open>The frame's invariant (every column has one cell per row), the sum of a group's
  cells in one row, and the condition under which a group can be normalised.\<close>

definition gdf_wf :: "gdf \<Rightarrow> bool" where
  "gdf_wf df = (\<forall>c\<in>set (snd df). length (snd c) = length (fst df))"

definition group_sum :: "gdf \<Rightarrow> nat \<times> nat \<Rightarrow> nat \<Rightarrow> real" where
  "group_sum df g i = sum_list (map num_val (row_cells (col_slice (fst g) (snd g) (snd df)) i))"

definition group_ok :: "gdf \<Rightarrow> nat \<times> nat \<Rightarrow> bool" where
  "group_ok df g =
     (\<forall>i<length (fst df). \<not> list_ex is_txt (row_cells (col_slice (fst g) (snd g) (snd df)) i) \<and> group_sum df g i \<noteq> 0)"

section \<open>Lemmas\<close>

lemma gdf_wf_select_rows [simp]: "gdf_wf (select_rows df idx)"
  by (auto simp: gdf_wf_def select_rows_def)

lemma select_rows_labels [simp]: "fst (select_rows df idx) = map (\<lambda>j. fst df ! j) idx"
  by (simp add: select_rows_def)

lemma select_rows_names [simp]: "map fst (snd (select_rows df idx)) = map fst (snd df)"
  by (simp add: select_rows_def case_prod_beta comp_def)

lemma col_slice_map: "col_slice a b (map f cols) = map f (col_slice a b cols)"
  by (simp add: col_slice_def take_map drop_map)

lemma row_cells_select:
  "i < length idx \<Longrightarrow>
   row_cells (col_slice a b (snd (select_rows df idx))) i = row_cells (col_slice a b (snd df)) (idx ! i)"
  by (simp add: select_rows_def col_slice_map row_cells_def case_prod_beta)

lemma cells_sum_eq_Inr: "(cells_sum cs = Inr x) = (\<not> list_ex is_txt cs \<and> x = sum_list (map num_val cs))"
  by (auto simp: cells_sum_def)

lemma slice_sums_Inr:
  "slice_sums df a b = Inr s \<Longrightarrow> length s = length (fst df)
   \<and> (\<forall>i<length (fst df). \<not> list_ex is_txt (row_cells (col_slice a b (snd df)) i)
        \<and> s ! i = sum_list (map num_val (row_cells (col_slice a b (snd df)) i)))"
  unfolding slice_sums_def by (drule py_map_eq_Inr) (auto simp: cells_sum_eq_Inr)

lemma slice_sums_ok:
  "(\<forall>i<length (fst df). \<not> list_ex is_txt (row_cells (col_slice a b (snd df)) i)) \<Longrightarrow>
   slice_sums df a b = Inr (map (\<lambda>i. sum_list (map num_val (row_cells (col_slice a b (snd df)) i))) [0..<length (fst df)])"
  unfolding slice_sums_def by (rule py_map_Inr) (simp add: cells_sum_def)

lemma cell_div_ok: "\<not> is_txt x \<Longrightarrow> \<exists>y. cell_div x d = Inr y"
  by (cases x) auto

lemma cell_div_num: "cell_div x d = Inr y \<Longrightarrow> d \<noteq> 0 \<Longrightarrow> num_val y = num_val x / d \<and> \<not> is_txt y"
  by (cases x) (auto split: if_splits)

lemma div_column_Inr:
  assumes "div_column c ds = Inr c'"
  shows "length c' = min (length c) (length ds) \<and> (\<forall>i<length c'. cell_div (c ! i) (ds ! i) = Inr (c' ! i))"
  using py_map_eq_Inr [OF assms [unfolded div_column_def]] by auto

lemma div_column_ok: "(\<forall>i<length c. \<not> is_txt (c ! i)) \<Longrightarrow> \<exists>c'. div_column c ds = Inr c'"
  unfolding div_column_def by (rule py_map_ok) (auto simp: in_set_zip intro!: cell_div_ok)

lemma sum_list_map_nth: "sum_list (map f xs) = sum_list (map (\<lambda>k. f (xs ! k)) [0..<length xs])"
proof -
  have "map f xs = map (\<lambda>k. f (xs ! k)) [0..<length xs]" by (rule nth_equalityI) auto
  then show ?thesis by simp
qed

lemma col_slice_replace:
  assumes "a \<le> b" "b \<le> length cols" "length cs = b - a"
  shows "col_slice a b (take a cols @ cs @ drop b cols) = cs"
    and "take a (take a cols @ cs @ drop b cols) = take a cols"
    and "drop b (take a cols @ cs @ drop b cols) = drop b cols"
  using assms by (simp_all add: col_slice_def)

lemma col_slice_subset: "set (col_slice a b cols) \<subseteq> set cols"
  by (auto simp: col_slice_def dest: in_set_takeD in_set_dropD)

lemma col_slice_split:
  "a \<le> b \<Longrightarrow> take a cols @ col_slice a b cols @ drop b cols = cols"
proof -
  assume "a \<le> b"
  then have "take a cols @ take (b - a) (drop a cols) = take b cols"
    using take_add [of a "b - a" cols] by simp
  then show ?thesis by (simp add: col_slice_def flip: append_assoc)
qed

lemma normalize_group_Inr:
  assumes wf: "gdf_wf df" and ab: "fst g \<le> snd g" "snd g \<le> length (snd df)" and ok: "group_ok df g"
  shows "\<exists>df'. normalize_group g df = Inr df' \<and> fst df' = fst df \<and> gdf_wf df'
     \<and> map fst (snd df') = map fst (snd df)
     \<and> take (fst g) (snd df') = take (fst g) (snd df) \<and> drop (snd g) (snd df') = drop (snd g) (snd df)
     \<and> (\<forall>i<length (fst df). group_sum df' g i = 1
          \<and> \<not> list_ex is_txt (row_cells (col_slice (fst g) (snd g) (snd df')) i))"
proof -
  obtain a b where g: "g = (a, b)" by (cases g)
  define n where "n = length (fst df)"
  define sl where "sl = col_slice a b (snd df)"
  define S where "S = map (group_sum df g) [0..<n]"
  have notxt: "\<forall>i<n. \<not> list_ex is_txt (row_cells sl i)" and nz: "\<forall>i<n. group_sum df g i \<noteq> 0"
    using ok by (simp_all add: group_ok_def g sl_def n_def)
  have lenS: "length S = n" by (simp add: S_def)
  have sums: "slice_sums df a b = Inr S"
    using slice_sums_ok [of df a b] notxt by (simp add: S_def sl_def n_def group_sum_def g)
  have sl_len: "length sl = b - a" using ab by (simp add: sl_def col_slice_def g)
  have sl_col: "length (snd (sl ! k)) = n \<and> (\<forall>i<n. \<not> is_txt (snd (sl ! k) ! i))" if k: "k < length sl" for k
  proof -
    have "sl ! k \<in> set (snd df)" using k col_slice_subset [of a b "snd df"] nth_mem [OF k] by (auto simp: sl_def)
    then have "length (snd (sl ! k)) = n" using wf by (simp add: gdf_wf_def n_def)
    moreover have "\<not> is_txt (snd (sl ! k) ! i)" if "i < n" for i
    proof -
      have "snd (sl ! k) ! i \<in> set (row_cells sl i)" using k by (simp add: row_cells_def)
      then show ?thesis using notxt that by (auto simp: list_ex_iff)
    qed
    ultimately show ?thesis by blast
  qed
  define F where "F = (\<lambda>(nm :: string, c). rbind (div_column c S) (\<lambda>c'. Inr (nm, c')))"
  have "\<exists>cs. py_map F sl = Inr cs"
  proof (rule py_map_ok)
    fix x assume "x \<in> set sl"
    then obtain k where k: "k < length sl" "x = sl ! k" by (metis in_set_conv_nth)
    then obtain c' where "div_column (snd x) S = Inr c'" using sl_col [OF k(1)] div_column_ok by metis
    then show "\<exists>y. F x = Inr y" by (simp add: F_def case_prod_beta)
  qed
  then obtain cs where cs: "py_map F sl = Inr cs" by blast
  have cs_len: "length cs = length sl" and cs_k: "\<And>k. k < length sl \<Longrightarrow> F (sl ! k) = Inr (cs ! k)"
    using py_map_eq_Inr [OF cs] by auto
  have col_k: "fst (cs ! k) = fst (sl ! k) \<and> div_column (snd (sl ! k)) S = Inr (snd (cs ! k))"
    if "k < length sl" for k
    using cs_k [OF that] by (cases "cs ! k") (auto simp: F_def case_prod_beta rbind_eq_Inr)
  define cols' where "cols' = take a (snd df) @ cs @ drop b (snd df)"
  have nf: "normalize_group g df = Inr (fst df, cols')"
    using sums cs by (simp add: normalize_group_def g sl_def F_def cols'_def)
  have parts: "col_slice a b cols' = cs" "take a cols' = take a (snd df)" "drop b cols' = drop b (snd df)"
    using col_slice_replace [of a b "snd df" cs] ab cs_len sl_len by (simp_all add: g cols'_def)
  have cs_col: "length (snd (cs ! k)) = n \<and> (\<forall>i<n. cell_div (snd (sl ! k) ! i) (S ! i) = Inr (snd (cs ! k) ! i))"
    if "k < length sl" for k
    using div_column_Inr [of "snd (sl ! k)" S "snd (cs ! k)"] col_k [OF that] sl_col [OF that] lenS
    by auto
  have names: "map fst cs = map fst sl"
    by (rule nth_equalityI) (simp_all add: cs_len col_k)
  have "map fst cols' = map fst (snd df)"
    using col_slice_split [of a b "map fst (snd df)"] ab names
    by (simp add: cols'_def g sl_def col_slice_map [symmetric] take_map drop_map)
  moreover have "gdf_wf (fst df, cols')"
  proof -
    have "length (snd c) = n" if "c \<in> set cs" for c
      using that cs_col by (metis cs_len in_set_conv_nth)
    then show ?thesis using wf
      by (auto simp: gdf_wf_def cols'_def n_def dest: in_set_takeD in_set_dropD)
  qed
  moreover have "group_sum (fst df, cols') g i = 1 \<and> \<not> list_ex is_txt (row_cells (col_slice a b cols') i)"
    if i: "i < n" for i
  proof -
    have si: "S ! i = group_sum df g i" using i by (simp add: S_def)
    have each: "num_val (snd (cs ! k) ! i) = num_val (snd (sl ! k) ! i) / S ! i \<and> \<not> is_txt (snd (cs ! k) ! i)"
      if "k < length sl" for k
      using cell_div_num cs_col [OF that] i nz si by metis
    have "group_sum (fst df, cols') g i = sum_list (map (\<lambda>k. num_val (snd (cs ! k) ! i)) [0..<length cs])"
      by (simp add: group_sum_def g parts row_cells_def sum_list_map_nth [of _ cs])
    also have "\<dots> = sum_list (map (\<lambda>k. num_val (snd (sl ! k) ! i) / S ! i) [0..<length sl])"
      using each cs_len by (intro arg_cong [where f = sum_list] map_cong) auto
    also have "\<dots> = group_sum df g i / S ! i"
      by (simp add: sum_list_divide group_sum_def g sl_def row_cells_def sum_list_map_nth [of _ "col_slice a b (snd df)"])
    also have "\<dots> = 1" using si nz i by simp
    finally have "group_sum (fst df, cols') g i = 1" .
    moreover have "\<not> list_ex is_txt (row_cells cs i)"
      using each cs_len by (simp add: row_cells_def list_ex_length)
    ultimately show ?thesis by (simp add: parts)
  qed
  ultimately show ?thesis using nf parts by (auto simp: g n_def)
qed

lemma col_slice_take: "col_slice a b xs = drop a (take b xs)"
proof (cases "a \<le> b")
  case True
  then show ?thesis by (simp add: col_slice_def take_drop)
next
  case False
  then show ?thesis by (simp add: col_slice_def)
qed

lemma col_slice_take_eq: "take b xs = take b ys \<Longrightarrow> col_slice a b xs = col_slice a b ys"
  by (simp add: col_slice_take)

lemma col_slice_drop_eq: "drop b xs = drop b ys \<Longrightarrow> b \<le> a \<Longrightarrow> col_slice a c xs = col_slice a c ys"
proof -
  assume "drop b xs = drop b ys" "b \<le> a"
  then have "drop a xs = drop a ys" by (metis drop_drop le_add_diff_inverse2)
  then show ?thesis by (simp add: col_slice_def)
qed

lemma group_cong:
  assumes "fst df' = fst df" "col_slice (fst g) (snd g) (snd df') = col_slice (fst g) (snd g) (snd df)"
  shows "group_sum df' g = group_sum df g" "group_ok df' g = group_ok df g"
  using assms by (simp_all add: group_sum_def group_ok_def fun_eq_iff)

lemma rfold_normalize_Inr:
  assumes "gdf_wf df" "sorted_wrt (\<lambda>g h. snd g \<le> fst h) gs"
    "\<forall>g\<in>set gs. fst g \<le> snd g \<and> snd g \<le> length (snd df) \<and> group_ok df g"
  shows "\<exists>r. rfold normalize_group gs df = Inr r \<and> fst r = fst df \<and> gdf_wf r
     \<and> map fst (snd r) = map fst (snd df)
     \<and> (\<forall>k. (\<forall>g\<in>set gs. k \<le> fst g) \<longrightarrow> take k (snd r) = take k (snd df))
     \<and> (\<forall>k. (\<forall>g\<in>set gs. snd g \<le> k) \<longrightarrow> drop k (snd r) = drop k (snd df))
     \<and> (\<forall>g\<in>set gs. \<forall>i<length (fst df). group_sum r g i = 1)"
  using assms
proof (induction gs arbitrary: df)
  case Nil
  then show ?case by simp
next
  case (Cons g gs)
  obtain df1 where n: "normalize_group g df = Inr df1" and l1: "fst df1 = fst df" and w1: "gdf_wf df1"
    and m1: "map fst (snd df1) = map fst (snd df)"
    and t1: "take (fst g) (snd df1) = take (fst g) (snd df)" and d1: "drop (snd g) (snd df1) = drop (snd g) (snd df)"
    and s1: "\<forall>i<length (fst df). group_sum df1 g i = 1"
    using normalize_group_Inr [of df g] Cons.prems by auto
  have len1: "length (snd df1) = length (snd df)" using arg_cong [OF m1, of length] by simp
  have later: "snd g \<le> fst h" if "h \<in> set gs" for h using Cons.prems(2) that by simp
  have same: "col_slice (fst h) (snd h) (snd df1) = col_slice (fst h) (snd h) (snd df)" if "h \<in> set gs" for h
    using col_slice_drop_eq [OF d1 later [OF that]] .
  have "\<forall>h\<in>set gs. fst h \<le> snd h \<and> snd h \<le> length (snd df1) \<and> group_ok df1 h"
    using Cons.prems(3) same group_cong(2) [OF l1] len1 by auto
  moreover have "sorted_wrt (\<lambda>g h. snd g \<le> fst h) gs" using Cons.prems(2) by simp
  ultimately obtain r where r: "rfold normalize_group gs df1 = Inr r" and lr: "fst r = fst df1" and wr: "gdf_wf r"
    and mr: "map fst (snd r) = map fst (snd df1)"
    and tr: "\<forall>k. (\<forall>h\<in>set gs. k \<le> fst h) \<longrightarrow> take k (snd r) = take k (snd df1)"
    and dr: "\<forall>k. (\<forall>h\<in>set gs. snd h \<le> k) \<longrightarrow> drop k (snd r) = drop k (snd df1)"
    and sr: "\<forall>h\<in>set gs. \<forall>i<length (fst df1). group_sum r h i = 1"
    using Cons.IH [OF w1] by blast
  have "take (snd g) (snd r) = take (snd g) (snd df1)" using tr later by blast
  then have "group_sum r g = group_sum df1 g"
    using group_cong(1) [of r df1 g] lr col_slice_take_eq by blast
  moreover have "take k (snd r) = take k (snd df)" if "\<forall>h\<in>set (g # gs). k \<le> fst h" for k
  proof -
    have "take k (snd r) = take k (snd df1)" using tr that by simp
    also have "\<dots> = take k (take (fst g) (snd df1))" using that by simp
    finally show ?thesis using t1 that by simp
  qed
  moreover have "drop k (snd r) = drop k (snd df)" if "\<forall>h\<in>set (g # gs). snd h \<le> k" for k
  proof -
    have "drop k (snd r) = drop k (snd df1)" using dr that by simp
    also have "\<dots> = drop (k - snd g) (drop (snd g) (snd df1))" using that by simp
    finally show ?thesis using d1 that by simp
  qed
  ultimately show ?case using n r lr l1 wr mr m1 sr s1 by auto
qed

lemma bex_set_nth: "(\<exists>x\<in>set xs. P x) = (\<exists>k<length xs. P (xs ! k))"
  by (auto simp: in_set_conv_nth intro: bexI [OF _ nth_mem])

lemma zero_labels_Inr:
  assumes "zero_labels df g = Inr l"
  shows "(\<forall>j<length (fst df). \<not> list_ex is_txt (row_cells (col_slice (fst g) (snd g) (snd df)) j))
       \<and> set l = {fst df ! j | j. j < length (fst df) \<and> group_sum df g j = 0}"
proof -
  obtain S where S: "slice_sums df (fst g) (snd g) = Inr S" and l: "l = map fst (filter (\<lambda>p. snd p = 0) (zip (fst df) S))"
    using assms by (auto simp: zero_labels_def rbind_eq_Inr)
  note s = slice_sums_Inr [OF S]
  have sg: "\<And>j. j < length (fst df) \<Longrightarrow> S ! j = group_sum df g j" using s by (simp add: group_sum_def)
  have "set l = fst ` {p \<in> set (zip (fst df) S). snd p = 0}" by (simp add: l)
  also have "\<dots> = {fst df ! j | j. j < length (fst df) \<and> S ! j = 0}"
    using s by (auto simp: set_zip simp del: sum_list_eq_0_iff intro!: rev_image_eqI [where x = "(fst df ! j, S ! j)" for j])
  finally have "set l = {fst df ! j | j. j < length (fst df) \<and> S ! j = 0}" .
  then show ?thesis using s sg by auto
qed

lemma tracts_to_remove_Inr:
  assumes "tracts_to_remove df = Inr L" and "g \<in> set groups"
  shows "(\<forall>j<length (fst df). \<not> list_ex is_txt (row_cells (col_slice (fst g) (snd g) (snd df)) j))
       \<and> (\<forall>j<length (fst df). group_sum df g j = 0 \<longrightarrow> fst df ! j \<in> set L)"
proof -
  obtain ls where ls: "py_map (zero_labels df) groups = Inr ls" and L: "L = concat ls"
    using assms(1) by (auto simp: tracts_to_remove_def rbind_eq_Inr)
  obtain k where k: "k < length groups" "g = groups ! k" using assms(2) by (metis in_set_conv_nth)
  have "zero_labels df g = Inr (ls ! k)" "length ls = length groups" using py_map_eq_Inr [OF ls] k by auto
  moreover have "ls ! k \<in> set ls" using k \<open>length ls = length groups\<close> by simp
  then have "set (ls ! k) \<subseteq> set L" by (auto simp: L)
  ultimately show ?thesis using zero_labels_Inr by blast
qed

lemma tracts_to_remove_set:
  assumes "tracts_to_remove df = Inr L"
  shows "(x \<in> set L) = (\<exists>j<length (fst df). x = fst df ! j \<and> (\<exists>g\<in>set groups. group_sum df g j = 0))"
proof -
  obtain ls where ls: "py_map (zero_labels df) groups = Inr ls" and L: "L = concat ls"
    using assms by (auto simp: tracts_to_remove_def rbind_eq_Inr)
  have len: "length ls = length groups" using py_map_eq_Inr [OF ls] by simp
  have each: "\<And>k. k < length groups \<Longrightarrow> set (ls ! k) = {fst df ! j | j. j < length (fst df) \<and> group_sum df (groups ! k) j = 0}"
    using py_map_eq_Inr [OF ls] zero_labels_Inr by blast
  have "(x \<in> set L) = (\<exists>k<length groups. x \<in> set (ls ! k))"
    by (auto simp: L len [symmetric] set_conv_nth [of ls])
  also have "\<dots> = (\<exists>k<length groups. \<exists>j<length (fst df). x = fst df ! j \<and> group_sum df (groups ! k) j = 0)"
    using each by blast
  also have "\<dots> = (\<exists>j<length (fst df). x = fst df ! j \<and> (\<exists>g\<in>set groups. group_sum df g j = 0))"
    by (simp only: bex_set_nth [of groups]) blast
  finally show ?thesis .
qed

lemma drop_labels_group_ok:
  assumes "tracts_to_remove df = Inr L" and "g \<in> set groups"
  shows "group_ok (drop_labels df L) g"
proof -
  define idx where "idx = row_positions df (\<lambda>j. fst df ! j \<notin> set L)"
  have "group_sum (drop_labels df L) g i = group_sum df g (idx ! i)
        \<and> row_cells (col_slice (fst g) (snd g) (snd (drop_labels df L))) i = row_cells (col_slice (fst g) (snd g) (snd df)) (idx ! i)"
    if "i < length idx" for i
    using row_cells_select [OF that] by (simp add: drop_labels_def idx_def group_sum_def)
  moreover have "idx ! i < length (fst df) \<and> fst df ! (idx ! i) \<notin> set L" if "i < length idx" for i
    using nth_mem [OF that] by (simp add: idx_def row_positions_def)
  ultimately show ?thesis using tracts_to_remove_Inr [OF assms]
    by (auto simp: group_ok_def drop_labels_def idx_def)
qed

lemma filter_names_slice:
  assumes "distinct (map fst cols)" "a \<le> b" "b \<le> length cols"
  shows "filter (\<lambda>c. fst c \<notin> set (map fst (col_slice a b cols))) cols = take a cols @ drop b cols"
proof -
  define sl where "sl = col_slice a b cols"
  have split: "cols = take a cols @ sl @ drop b cols" using col_slice_split [of a b cols] assms(2) by (simp add: sl_def)
  then have d: "distinct (map fst (take a cols) @ map fst sl @ map fst (drop b cols))"
    using assms(1) by (metis map_append)
  have "filter (\<lambda>c. fst c \<notin> set (map fst sl)) (take a cols) = take a cols"
    using d by (auto intro!: filter_True)
  moreover have "filter (\<lambda>c. fst c \<notin> set (map fst sl)) sl = []" by (simp add: filter_empty_conv)
  moreover have "filter (\<lambda>c. fst c \<notin> set (map fst sl)) (drop b cols) = drop b cols"
    using d by (auto intro!: filter_True)
  ultimately show ?thesis by (subst split) (simp add: sl_def)
qed

lemma combine_education_Inr:
  assumes "combine_education df = Inr c" and "gdf_wf df" "distinct (map fst (snd df))" "14 \<le> length (snd df)"
  shows "fst c = fst df \<and> gdf_wf c
     \<and> (\<exists>sh. snd c = take 7 (snd df) @ (''some_highschool'', sh) # drop 14 (snd df))"
proof -
  obtain S where S: "slice_sums df 7 14 = Inr S"
    using assms(1) by (auto simp: combine_education_def rbind_eq_Inr)
  have f: "filter (\<lambda>c. fst c \<notin> fst ` set (col_slice 7 14 (snd df))) (snd df) = take 7 (snd df) @ drop 14 (snd df)"
    using filter_names_slice [of "snd df" 7 14] assms(3,4) by simp
  have c: "c = (fst df, take 7 (snd df) @ (''some_highschool'', map Num S) # drop 14 (snd df))"
    using assms(1) assms(4) S by (auto simp: combine_education_def Let_def f split: if_splits)
  have "length S = length (fst df)" using slice_sums_Inr [OF S] by simp
  then have "gdf_wf c" using assms(2) by (auto simp: gdf_wf_def c dest: in_set_takeD in_set_dropD)
  then show ?thesis using c by simp
qed

lemma isin_rows_Inr: "isin_rows df nm vals = Inr r \<Longrightarrow> \<exists>P. r = select_rows df (row_positions df P)"
  by (auto simp: isin_rows_def rbind_eq_Inr)

lemma distinct_select_positions: "distinct (fst df) \<Longrightarrow> distinct (fst (select_rows df (row_positions df P)))"
  by (auto simp: row_positions_def distinct_map inj_on_def nth_eq_iff_index_eq)

lemma area_of_interest_Inr:
  assumes "area_of_interest state county df = Inr aoi" and "gdf_wf df" "distinct (map fst (snd df))" "14 \<le> length (snd df)"
  shows "gdf_wf aoi \<and> length (snd aoi) = length (snd df) - 6
     \<and> fst ` set (snd aoi) \<subseteq> insert ''some_highschool'' (fst ` set (snd df))"
proof -
  obtain c a1 where c: "combine_education df = Inr c" and a1: "isin_rows c ''County'' county = Inr a1"
    and a2: "isin_rows a1 ''State'' state = Inr aoi"
    using assms(1) by (auto simp: area_of_interest_def rbind_eq_Inr)
  obtain sh where sc: "snd c = take 7 (snd df) @ (''some_highschool'', sh) # drop 14 (snd df)"
    using combine_education_Inr [OF c assms(2-4)] by blast
  obtain P Q where "a1 = select_rows c (row_positions c P)" "aoi = select_rows a1 (row_positions a1 Q)"
    using isin_rows_Inr [OF a1] isin_rows_Inr [OF a2] by blast
  then have "map fst (snd aoi) = map fst (snd c)" by simp
  then have "fst ` set (snd aoi) = fst ` set (snd c)" "length (snd aoi) = length (snd c)"
    by (metis set_map, metis length_map)
  moreover have "fst ` set (snd c) \<subseteq> insert ''some_highschool'' (fst ` set (snd df))"
    by (auto simp: sc dest: in_set_takeD in_set_dropD)
  ultimately show ?thesis using assms(4) \<open>aoi = _\<close> by (simp add: sc)
qed

lemma take_update_other:
  "k \<notin> fst ` set (take m xs) \<Longrightarrow> m \<le> length xs \<Longrightarrow> take m (AList.update k v xs) = take m xs"
proof (induction xs arbitrary: m)
  case Nil
  then show ?case by simp
next
  case (Cons p xs)
  then show ?case by (cases m) (auto simp: take_Cons')
qed

lemma add_pop_dense_Inr:
  "add_pop_dense df = Inr r \<Longrightarrow> fst r = fst df
   \<and> (''PopDense'' \<notin> fst ` set (take m (snd df)) \<longrightarrow> m \<le> length (snd df) \<longrightarrow> take m (snd r) = take m (snd df))"
  by (auto simp: add_pop_dense_def rbind_eq_Inr gdf_set_def take_update_other)

lemma normalize_group_labels: "preserves (\<lambda>x y. fst y = fst x) (normalize_group g)"
  by (auto simp: preserves_def normalize_group_def rbind_eq_Inr)

lemma combine_education_labels: "combine_education df = Inr c \<Longrightarrow> fst c = fst df"
  by (auto simp: combine_education_def rbind_eq_Inr Let_def split: if_splits)

lemma area_of_interest_distinct:
  assumes "area_of_interest state county df = Inr aoi" "distinct (fst df)"
  shows "distinct (fst aoi)"
proof -
  obtain c a1 where c: "combine_education df = Inr c" and a1: "isin_rows c ''County'' county = Inr a1"
    and a2: "isin_rows a1 ''State'' state = Inr aoi"
    using assms(1) by (auto simp: area_of_interest_def rbind_eq_Inr)
  obtain P Q where "a1 = select_rows c (row_positions c P)" "aoi = select_rows a1 (row_positions a1 Q)"
    using isin_rows_Inr [OF a1] isin_rows_Inr [OF a2] by blast
  then show ?thesis using distinct_select_positions combine_education_labels [OF c] assms(2) by metis
qed

lemma process_acs_Inr:
  "process_acs state county national = Inr tracts \<Longrightarrow>
   \<exists>aoi L r. area_of_interest state county national = Inr aoi \<and> tracts_to_remove aoi = Inr L
     \<and> rfold normalize_group groups (drop_labels aoi L) = Inr r \<and> add_pop_dense r = Inr tracts"
  by (auto simp: process_acs_def rbind_eq_Inr)

lemma groups_facts:
  "sorted_wrt (\<lambda>g h. snd g \<le> fst h) groups" "\<forall>g\<in>set groups. fst g \<le> snd g \<and> snd g \<le> 70"
  by (simp_all add: groups_def)

section \<open>Properties\<close>

text \<open>
  (C19) Every kept tract's demographic groups are proportions: on a national table with
  distinct column labels, the 76 columns the positions assume and no \<open>PopDense\<close>
  column, each of the four groups of each row of the result sums to one.
\<close>

theorem agent_init_data_proportions:
  assumes "agent_init_data None national state county = Inr tracts"
    and "gdf_wf national" "distinct (map fst (snd national))" "76 \<le> length (snd national)"
    and "''PopDense'' \<notin> fst ` set (snd national)"
  shows "\<forall>g\<in>set groups. \<forall>i<length (fst tracts). group_sum tracts g i = 1"
proof -
  obtain aoi L r where a: "area_of_interest state county national = Inr aoi" and L: "tracts_to_remove aoi = Inr L"
    and r: "rfold normalize_group groups (drop_labels aoi L) = Inr r" and t: "add_pop_dense r = Inr tracts"
    using process_acs_Inr [of state county national tracts] assms(1) by (auto simp: agent_init_data_def)
  have "14 \<le> length (snd national)" using assms(4) by simp
  note aoi = area_of_interest_Inr [OF a assms(2,3) this]
  define d where "d = drop_labels aoi L"
  have d: "gdf_wf d" "map fst (snd d) = map fst (snd aoi)" by (simp_all add: d_def drop_labels_def)
  have len: "70 \<le> length (snd d)" using aoi assms(4) arg_cong [OF d(2), of length] by simp
  have "\<forall>g\<in>set groups. fst g \<le> snd g \<and> snd g \<le> length (snd d) \<and> group_ok d g"
  proof
    fix g assume g: "g \<in> set groups"
    then show "fst g \<le> snd g \<and> snd g \<le> length (snd d) \<and> group_ok d g"
      using groups_facts(2) len drop_labels_group_ok [OF L g] by (auto simp: d_def)
  qed
  then obtain r' where r': "rfold normalize_group groups d = Inr r'" and lr: "fst r' = fst d"
    and mr: "map fst (snd r') = map fst (snd d)" and sr: "\<forall>g\<in>set groups. \<forall>i<length (fst d). group_sum r' g i = 1"
    using rfold_normalize_Inr [OF d(1) groups_facts(1)] by blast
  have rr: "r = r'" using r r' by (simp add: d_def)
  have sub: "fst ` set (snd aoi) \<subseteq> insert ''some_highschool'' (fst ` set (snd national))"
    using aoi by blast
  have names: "fst ` set (snd r) = fst ` set (snd aoi)" using mr d(2) rr by (metis set_map)
  have "''PopDense'' \<notin> fst ` set (snd r)"
  proof
    assume "''PopDense'' \<in> fst ` set (snd r)"
    then have "''PopDense'' \<in> fst ` set (snd aoi)" using names by simp
    then have "''PopDense'' \<in> insert ''some_highschool'' (fst ` set (snd national))" by (rule subsetD [OF sub])
    then show False using assms(5) by simp
  qed
  then have "''PopDense'' \<notin> fst ` set (take 70 (snd r))" by (meson image_mono set_take_subset subsetD)
  moreover have "70 \<le> length (snd r)" using len mr rr by (metis length_map)
  ultimately have tk: "take 70 (snd tracts) = take 70 (snd r)" and lt: "fst tracts = fst r"
    using add_pop_dense_Inr [OF t, of 70] by auto
  have "group_sum tracts g = group_sum r g" if "g \<in> set groups" for g
  proof -
    have "snd g \<le> 70" using groups_facts(2) that by blast
    then have "take (snd g) (snd tracts) = take (snd g) (snd r)"
      using arg_cong [OF tk, of "take (snd g)"] by (simp add: min_absorb1)
    then have "col_slice (fst g) (snd g) (snd tracts) = col_slice (fst g) (snd g) (snd r)"
      by (rule col_slice_take_eq)
    then show ?thesis using group_cong(1) [of tracts r g] lt by blast
  qed
  then show ?thesis using sr lt lr rr by simp
qed

text \<open>
  (C20) The dropped tracts are exactly those with a zero group: with distinct row labels,
  the result keeps, in table order, the tracts of the county and state none of whose
  four groups sums to zero.
\<close>

theorem agent_init_data_kept_tracts:
  assumes "agent_init_data None national state county = Inr tracts"
    and "area_of_interest state county national = Inr aoi" and "distinct (fst national)"
  shows "fst tracts = map (\<lambda>j. fst aoi ! j) (filter (\<lambda>j. \<forall>g\<in>set groups. group_sum aoi g j \<noteq> 0) [0..<length (fst aoi)])"
proof -
  obtain L r where L: "tracts_to_remove aoi = Inr L"
    and r: "rfold normalize_group groups (drop_labels aoi L) = Inr r" and t: "add_pop_dense r = Inr tracts"
    using process_acs_Inr assms(1,2) by (fastforce simp: agent_init_data_def)
  have "fst r = fst (drop_labels aoi L)"
    using preserves_rfold [of "\<lambda>x y. fst y = fst x" groups normalize_group] normalize_group_labels r
    by (simp add: reflp_def transp_def)
  moreover have "fst tracts = fst r" using add_pop_dense_Inr [OF t] by blast
  moreover have "filter (\<lambda>j. fst aoi ! j \<notin> set L) [0..<length (fst aoi)]
      = filter (\<lambda>j. \<forall>g\<in>set groups. group_sum aoi g j \<noteq> 0) [0..<length (fst aoi)]"
  proof (rule filter_cong)
    fix j assume "j \<in> set [0..<length (fst aoi)]"
    then show "(fst aoi ! j \<notin> set L) = (\<forall>g\<in>set groups. group_sum aoi g j \<noteq> 0)"
      using tracts_to_remove_set [OF L] area_of_interest_distinct [OF assms(2,3)]
      by (auto simp: nth_eq_iff_index_eq)
  qed simp
  ultimately show ?thesis by (simp add: drop_labels_def row_positions_def)
qed

end
