(* ===== verification/MainScript.thy ===== *)
theory MainScript
  imports ModelInit Plots
begin

text \<open>
  The script \<open>src/main.py\<close>: it builds \<open>EvacuationDec(init_individuals=1000,
  outcome_collection="SingleRun", watch_shift=0, communication_timing=0)\<close> with every
  other parameter at its default (the constructor runs the model to the end), reads the
  model-level data frame and passes it to \<open>compare_real_data\<close>, whose histogram data is
  \<open>hist_values\<close> of the collected \<open>evac_agents\<close> column.  The agent-level frame that
  \<open>phase_plot\<close> and \<open>plot_environmental_and_social_cues\<close> draw comes from the agent
  reporters, which are not modelled.  The 1000 individuals are the nodes of the networkx
  graph, an argument of the environment.
\<close>

section \<open>Definitions\<close>



section \<open>Lemmas\<close>

lemma default_params_steps [simp]: "number_of_steps (default_params classifier rnd rnd_below) = 88"
  by (simp add: default_params_def case_prod_unfold Let_def)


section \<open>Properties\<close>


end
