(* ===== verification/Scenarios.thy ===== *)
theory Scenarios
  imports CueTiming DataCollection Population Selection Progress Construction CueParsing ModelInit Laplace Plots Convergence AgentInitData MainScript
begin

text \<open>
  Concrete inputs on which the theorems of the components are applied: a ring of three
  agents with identical parameters, each the spatial neighbour of the next; a one-node
  model environment (\<open>ex_env\<close>) that \<open>model_init\<close> builds and runs; a small
  triangulation for the Laplace interpolation; a histogram and a one-row batch result; a
  national census table; an environment without nodes for \<open>main.py\<close>.
  The witnesses here discharge the hypotheses of the component theorems on these inputs.
\<close>

section \<open>Example data\<close>

definition ex_agent :: "nat \<Rightarrow> nat list \<Rightarrow> nat list \<Rightarrow> agent" where
  "ex_agent uid acq nb =
     \<lparr>unique_id = uid, factor_values = [1], weight_values = [1, 0, 1],
      media_trust = replicate 5 0, media_freq = replicate 5 1,
      acquaintances = acq, neigh_individuals = nb,
      rain = replicate 12 0, wind = replicate 12 0, storm_surge = replicate 12 0,
      rain_cue = 0, wind_cue = 0, storm_surge_state = 0,
      risk_perception = 0, evac_friends = 0, evac_hotel = 0, evac_shelter = 0, stay = 0,
      phase = 0, immediacy_cum = 0, immediacy_base = 0, immediacy = 0, media_cue = 0,
      cue_perception = 0, social_perception = 0, RI_thresh = 1 / 5, RA_thresh = 1 / 2,
      env_weight = 1 / 5, preferred_evac = None\<rparr>"

definition ex_world :: world where
  "ex_world = init_world [ex_agent 1 [1, 2] [1], ex_agent 2 [0, 2] [2], ex_agent 3 [0, 1] [0]]"

definition ex_params :: params where
  "ex_params = default_params (\<lambda>_. [1 / 2, 1 / 4, 1 / 8, 1 / 8]) (\<lambda>_. 0) (\<lambda>_ _. 0)"

definition ex_deciding :: world where
  "ex_deciding = upd_agent 0 (\<lambda>a. a\<lparr>phase := 2, preferred_evac := Some Evac_hotel\<rparr>) ex_world"

text \<open>The ring at the first tick (mesa increments \<open>steps\<close> before the first step).\<close>

definition ex_t1 :: world where
  "ex_t1 = ex_world\<lparr>steps := 1\<rparr>"

text \<open>A single agent without contacts: a whole tick evaluates quickly on it.\<close>

definition ex_solo :: world where
  "ex_solo = init_world [ex_agent 1 [] []]"

section \<open>Witnesses of the diffusion theorems\<close>

theorem phase_change_communication_effect_witness:
  "1 < length (pop ex_world)
   \<and> agent_at (phase_change_communication ex_params 0 1 ex_world) 1 =
       (agent_at ex_world 1)\<lparr>social_perception := 1 / 10\<rparr>"
proof -
  have k: "1 < length (pop ex_world)" by (simp add: ex_world_def init_world_def)
  have "agent_at (phase_change_communication ex_params 0 1 ex_world) 1 =
    (agent_at ex_world 1)\<lparr>social_perception := social_perception (agent_at ex_world 1)
       + of_nat (count_list (acquaintances (agent_at ex_world 0)) 1) * phase_change_factor ex_params\<rparr>"
    by (rule phase_change_communication_effect [OF k])
  then show ?thesis using k
    by (simp add: ex_world_def init_world_def agent_at_def ex_agent_def ex_params_def
        default_params_def announcement_steps_def)
qed


theorem Protective_Action_Implementation_communication_effect_witness:
  "preferred_evac (agent_at ex_deciding 0) = Some Evac_hotel \<and> 1 < length (pop ex_deciding)
   \<and> (\<exists>w'. Protective_Action_Implementation_communication ex_params 0 ex_deciding = Inr w'
        \<and> evac_hotel (agent_at w' 1) = 2 / 10 \<and> evac_friends (agent_at w' 1) = 1 / 10
        \<and> stay (agent_at w' 1) = 0 \<and> immediacy_cum (agent_at w' 1) = 2 / 100)"
proof -
  have pref: "preferred_evac (agent_at ex_deciding 0) = Some Evac_hotel"
    and k: "1 < length (pop ex_deciding)"
    by (simp_all add: ex_deciding_def ex_world_def init_world_def agent_at_def upd_agent_def)
  note eff = Protective_Action_Implementation_communication_effect [OF pref k, of ex_params]
  have facts: "acquaintances (agent_at ex_deciding 0) = [1, 2]"
    "neigh_individuals (agent_at ex_deciding 0) = [1]" "is_evacuation Evac_hotel"
    "agent_at ex_deciding (Suc 0) = ex_agent 2 [0, 2] [2]"
    by (simp_all add: ex_deciding_def ex_world_def init_world_def agent_at_def upd_agent_def
        ex_agent_def is_evacuation_def)
  from eff obtain w' where
    w': "Protective_Action_Implementation_communication ex_params 0 ex_deciding = Inr w'"
    and g: "\<forall>b. get_attr (Act b) (agent_at w' 1) = get_attr (Act b) (agent_at ex_deciding 1)
          + of_nat ((if b = Evac_hotel then count_list (acquaintances (agent_at ex_deciding 0)) 1 else 0)
            + (if is_evacuation Evac_hotel \<and> b \<noteq> Stay
               then count_list (neigh_individuals (agent_at ex_deciding 0)) 1 else 0))
            * action_comm_value ex_params"
    and i: "immediacy_cum (agent_at w' 1) = immediacy_cum (agent_at ex_deciding 1)
          + of_nat (count_list (acquaintances (agent_at ex_deciding 0)) 1
            + (if is_evacuation Evac_hotel then count_list (neigh_individuals (agent_at ex_deciding 0)) 1 else 0))
            * action_comm_value_imm ex_params"
    by blast
  have "evac_hotel (agent_at w' 1) = 2 / 10" using g [rule_format, of Evac_hotel]
    by (simp add: facts ex_agent_def ex_params_def default_params_def announcement_steps_def)
  moreover have "evac_friends (agent_at w' 1) = 1 / 10" using g [rule_format, of Evac_friends]
    by (simp add: facts ex_agent_def ex_params_def default_params_def announcement_steps_def)
  moreover have "stay (agent_at w' 1) = 0" using g [rule_format, of Stay]
    by (simp add: facts ex_agent_def)
  moreover have "immediacy_cum (agent_at w' 1) = 2 / 100" using i
    by (simp add: facts ex_agent_def ex_params_def default_params_def announcement_steps_def)
  ultimately show ?thesis using pref k w' by blast
qed

section \<open>Witnesses of the state-machine theorems\<close>

lemma ex_world_pop_inv: "pop_inv ex_t1"
  unfolding ex_t1_def pop_inv_steps ex_world_def by (rule pop_inv_init_world) (simp add: ex_agent_def)

lemma ex_t1_step_ok: "\<exists>w'. individual_step ex_params 0 ex_t1 = Inr w'"
  by (simp add: individual_step_def step_preamble_def update_immediacy_base_def immediacy_base_at_def
      refresh_rain_def calc_media_cue_def refresh_surge_def refresh_wind_def phase_handler_def
      risk_identification_def calc_risk_perception_def ex_t1_def ex_world_def init_world_def
      ex_params_def default_params_def announcement_steps_def agent_at_def upd_agent_def ex_agent_def
      np_mul_sum_def media_exposure_def Let_def py_simps general_communication_def
      phase_change_communication_def)

theorem individual_step_keeps_pop_inv_witness:
  "pop_inv ex_t1 \<and> 0 < length (pop ex_t1)
   \<and> (\<exists>w'. individual_step ex_params 0 ex_t1 = Inr w' \<and> pop_inv w')"
proof -
  obtain w' where w': "individual_step ex_params 0 ex_t1 = Inr w'" using ex_t1_step_ok by blast
  have l: "0 < length (pop ex_t1)" by (simp add: ex_t1_def ex_world_def init_world_def)
  show ?thesis using individual_step_keeps_pop_inv [OF ex_world_pop_inv l w'] w' l ex_world_pop_inv
    by blast
qed

theorem individual_step_phase_monotone_witness:
  "0 < length (pop ex_t1) \<and> 1 < length (pop ex_t1)
   \<and> (\<exists>w'. individual_step ex_params 0 ex_t1 = Inr w'
        \<and> phase (agent_at ex_t1 1) \<le> phase (agent_at w' 1)
        \<and> phase (agent_at w' 1) \<le> phase (agent_at ex_t1 1))"
proof -
  obtain w' where w': "individual_step ex_params 0 ex_t1 = Inr w'" using ex_t1_step_ok by blast
  have l: "0 < length (pop ex_t1)" "1 < length (pop ex_t1)"
    by (simp_all add: ex_t1_def ex_world_def init_world_def)
  show ?thesis using individual_step_phase_monotone [OF l(1) w' l(2)] w' l by auto
qed

section \<open>Witnesses of the scheduler theorems\<close>

lemma ex_solo_tick_ok: "\<exists>w'. model_step ex_params ex_solo = Inr w'"
  by (simp add: model_step_def shuffle_agents_def count_phase_def individual_step_def step_preamble_def update_immediacy_base_def immediacy_base_at_def
      refresh_rain_def calc_media_cue_def refresh_surge_def refresh_wind_def phase_handler_def
      risk_identification_def calc_risk_perception_def ex_solo_def init_world_def
      ex_params_def default_params_def announcement_steps_def agent_at_def upd_agent_def ex_agent_def
      np_mul_sum_def media_exposure_def Let_def py_simps general_communication_def
      phase_change_communication_def rbind_def)

lemma ex_solo_pop_inv: "pop_inv ex_solo"
  unfolding ex_solo_def by (rule pop_inv_init_world) (simp add: ex_agent_def)

lemma ex_world_pop_inv0: "pop_inv ex_world"
  using ex_world_pop_inv by (simp add: ex_t1_def)

theorem model_step_keeps_pop_inv_witness:
  "pop_inv ex_solo \<and> (\<exists>w'. model_step ex_params ex_solo = Inr w' \<and> pop_inv w' \<and> steps w' = 1)"
proof -
  obtain w' where w': "model_step ex_params ex_solo = Inr w'" using ex_solo_tick_ok by blast
  have "steps ex_solo = 0" by (simp add: ex_solo_def init_world_def)
  then show ?thesis using model_step_keeps_pop_inv [OF ex_solo_pop_inv w'] w' ex_solo_pop_inv by auto
qed

theorem run_model_terminates_witness:
  "pop_inv ex_world \<and> running ex_world \<and> steps ex_world < number_of_steps ex_params
   \<and> (\<exists>r. run_model ex_params ex_world = Some r)"
proof -
  have h: "running ex_world" "steps ex_world < number_of_steps ex_params"
    by (simp_all add: ex_world_def init_world_def ex_params_def default_params_def announcement_steps_def)
  show ?thesis using run_model_terminates [OF ex_world_pop_inv0 h] ex_world_pop_inv0 h by blast
qed

theorem run_model_never_returns_witness:
  "pop_inv ex_world \<and> running ex_world \<and> number_of_steps (ex_params\<lparr>number_of_steps := 0\<rparr>) \<le> steps ex_world
   \<and> run_model (ex_params\<lparr>number_of_steps := 0\<rparr>) ex_world \<noteq> Some (Inr ex_world)"
proof -
  have h: "running ex_world" "number_of_steps (ex_params\<lparr>number_of_steps := 0\<rparr>) \<le> steps ex_world"
    by (simp_all add: ex_world_def init_world_def)
  show ?thesis using run_model_never_returns [OF ex_world_pop_inv0 h] ex_world_pop_inv0 h by blast
qed

theorem announcements_effect_witness:
  "pop_inv (ex_world\<lparr>steps := 55\<rparr>) \<and> 0 < length (pop (ex_world\<lparr>steps := 55\<rparr>))
   \<and> social_perception (agent_at (announcements ex_params (ex_world\<lparr>steps := 55\<rparr>)) 0) = 5 / 100
   \<and> immediacy_cum (agent_at (announcements ex_params (ex_world\<lparr>steps := 55\<rparr>)) 0) = 5 / 100"
proof -
  have i: "pop_inv (ex_world\<lparr>steps := 55\<rparr>)" using ex_world_pop_inv0 by simp
  have k: "0 < length (pop (ex_world\<lparr>steps := 55\<rparr>))" by (simp add: ex_world_def init_world_def)
  note e = announcements_effect [OF i k, of ex_params]
  have "agent_at (ex_world\<lparr>steps := 55\<rparr>) 0 = ex_agent 1 [1, 2] [1]"
    by (simp add: ex_world_def init_world_def agent_at_def)
  then show ?thesis using e i k
    by (simp add: ex_params_def default_params_def announcement_steps_def ex_agent_def bump_gov_def)
qed


section \<open>Witnesses of the bounds theorems\<close>

theorem immediacy_base_at_curve_witness:
  "0 \<le> ceiling_param ex_params \<and> 0 \<le> grow_factor ex_params \<and> 0 < number_of_steps ex_params
   \<and> (\<exists>b b'. immediacy_base_at ex_params 0 = Inr b \<and> immediacy_base_at ex_params 87 = Inr b'
        \<and> 0 \<le> b \<and> b \<le> b' \<and> b' \<le> ceiling_param ex_params)"
proof -
  have h: "0 \<le> ceiling_param ex_params" "0 \<le> grow_factor ex_params" "0 < number_of_steps ex_params"
    "(0::int) \<le> 0" "(0::int) \<le> 87" "87 + 1 \<le> number_of_steps ex_params"
    by (simp_all add: ex_params_def default_params_def announcement_steps_def)
  show ?thesis using immediacy_base_at_curve [OF h] h(1-3) by blast
qed

theorem immediacy_base_at_final_tick_witness:
  "0 < ceiling_param ex_params \<and> 0 \<le> grow_factor ex_params \<and> 0 < number_of_steps ex_params
   \<and> grow_factor ex_params < real_of_int (number_of_steps ex_params)
   \<and> (\<exists>b. immediacy_base_at ex_params 88 = Inr b \<and> 2 / 5 < b)"
proof -
  have h: "0 < ceiling_param ex_params" "0 \<le> grow_factor ex_params" "0 < number_of_steps ex_params"
    "grow_factor ex_params < real_of_int (number_of_steps ex_params)"
    and e: "number_of_steps ex_params = 88" "ceiling_param ex_params = 2 / 5"
    by (simp_all add: ex_params_def default_params_def announcement_steps_def)
  show ?thesis using immediacy_base_at_final_tick [OF h] h unfolding e by blast
qed

theorem individual_step_zero_horizon_witness:
  "number_of_steps (ex_params\<lparr>number_of_steps := 0\<rparr>) = 0
   \<and> individual_step (ex_params\<lparr>number_of_steps := 0\<rparr>) 0 ex_t1 = Inl ZeroDivisionError"
  using individual_step_zero_horizon [of "ex_params\<lparr>number_of_steps := 0\<rparr>" 0 ex_t1] by simp

lemma ex_solo_cue_ok: "cue_ok ex_solo"
  by (simp add: cue_ok_def cue_ok_agent_def ex_solo_def init_world_def agent_at_def ex_agent_def)

theorem model_step_cue_bounds_witness:
  "cue_ok ex_solo \<and> (\<exists>w'. model_step ex_params ex_solo = Inr w' \<and> cue_ok w')"
proof -
  obtain w' where w': "model_step ex_params ex_solo = Inr w'" using ex_solo_tick_ok by blast
  show ?thesis using model_step_cue_bounds [OF ex_solo_cue_ok w'] w' ex_solo_cue_ok by blast
qed

section \<open>Witnesses of the data-collection and population theorems\<close>

theorem data_collection_attributes_evac_column_witness:
  "\<exists>ag md. data_collection_attributes ''verf'' = Inr (ag, md)
     \<and> map_of md ''evac_agents'' = Some (Attr ''evaced_agents'')"
proof -
  obtain ag md where t: "data_collection_attributes ''verf'' = Inr (ag, md)"
    by (simp add: data_collection_attributes_def)
  show ?thesis using data_collection_attributes_evac_column [OF t] t by blast
qed

theorem single_run_collect_crashes_witness:
  "(\<exists>ag md. data_collection_attributes ''SingleRun'' = Inr (ag, md)
      \<and> (\<exists>vs. collect_model ex_world md = Inr vs)
      \<and> collect_model (ex_world\<lparr>agents := []\<rparr>) md = Inl ZeroDivisionError)"
proof -
  obtain ag md where t: "data_collection_attributes ''SingleRun'' = Inr (ag, md)"
    by (simp add: data_collection_attributes_def)
  have ne: "agents ex_world \<noteq> []" by (simp add: ex_world_def init_world_def)
  show ?thesis
    using single_run_collect_crashes [OF t, of ex_world] single_run_collect_crashes [OF t, of "ex_world\<lparr>agents := []\<rparr>"] t ne
    by auto
qed

definition ex_boot :: boot_env where
  "ex_boot = \<lparr>randint = 7, sample_draw = (\<lambda>r rows i. 1)\<rparr>"

theorem population_bootstrapper_aligned_witness:
  "length [[0, 1], [0, 2 :: real]] = length [[0, 3], [0, 4 :: real]]
   \<and> length [[0, 3], [0, 4 :: real]] = length [[0, 5], [0, 6 :: real]]
   \<and> [[0, 1], [0, 2 :: real]] \<noteq> []
   \<and> (\<exists>idx. population_bootstrapper ex_boot 2 None ([[0, 1], [0, 2 :: real]], [[0, 3], [0, 4 :: real]], [[0, 5], [0, 6 :: real]]) =
        Inr (map (\<lambda>j. drop 1 ([[0, 1], [0, 2 :: real]] ! j)) idx, map (\<lambda>j. drop 1 ([[0, 3], [0, 4 :: real]] ! j)) idx,
             map (\<lambda>j. drop 1 ([[0, 5], [0, 6 :: real]] ! j)) idx))"
  using population_bootstrapper_aligned [of "[[0, 1], [0, 2 :: real]]" "[[0, 3], [0, 4 :: real]]" "[[0, 5], [0, 6 :: real]]" ex_boot 2]
  by auto

theorem closest_neighbours_count_witness:
  "map unique_id (pop ex_world) = [1, 2, 3] \<and> 0 < length (pop ex_world)
   \<and> set ((\<lambda>q k. take k [q, 1, 2 :: nat]) 0 (1 + 1)) \<subseteq> {..<length (pop ex_world)}
   \<and> distinct ((\<lambda>q k. take k [q, 1, 2 :: nat]) 0 (1 + 1))
   \<and> (\<exists>ns. closest_neighbours (\<lambda>q k. take k [q, 1, 2 :: nat]) (pop ex_world) (0 + 1) 1 = Inr ns \<and> length ns = 1)"
proof -
  have h: "\<forall>k<length (pop ex_world). unique_id (pop ex_world ! k) = k + 1" "0 < length (pop ex_world)"
    "set ((\<lambda>q k. take k [q, 1, 2 :: nat]) 0 (1 + 1)) \<subseteq> {..<length (pop ex_world)}"
    "distinct ((\<lambda>q k. take k [q, 1, 2 :: nat]) 0 (1 + 1))"
    by (auto simp: ex_world_def init_world_def ex_agent_def less_Suc_eq numeral_eq_Suc)
  have m: "map unique_id (pop ex_world) = [1, 2, 3]" by (simp add: ex_world_def init_world_def ex_agent_def)
  show ?thesis using closest_neighbours_count [of "pop ex_world" 0 "\<lambda>q k. take k [q, 1, 2 :: nat]" 1, OF h] h m by auto
qed

section \<open>The specification's ring scenario\<close>

text \<open>
  Four agents in a ring, identical parameters, rain and wind cues of 5/8 (a cue perception
  of 1/4 with \<open>env_weight = 1/5\<close>), media frequency 0 and no media trust, at tick 1.
\<close>

definition ex_ring_agent :: "nat \<Rightarrow> nat list \<Rightarrow> agent" where
  "ex_ring_agent uid acq = (ex_agent uid acq [])\<lparr>media_freq := replicate 5 0,
     rain := replicate 12 (5 / 8), wind := replicate 12 (5 / 8), rain_cue := 5 / 8, wind_cue := 5 / 8\<rparr>"

definition ex_ring :: world where
  "ex_ring = (init_world [ex_ring_agent 1 [3, 1], ex_ring_agent 2 [0, 2], ex_ring_agent 3 [1, 3],
     ex_ring_agent 4 [2, 0]])\<lparr>steps := 1\<rparr>"

lemma ex_ring_step: "\<exists>w'. individual_step ex_params 0 ex_ring = Inr w' \<and> cue_perception (agent_at w' 0) = 1 / 4"
  by (simp add: individual_step_def step_preamble_def update_immediacy_base_def immediacy_base_at_def
      refresh_rain_def calc_media_cue_def refresh_surge_def refresh_wind_def phase_handler_def
      risk_identification_def calc_risk_perception_def ex_ring_def ex_ring_agent_def init_world_def
      ex_params_def default_params_def announcement_steps_def agent_at_def upd_agent_def ex_agent_def
      np_mul_sum_def media_exposure_def Let_def py_simps general_communication_def
      phase_change_communication_def numeral_eq_Suc)

theorem risk_identification_uses_previous_cue_witness:
  "0 < length (pop ex_ring) \<and> phase (agent_at ex_ring 0) = 0
   \<and> min (cue_perception (agent_at ex_ring 0) + social_perception (agent_at ex_ring 0)) 1 < RI_thresh (agent_at ex_ring 0)
   \<and> (\<exists>w'. individual_step ex_params 0 ex_ring = Inr w' \<and> cue_perception (agent_at w' 0) = 1 / 4
        \<and> phase (agent_at w' 0) = 0)"
proof -
  have h: "0 < length (pop ex_ring)" "phase (agent_at ex_ring 0) = 0"
    "min (cue_perception (agent_at ex_ring 0) + social_perception (agent_at ex_ring 0)) 1 < RI_thresh (agent_at ex_ring 0)"
    by (simp_all add: ex_ring_def ex_ring_agent_def init_world_def agent_at_def ex_agent_def)
  obtain w' where w': "individual_step ex_params 0 ex_ring = Inr w'" "cue_perception (agent_at w' 0) = 1 / 4"
    using ex_ring_step by blast
  show ?thesis using risk_identification_uses_previous_cue [OF h w'(1)] h w' by blast
qed

section \<open>A one-tick run\<close>

lemma ex_solo_tick1_ok: "\<exists>w'. model_step (ex_params\<lparr>number_of_steps := 1\<rparr>) ex_solo = Inr w'"
  by (simp add: model_step_def shuffle_agents_def count_phase_def individual_step_def step_preamble_def update_immediacy_base_def immediacy_base_at_def
      refresh_rain_def calc_media_cue_def refresh_surge_def refresh_wind_def phase_handler_def
      risk_identification_def calc_risk_perception_def ex_solo_def init_world_def
      ex_params_def default_params_def announcement_steps_def agent_at_def upd_agent_def ex_agent_def
      np_mul_sum_def media_exposure_def Let_def py_simps general_communication_def
      phase_change_communication_def rbind_def)

lemma ex_solo_run_ok: "\<exists>w'. run_model (ex_params\<lparr>number_of_steps := 1\<rparr>) ex_solo = Some (Inr w')"
proof -
  obtain w1 where w1: "model_step (ex_params\<lparr>number_of_steps := 1\<rparr>) ex_solo = Inr w1"
    using ex_solo_tick1_ok by blast
  have r: "running ex_solo" "steps ex_solo = 0" by (simp_all add: ex_solo_def init_world_def)
  have "\<not> running w1" using model_step_shape [OF ex_solo_pop_inv w1] r by simp
  then show ?thesis using run_model_continue [OF r(1) w1] run_model_stopped [of w1] by simp
qed

section \<open>Witness of the selector theorem\<close>

theorem protective_action_search_argmax_witness:
  "0 < length (pop ex_world)
   \<and> (\<exists>w'. protective_action_search ex_params 0 ex_world = Inr w'
        \<and> preferred_evac (agent_at w' 0) = Some Evac_friends)"
proof -
  have l: "0 < length (pop ex_world)" by (simp add: ex_world_def init_world_def)
  obtain w' where w': "protective_action_search ex_params 0 ex_world = Inr w'"
    by (simp add: protective_action_search_def ex_params_def default_params_def announcement_steps_def)
  have "argmax_ref (zip [Evac_friends, Evac_hotel, Evac_shelter, Stay]
      (predict_proba ex_params (factor_values (agent_at ex_world 0)))) = Evac_friends"
    by (simp add: argmax_ref_def ex_params_def default_params_def announcement_steps_def)
  then show ?thesis using protective_action_search_argmax [OF w' l] w' l by auto
qed

section \<open>Witnesses of the progress theorems\<close>

theorem individual_step_no_exception_witness:
  "0 < length (pop ex_t1) \<and> agent_ready ex_params (steps ex_t1) (agent_at ex_t1 0)
   \<and> (\<exists>w'. individual_step ex_params 0 ex_t1 = Inr w')"
proof -
  have h: "0 < length (pop ex_t1)" "agent_ready ex_params (steps ex_t1) (agent_at ex_t1 0)"
    by (simp_all add: ex_t1_def ex_world_def init_world_def agent_at_def ex_agent_def agent_ready_def
        ex_params_def default_params_def announcement_steps_def)
  show ?thesis using individual_step_no_exception [OF h] h by blast
qed

theorem refresh_surge_index_error_witness:
  "steps (ex_world\<lparr>steps := 33\<rparr>) mod 3 = 0 \<and> 0 \<le> steps (ex_world\<lparr>steps := 33\<rparr>)
   \<and> length (storm_surge (agent_at (ex_world\<lparr>steps := 33\<rparr>) 0)) \<le> nat (steps (ex_world\<lparr>steps := 33\<rparr>) div 3 + 1)
   \<and> refresh_surge ex_params 0 (ex_world\<lparr>steps := 33\<rparr>) = Inl IndexError"
proof -
  have h: "steps (ex_world\<lparr>steps := 33\<rparr>) mod 3 = 0" "0 \<le> steps (ex_world\<lparr>steps := 33\<rparr>)"
    "length (storm_surge (agent_at (ex_world\<lparr>steps := 33\<rparr>) 0)) \<le> nat (steps (ex_world\<lparr>steps := 33\<rparr>) div 3 + 1)"
    by (simp_all add: ex_world_def init_world_def agent_at_def ex_agent_def)
  show ?thesis using refresh_surge_index_error [OF h] h by blast
qed

section \<open>Witnesses of the constructor theorems\<close>

definition ex_media_row :: "int list" where
  "ex_media_row = [1, 2, 3, 4, 5, 6, 7, 8, 9, 10]"

definition ex_built :: agent where
  "ex_built = projr (init_individual ex_params 0 1 [1] [1, 0, 1] ex_media_row
     (replicate 12 0) (replicate 12 0) (replicate 12 0) [])"

lemma ex_built_init:
  "init_individual ex_params 0 1 [1] [1, 0, 1] ex_media_row (replicate 12 0) (replicate 12 0) (replicate 12 0) []
     = Inr ex_built"
  by (simp add: ex_built_def init_individual_def py_get_def)

theorem init_individual_media_columns_witness:
  "length ex_media_row = 10
   \<and> media_trust ex_built = map (\<lambda>x. 1 / 25 * of_int x) [1, 2, 3, 4, 5]"
proof -
  have l: "length ex_media_row = 10" by (simp add: ex_media_row_def)
  have f: "media_freq ex_built = [1, 2, 3, 4, 5]"
    by (simp add: ex_built_def init_individual_def ex_media_row_def py_prefix_def py_slice_bound_def py_get_def)
  show ?thesis using init_individual_media_columns [OF ex_built_init l] l f
    by (simp add: ex_params_def default_params_def announcement_steps_def)
qed

section \<open>Witness of the parser theorem\<close>

theorem parse_np_float_string_roundtrip_witness:
  "parse_np_float_string (\<lambda>s. if s = ''12'' then Inr 12 else if s = ''-3.5'' then Inr (- 7 / 2) else Inl ValueError)
     ''[np.float64(12), np.float64(-3.5)]'' = Inr [12, - 7 / 2]"
proof -
  let ?fl = "\<lambda>s. if s = ''12'' then Inr 12 else if s = ''-3.5'' then Inr (- 7 / 2) else Inl ValueError"
  let ?rep = "\<lambda>x::real. if x = 12 then ''12'' else ''-3.5''"
  have "\<forall>x\<in>set [12, - 7 / 2]. float_repr_ok ?fl (?rep x) x"
    by (simp add: float_repr_ok_def py_isspace_def)
  from parse_np_float_string_roundtrip [OF this] show ?thesis
    by (simp add: np_float_list_str_def)
qed

section \<open>The constructor on a one-node graph\<close>

text \<open>
  An \<open>init_data\<close> of one area whose cue series are four zeros, one-row survey tables,
  and a generator that always draws row 0.  The constructor builds one agent and the
  run of one tick ends normally.
\<close>

definition ex_env :: init_env where
  "ex_env =
     \<lparr>graph_adj = [[]],
      init_rows = [(''[0, 0, 0, 0]'', ''[0, 0, 0, 0]'', ''[0, 0, 0, 0]'', 1)],
      survey = ([[0, 1]], [[0, 1, 0, 1]], [[0, 1, 1, 1, 1, 1, 1, 1, 1, 1, 1]]),
      boot = \<lparr>randint = 7, sample_draw = (\<lambda>r rows i. 0)\<rparr>,
      area_draw = (\<lambda>i. 0),
      float_parser = (\<lambda>s. if s = ''0'' then Inr 0 else Inl ValueError),
      kd_query = (\<lambda>q k. [0]),
      n_neighbors = 10, watch_shift = 0, communication_timing = 0,
      outcome_collection = ''SingleRun''\<rparr>"

definition ex_env_agent :: agent where
  "ex_env_agent = (ex_agent 1 [] [])\<lparr>media_trust := [1 / 25, 1 / 25, 1 / 25, 1 / 25, 1 / 25],
     media_freq := [1, 1, 1, 1, 1], rain := [0, 0, 0, 0], wind := [0, 0, 0, 0], storm_surge := [0, 0, 0, 0],
     RA_thresh := 9 / 10, env_weight := 9 / 50\<rparr>"

lemma ex_env_parse: "parse_np_float_string (\<lambda>s. if s = ''0'' then Inr 0 else Inl ValueError) ''[0, 0, 0, 0]'' = Inr [0, 0, 0, 0]"
  by (simp add: parse_np_float_string_def strip_quotes_def sub_float64_copy py_strip_chars_def py_isspace_def)

lemma ex_env_init: "model_init (ex_params\<lparr>number_of_steps := 1\<rparr>) ex_env = Inr (init_world [ex_env_agent])"
  by (simp add: model_init_def ex_env_def ex_env_parse population_bootstrapper_def df_sample_def
      drop_first_column_def node_agent_def np_random_choice_def series_get_def init_individual_def
      shift_watch_warning_def closest_neighbours_def data_collection_attributes_def placed_neighbours_def
      Let_def py_simps ex_env_agent_def ex_agent_def ex_params_def default_params_def announcement_steps_def)

lemma ex_env_tick_ok: "\<exists>w'. model_step (ex_params\<lparr>number_of_steps := 1\<rparr>) (init_world [ex_env_agent]) = Inr w'"
  by (simp add: model_step_def shuffle_agents_def count_phase_def individual_step_def step_preamble_def update_immediacy_base_def immediacy_base_at_def
      refresh_rain_def calc_media_cue_def refresh_surge_def refresh_wind_def phase_handler_def
      risk_identification_def calc_risk_perception_def ex_env_agent_def init_world_def
      ex_params_def default_params_def announcement_steps_def agent_at_def upd_agent_def ex_agent_def
      np_mul_sum_def media_exposure_def Let_def py_simps general_communication_def
      phase_change_communication_def rbind_def)

lemma ex_env_run_ok: "\<exists>w'. run_model (ex_params\<lparr>number_of_steps := 1\<rparr>) (init_world [ex_env_agent]) = Some (Inr w')"
proof -
  obtain w1 where w1: "model_step (ex_params\<lparr>number_of_steps := 1\<rparr>) (init_world [ex_env_agent]) = Inr w1"
    using ex_env_tick_ok by blast
  have r: "running (init_world [ex_env_agent])" "steps (init_world [ex_env_agent]) = 0"
    by (simp_all add: init_world_def)
  have i: "pop_inv (init_world [ex_env_agent])"
    by (rule pop_inv_init_world) (simp add: ex_env_agent_def ex_agent_def)
  have "\<not> running w1" using model_step_shape [OF i w1] r by simp
  then show ?thesis using run_model_continue [OF r(1) w1] run_model_stopped [of w1] by simp
qed


section \<open>Witnesses of the constructor theorems\<close>


theorem model_init_invariants_witness:
  "model_init (ex_params\<lparr>number_of_steps := 1\<rparr>) ex_env = Inr (init_world [ex_env_agent])
   \<and> pop_inv (init_world [ex_env_agent]) \<and> cue_ok (init_world [ex_env_agent])"
proof -
  have m: "\<forall>row\<in>set (snd (snd (survey ex_env))). \<forall>x\<in>set row. 0 \<le> x" by (simp add: ex_env_def)
  have t: "0 \<le> media_weight_trust (ex_params\<lparr>number_of_steps := 1\<rparr>)"
    by (simp add: ex_params_def default_params_def announcement_steps_def)
  show ?thesis using model_init_invariants [OF ex_env_init m t] ex_env_init by simp
qed

section \<open>A Laplace interpolation\<close>

text \<open>
  Four data points around the origin (vertex 0 is the infinite vertex), the query at the
  origin: the four Voronoi edges and distances are 1, so the result is the mean height.
\<close>

definition ex_dt_ops :: "(real \<times> real \<times> real) list dt_ops" where
  "ex_dt_ops =
     \<lparr>get_point = (\<lambda>d v. if v < length d then d ! v else (0, 0, 1)),
      is_inside_convex_hull = (\<lambda>d p. True),
      insert_one_pt = (\<lambda>d p. (length d, d @ [p])),
      incident_triangles_to_vertex = (\<lambda>d v. if v = 5 then [[5, 1, 2], [5, 2, 3], [5, 3, 4], [5, 4, 1]] else []),
      remove = (\<lambda>d v. take v d)\<rparr>"

definition ex_dt :: "(real \<times> real \<times> real) list" where
  "ex_dt = [(0, 0, 0), (1, 0, 1), (0, 1, 2), (-1, 0, 3), (0, -1, 4)]"

lemma ex_dt_interpolate: "interpolate_laplace ex_dt_ops ex_dt 0 0 = (Inr (Val (5 / 2)), ex_dt)"
  by (simp add: interpolate_laplace_def ex_dt_ops_def ex_dt_def laplace_edge_def circum_center_def
      laplace_value_def py_get_def Let_def numeral_eq_Suc)

theorem interpolate_laplace_bounded_witness:
  "interpolate_laplace ex_dt_ops ex_dt 0 0 = (Inr (Val (5 / 2)), ex_dt) \<and> 1 \<le> (5 / 2 :: real) \<and> (5 / 2 :: real) \<le> 4"
proof -
  have keep: "\<forall>v. v \<noteq> fst (insert_one_pt ex_dt_ops ex_dt (0, 0, 0))
      \<longrightarrow> get_point ex_dt_ops (snd (insert_one_pt ex_dt_ops ex_dt (0, 0, 0))) v = get_point ex_dt_ops ex_dt v"
  proof -
    have l: "length ex_dt = 5" by (simp add: ex_dt_def)
    then show ?thesis by (simp add: ex_dt_ops_def nth_append)
  qed
  have heights: "\<forall>v. v \<noteq> 0 \<longrightarrow> 1 \<le> snd (snd (get_point ex_dt_ops ex_dt v)) \<and> snd (snd (get_point ex_dt_ops ex_dt v)) \<le> 4"
    by (auto simp: ex_dt_ops_def ex_dt_def numeral_eq_Suc less_Suc_eq)
  have tri: "incident_triangles_to_vertex ex_dt_ops (snd (insert_one_pt ex_dt_ops ex_dt (0, 0, 0)))
      (fst (insert_one_pt ex_dt_ops ex_dt (0, 0, 0))) \<noteq> []"
    by (simp add: ex_dt_ops_def ex_dt_def)
  show ?thesis using interpolate_laplace_bounded [OF ex_dt_interpolate keep heights tri] ex_dt_interpolate by simp
qed

theorem interpolate_laplace_restores_witness:
  "interpolate_laplace ex_dt_ops ex_dt 0 0 = (Inr (Val (5 / 2)), ex_dt)
   \<and> interpolate_laplace (ex_dt_ops\<lparr>incident_triangles_to_vertex := (\<lambda>d v. [[5, 1, 0]])\<rparr>) ex_dt 0 0
       = (Inr NaN, ex_dt @ [(0, 0, 0)])"
proof -
  let ?ops2 = "ex_dt_ops\<lparr>incident_triangles_to_vertex := (\<lambda>d v. [[5, 1, 0]])\<rparr>"
  have inv1: "remove ex_dt_ops (snd (insert_one_pt ex_dt_ops ex_dt (0, 0, 0))) (fst (insert_one_pt ex_dt_ops ex_dt (0, 0, 0))) = ex_dt"
    by (simp add: ex_dt_ops_def ex_dt_def)
  have inv2: "remove ?ops2 (snd (insert_one_pt ?ops2 ex_dt (0, 0, 0))) (fst (insert_one_pt ?ops2 ex_dt (0, 0, 0))) = ex_dt"
    by (simp add: ex_dt_ops_def ex_dt_def)
  have h2: "is_inside_convex_hull ?ops2 ex_dt (0, 0)
      \<and> list_ex (\<lambda>t. 0 \<in> set t) (incident_triangles_to_vertex ?ops2 (snd (insert_one_pt ?ops2 ex_dt (0, 0, 0)))
           (fst (insert_one_pt ?ops2 ex_dt (0, 0, 0))))"
    by (simp add: ex_dt_ops_def)
  obtain r2 d2 where e2: "interpolate_laplace ?ops2 ex_dt 0 0 = (r2, d2)" by fastforce
  have "r2 = Inr NaN \<and> d2 = ex_dt @ [(0, 0, 0)]"
    using interpolate_laplace_restores [OF e2 inv2] h2 by (simp add: ex_dt_ops_def)
  moreover have "interpolate_laplace ex_dt_ops ex_dt 0 0 = (Inr (Val (5 / 2)), ex_dt)"
    using interpolate_laplace_restores [OF ex_dt_interpolate inv1] ex_dt_interpolate by simp
  ultimately show ?thesis using e2 by simp
qed

section \<open>Plot data and the convergence script\<close>

theorem hist_values_roundtrip_witness:
  "hist_values 0 [2, 0, 1] = [0, 0, 4]
   \<and> count (mset (hist_values 0 [2, 0, 1])) (plot_time 0 0) = 2
   \<and> count (mset (hist_values 0 [2, 0, 1])) (plot_time 0 1) = 0"
proof -
  have "\<forall>i<length [2, 0, 1::nat]. count (mset (hist_values 0 [2, 0, 1])) (plot_time 0 i) = [2, 0, 1::nat] ! i"
    using hist_values_roundtrip [of 0 "[2, 0, 1]"] by blast
  then have "count (mset (hist_values 0 [2, 0, 1])) (plot_time 0 0) = 2"
    and "count (mset (hist_values 0 [2, 0, 1])) (plot_time 0 1) = 0"
    by (auto dest: spec [of _ 0] spec [of _ 1])
  moreover have "hist_values 0 [2, 0, 1] = [0, 0, 4]" by (simp add: hist_values_def plot_time_def numeral_2_eq_2)
  ultimately show ?thesis by simp
qed

text \<open>One row of a batch result: the last step of one run with one agent.\<close>

definition ex_batch :: frame where
  "ex_batch = ([0], [(''RunId'', [Some 0]), (''iteration'', [Some 0]), (''Step'', [Some 88]),
     (''AgentID'', [Some 1]), (''average_evac_time'', [Some 30]), (''hotel_choice'', [Some 0]),
     (''friends_choice'', [Some 1]), (''stay_choice'', [Some 0])])"

theorem convergence_analysis_key_error_witness:
  "{''Step'', ''iteration'', ''AgentID''} \<union> set metrics \<subseteq> df_cols ex_batch
   \<and> ''index'' \<notin> df_cols ex_batch \<and> ''level_0'' \<notin> df_cols ex_batch
   \<and> convergence_analysis ex_batch = Inl KeyError"
proof -
  have h: "{''Step'', ''iteration'', ''AgentID''} \<union> set metrics \<subseteq> df_cols ex_batch"
    "''index'' \<notin> df_cols ex_batch" "''level_0'' \<notin> df_cols ex_batch"
    by (simp_all add: ex_batch_def metrics_def)
  show ?thesis using h convergence_analysis_key_error [OF h] by blast
qed

section \<open>Census tract processing\<close>

text \<open>A national table of 76 columns (state, county, population and 73 numeric fields
  \<open>v03\<close> to \<open>v75\<close>) with three tracts: tract 10 in Monroe, tract 11 in Dade and
  tract 12 in Monroe whose fields 6 to 21 are zero, so that its first group (field 6,
  the education fields 7 to 13 summed, and fields 14 to 21) sums to zero.\<close>

definition ex_name :: "nat \<Rightarrow> string" where
  "ex_name k = [CHR ''v'', char_of (48 + k div 10), char_of (48 + k mod 10)]"

definition ex_national :: gdf where
  "ex_national = ([10, 11, 12],
     [(''State'', [Txt ''FL'', Txt ''FL'', Txt ''FL'']), (''County'', [Txt ''Monroe'', Txt ''Dade'', Txt ''Monroe'']),
      (''AgeTotal'', [cell.Num 4, cell.Num 5, cell.Num 0])]
     @ map (\<lambda>k. (ex_name k, [cell.Num 1, cell.Num 1, if 6 \<le> k \<and> k < 22 then cell.Num 0 else cell.Num 1])) [3..<76])"

lemma ex_national_aoi: "map_sum id fst (area_of_interest [''FL''] [''Monroe''] ex_national) = Inr [10, 12]"
  by code_simp

lemma ex_national_result: "map_sum id fst (agent_init_data None ex_national [''FL''] [''Monroe'']) = Inr [10]"
  by code_simp

lemma ex_national_kept: "map_sum id (\<lambda>aoi. map (\<lambda>j. fst aoi ! j) (filter (\<lambda>j. \<forall>g\<in>set groups. group_sum aoi g j \<noteq> 0) [0..<length (fst aoi)]))
  (area_of_interest [''FL''] [''Monroe''] ex_national) = Inr [10]"
  by code_simp

theorem agent_init_data_proportions_witness:
  "\<exists>tracts. agent_init_data None ex_national [''FL''] [''Monroe''] = Inr tracts
     \<and> fst tracts = [10] \<and> group_sum tracts (55, 70) 0 = 1"
proof -
  obtain tracts where t: "agent_init_data None ex_national [''FL''] [''Monroe''] = Inr tracts"
    and l: "fst tracts = [10]"
    using ex_national_result by (cases "agent_init_data None ex_national [''FL''] [''Monroe'']") auto
  have h: "gdf_wf ex_national" "distinct (map fst (snd ex_national))" "76 \<le> length (snd ex_national)"
    "''PopDense'' \<notin> fst ` set (snd ex_national)"
    by code_simp+
  have "\<forall>g\<in>set groups. \<forall>i<length (fst tracts). group_sum tracts g i = 1"
    using agent_init_data_proportions [OF t h] .
  then have "group_sum tracts (55, 70) 0 = 1" using l by (simp add: groups_def)
  then show ?thesis using t l by blast
qed

theorem agent_init_data_kept_tracts_witness:
  "\<exists>tracts aoi. agent_init_data None ex_national [''FL''] [''Monroe''] = Inr tracts
     \<and> area_of_interest [''FL''] [''Monroe''] ex_national = Inr aoi \<and> fst aoi = [10, 12] \<and> fst tracts = [10]"
proof -
  obtain tracts where t: "agent_init_data None ex_national [''FL''] [''Monroe''] = Inr tracts"
    using ex_national_result by (cases "agent_init_data None ex_national [''FL''] [''Monroe'']") auto
  obtain aoi where a: "area_of_interest [''FL''] [''Monroe''] ex_national = Inr aoi"
    and k: "map (\<lambda>j. fst aoi ! j) (filter (\<lambda>j. \<forall>g\<in>set groups. group_sum aoi g j \<noteq> 0) [0..<length (fst aoi)]) = [10]"
    using ex_national_kept by (cases "area_of_interest [''FL''] [''Monroe''] ex_national") auto
  have la: "fst aoi = [10, 12]" using ex_national_aoi a by simp
  have d: "distinct (fst ex_national)" by (simp add: ex_national_def)
  have "fst tracts = [10]" using agent_init_data_kept_tracts [OF t a d] k by simp
  then show ?thesis using t a la by blast
qed

section \<open>The script main.py\<close>





end
