(* ===== verification/Spec2Isabelle.thy ===== *)
theory Spec2Isabelle
  imports Timeline Scenarios
begin

text \<open>
  \<^bold>\<open>A verification library for EvacDecModel.\<close>

  The program (\<open>src/\<close>) is a mesa agent-based model of hurricane evacuation decisions.
  \<open>src/Model.py\<close> (\<open>EvacuationDec\<close>) builds a population of \<open>Individual\<close>s
  (\<open>src/Agent.py\<close>) from bootstrapped survey tables, links them by a small-world
  acquaintance graph and a nearest-neighbour set, and runs ticks: each tick counts the
  phases, steps every live agent in a shuffled order, computes the summary statistic at
  the last tick, broadcasts the government watch and warning, collects data and resets
  the per-tick counter.  An agent's step refreshes its cues and then runs the handler of
  its phase (Unaware, Aware, Deciding; Acted agents are retired); handlers change other
  agents at once through the communication routines.  \<open>src/helper_functions.py\<close>
  prepares the storm-surge timelines, parses the cue series stored as numpy strings and
  bootstraps the survey rows; \<open>src/Weather/Laplace_inter.py\<close> interpolates the
  weather fields over a triangulation; \<open>src/Viz/Plots.py\<close> and
  \<open>src/ConvergenceeAnalysis.py\<close> consume the collected data.

  \<^bold>\<open>Theories.\<close>
  \<^item> \<open>Prelude\<close>: Python's exceptions as the datatype \<open>py_error\<close> and results as
    \<open>py_error + 'a\<close> (\<open>Inl\<close> the exception), with \<open>rbind\<close> for sequencing and
    \<open>rfold\<close> for a \<open>for\<close> loop whose body may raise, \<open>py_map\<close> for a list
    comprehension whose element may raise; Python indexing
    (\<open>py_get\<close>, negative indices included), slicing, \<open>list.index\<close>, true and
    integer division and numpy's modulo (0 for a zero divisor); the relation combinator
    \<open>preserves\<close> used to push frame facts through sequenced operations.
  \<^item> \<open>Timeline\<close>: \<open>shift_warnings\<close> and \<open>shift_watch_warning\<close> of
    \<open>helper_functions.py\<close>, on lists of reals.
  \<^item> \<open>AgentState\<close>: the configuration record \<open>params\<close> (the fields
    \<open>EvacuationDec.__init__\<close> stores, with its defaults in \<open>default_params\<close>, and
    the classifier and the random generator as injected functions), the \<open>agent\<close>
    record (the attributes of \<open>Individual\<close>), \<open>init_individual\<close>, and the world
    record: the store \<open>pop\<close> of all agents (index \<open>k\<close> is the agent with
    \<open>unique_id = k + 1\<close>), the live set \<open>agents\<close> (mesa's \<open>AgentSet\<close>), the tick
    counter, the output counters, the per-tick evacuation history that the datacollector
    keeps, and the position of the generator's stream.
  \<^item> \<open>Diffusion\<close>: \<open>general_communication\<close>, \<open>action_communication\<close>,
    \<open>phase_change_communication\<close>, \<open>Protective_Action_Implementation_communication\<close>
    and the model's \<open>government_warning_communication\<close>; each writes other agents of
    the store immediately, as Python's object mutation does.
  \<^item> \<open>AgentPhase\<close>: every method of \<open>Individual\<close> that changes state, in the code's
    order: the cue refresh of \<open>step\<close> (\<open>step_preamble\<close>), the three phase handlers
    and \<open>individual_step\<close>; then the status abstraction (\<open>world_status\<close>,
    \<open>status_step\<close>) and the population invariant \<open>pop_inv\<close>.
  \<^item> \<open>Scheduler\<close>: \<open>EvacuationDec.step\<close> as \<open>model_step\<close> and mesa's run loop as
    \<open>run_model\<close>, a \<open>partial_function\<close> in the option monad (\<open>None\<close> is a run
    that never stops).  mesa's \<open>shuffle_do\<close> is a Fisher-Yates pass (\<open>fy_shuffle\<close>)
    over the injected generator.
  \<^item> \<open>Bounds\<close>: the base-immediacy curve of \<open>Individual.step\<close> and the cue
    invariant \<open>cue_ok\<close> (risk perception at most 1, media cue in \<open>[0, 1]\<close>, media trust
    non-negative) with the relation \<open>cue_rel\<close> pushed through every operation.
  \<^item> \<open>CueTiming\<close>: the order in which a step reads its cues (\<open>lag_frame\<close>).
  \<^item> \<open>Construction\<close>: what \<open>Individual.__init__\<close> builds from one row.
  \<^item> \<open>CueParsing\<close>: \<open>parse_np_float_string\<close> of \<open>helper_functions.py\<close>: the
    regular-expression substitution of \<open>np.float64(...)\<close> as the scanner
    \<open>sub_float64\<close> (a \<open>function\<close> whose termination is proved), Python's
    \<open>strip\<close>, \<open>split\<close> and slicing on character lists, and \<open>float()\<close> as an
    injected parser; \<open>np_float_list_str\<close> is the string numpy prints for a list.
  \<^item> \<open>ModelInit\<close>: \<open>EvacuationDec.__init__\<close> (\<open>model_init\<close>): the three cue
    columns parsed, the survey rows bootstrapped, one agent per graph node built in node
    order with mesa's \<open>get_neighbors\<close> (\<open>placed_neighbours\<close>: only nodes
    already populated), the area drawn by \<open>np.random.choice\<close>, the KD-tree
    neighbours and the collection settings; \<open>evacuation_dec\<close> is the constructor
    followed by \<open>run_model\<close>, as \<open>__init__\<close> ends with \<open>self.run_model()\<close>.
    The inputs that come from files and libraries are the fields of \<open>init_env\<close>.
  \<^item> \<open>Laplace\<close>: \<open>circum_center\<close> and \<open>interpolate_laplace\<close> of
    \<open>Laplace_inter.py\<close> over the operations of a startinpy triangulation
    (\<open>dt_ops\<close>: point lookup, hull test, insertion, incident triangles, removal), the
    triangulation threaded as a value; \<open>nan\<close> is the value \<open>NaN\<close> of \<open>lval\<close>.
  \<^item> \<open>Plots\<close>: the data preparation of \<open>Plots.py\<close>: tick times, the histogram
    expansion of \<open>compare_real_data\<close>, the running total of \<open>cum_evac\<close> and the
    event-time lookup.
  \<^item> \<open>Convergence\<close>: the pandas statistics of \<open>ConvergenceeAnalysis.py\<close> on a
    frame of named columns of nan-able floats (\<open>df_col\<close>, \<open>df_set\<close>,
    \<open>df_filter\<close>, \<open>df_reset_index\<close>, \<open>df_select\<close>,
    \<open>df_groupby_mean\<close>, the nan-skipping reductions), the metric loop and the column
    reads of the plotting loop.
  \<^item> \<open>AgentInitData\<close>: the table processing of \<open>agent_init_data\<close> in
    \<open>helper_functions.py\<close> on a GeoDataFrame of labelled columns of cells (number,
    text, missing): \<open>combine_education\<close>, \<open>area_of_interest\<close>,
    \<open>tracts_to_remove\<close>, \<open>drop_labels\<close>, \<open>normalize_group\<close> (folded over
    \<open>groups\<close>) and \<open>add_pop_dense\<close>; the cached extract and the national table
    are arguments.
  \<^item> \<open>MainScript\<close>: \<open>src/main.py\<close> as \<open>main_script\<close>: the constructor with the
    script's arguments and default parameters, then the histogram data of
    \<open>compare_real_data\<close> from the collected \<open>evac_agents\<close> column.
  \<^item> \<open>Progress\<close>: \<open>agent_ready\<close>, the data shapes under which a step
    raises nothing, with the frame \<open>data_frame\<close> that carries them through the step.
  \<^item> \<open>Selection\<close>: the reference arg-max \<open>argmax_ref\<close> that the selector's scan
    \<open>first_max\<close> implements.
  \<^item> \<open>DataCollection\<close>: \<open>data_collection_attributes\<close> of \<open>src/run_config.py\<close>,
    the reporters \<open>retrieve_wind_cue\<close>/\<open>retrieve_rain_cue\<close> and the model-reporter
    pass of mesa's \<open>DataCollector.collect\<close> (\<open>collect_model\<close>).
  \<^item> \<open>Population\<close>: \<open>population_bootstrapper\<close> and \<open>closest_neighbours\<close> of
    \<open>src/helper_functions.py\<close>; the CSV tables are arguments, \<open>random.randint\<close>,
    pandas' \<open>sample\<close> and scipy's KD-tree query are injected functions
    (\<open>boot_env\<close>, \<open>knn\<close>).
  \<^item> \<open>Scenarios\<close>: concrete inputs (a three-agent ring, a single agent, the
    specification's four-agent ring, a one-node model environment, a small triangulation,
    a batch result, a national census table of 76 columns, a graph without nodes) and
    the witnesses of the theorems.

  \<^bold>\<open>What the lemmas show.\<close>  Diffusion: each routine's exact effect on every agent
  (self-diffusion is the identity because it averages the agent's own value; every
  broadcast adds its constant once per link) and that no routine touches a phase, a
  preferred action or the live set.  AgentPhase: every step is one of four status
  transitions (none, Unaware to Aware, Aware to Deciding with an action, Deciding to Acted
  with the agent counted and retired), so phases only rise, one at a time, and the
  population invariant (the live set is exactly the non-Acted agents, each once; the
  category counters and the evacuation history both count the Acted agents) holds for
  every order of steps.  Scheduler: the shuffle is a permutation, a tick keeps the
  invariant, the run ends (normally exactly at \<open>number_of_steps\<close>) when it starts
  before it and never ends normally otherwise, the announcements reach exactly the live
  agents, and \<open>comm_watch_value_imm\<close> is never read.  Bounds: before the horizon the
  base immediacy grows and stays within \<open>[0, ceiling]\<close>, at the final tick it exceeds
  the ceiling, with \<open>number_of_steps = 0\<close> every step raises, and a tick keeps the
  specification's bounds on risk perception and media cue.  CueTiming: a step decides on
  the previous tick's cues, so the specification's ring scenario reaches Aware one tick
  later than it says.  DataCollection: which settings raise \<open>UnboundLocalError\<close> (the
  model's default among them) and that the SingleRun reporters crash once nobody is live.
  Construction: the media trust of a ten-column row is its frequency answers scaled.
  ModelInit: the model \<open>__init__\<close> builds satisfies the population and cue invariants
  with one agent per graph node, and the agent of node \<open>k\<close> knows only its graph
  neighbours below \<open>k\<close>.  CueParsing: parsing the string numpy prints for a list gives
  the list back, with or without the surrounding quotes.  Laplace: the circumcentre is
  equidistant from the triangle's vertices, an interpolated value lies between the
  lowest and highest heights, and a successful call gives the triangulation back while
  the early \<open>nan\<close> return leaves the query point inserted.  Plots: counting the
  histogram data per tick gives the collected counts back.  Convergence: the
  standardised running mean is centred, and the script raises \<open>KeyError\<close> at its
  plot.  AgentInitData: the kept tracts are exactly those of the county and state
  without a zero group, and every group of every kept tract sums to one (the zero tracts
  go before the division).  MainScript: \<open>main.py\<close> always gets its model back and
  its histogram has one timestamp per agent that acted, within the 88 ticks; the proof
  composes \<open>model_init\<close>, \<open>run_model_ends\<close>, the generic run invariant
  \<open>run_model_invariant\<close> of \<open>Scheduler\<close> and the histogram lemmas of \<open>Plots\<close>.  Progress: a step on ready data raises no exception, and the surge series the
  specification promises is one entry short at the last refresh tick.  Selection: the selector picks the arg-max of the classifier's four probabilities with
  ties to the earlier action.  This theory: the constructor returns whenever \<open>number_of_steps\<close> is positive,
  and at the end of a run the category counters and the collected history both count the
  Acted agents.  Population: a seeded bootstrap raises, an unseeded one is row-aligned and never rejects
  tables of different sizes, and \<open>closest_neighbours\<close> returns \<open>nn\<close> or \<open>nn + 1\<close>
  agents.  Timeline: the length and
  placement behaviour of the two helpers, with the input on which \<open>shift_watch_warning\<close>
  drops the warning.

  \<^bold>\<open>Modelling choices.\<close>  Floats are \<open>real\<close>: rounding is not modelled, so a
  division whose divisor is zero only in exact arithmetic raises in the model.  The
  classifier (\<open>predict_proba\<close>) and the generator (\<open>rng_random\<close>,
  \<open>rng_below\<close>, read at the position \<open>rng_pos\<close>) are fields of the configuration,
  so every theorem holds for every classifier and every random stream.  The run loop has
  no fuel: termination is proved for runs that start before \<open>number_of_steps\<close>, and
  the opposite case is proved never to end normally.  Library calls whose result the
  code only consumes are arguments: the networkx graph as adjacency lists, pandas'
  sampler, \<open>np.random.choice\<close>'s draw, \<open>float()\<close>, the KD-tree query and the
  triangulation's operations; each theorem holds for all of them, under the hypotheses
  it states on them.  A pandas or numpy division by zero gives \<open>nan\<close> (\<open>None\<close>
  or \<open>NaN\<close>), a Python one raises \<open>ZeroDivisionError\<close>.

  \<^bold>\<open>Not modelled.\<close>  File and network I/O: reading and writing the GeoPackage
  files of \<open>agent_init_data\<close> (the cached extract and the national table are
  arguments of \<open>agent_init_data\<close>; the rows \<open>model_init\<close> reads are its own
  argument \<open>init_rows\<close>), and \<open>Weather/NHC_data_retrieve.py\<close>, which downloads
  advisories and does not even compile (an \<open>else\<close> indented to no enclosing block at
  line 141); the construction of the networkx small-world graph and of the KD-tree (they
  enter as arguments); the matplotlib and seaborn drawing and the CSV of real evacuation
  times in \<open>Viz/Plots.py\<close>; \<open>mesa.batch_run\<close>, whose result is the input frame of
  \<open>Convergence\<close>; the agent reporters of the datacollector, so the agent-level frames
  that \<open>main.py\<close> passes to \<open>phase_plot\<close> and
  \<open>plot_environmental_and_social_cues\<close>, and the model reporters' evaluation inside
  the tick (the tick collects the \<open>evac_agents\<close> column; \<open>collect_model\<close> is
  modelled on its own).
\<close>

section \<open>Properties across components\<close>

text \<open>
  (C9) The constructor \<open>EvacuationDec(...)\<close>, which builds the population and runs
  the model, returns whenever \<open>number_of_steps\<close> is positive; and when it ends
  normally, the four category counters add up to the number of Acted agents, and so do
  the collected per-tick evacuation counts (with the counter of the tick in progress):
  the construction, the agent steps, the scheduler's bookkeeping and the data collection
  agree.
\<close>

theorem run_end_counters:
  "(0 < number_of_steps cfg \<longrightarrow> evacuation_dec cfg env \<noteq> None)
   \<and> (\<forall>w'. evacuation_dec cfg env = Some (Inr w') \<longrightarrow>
        hotel_choice w' + friends_choice w' + shelter_choice w' + stay_choice w'
          = card {k. k < length (pop w') \<and> phase (agent_at w' k) = 3}
        \<and> sum_list (evac_history w') + evaced_agents w' = card {k. k < length (pop w') \<and> phase (agent_at w' k) = 3})"
proof (cases "model_init cfg env")
  case (Inl e)
  then show ?thesis by (simp add: evacuation_dec_def)
next
  case (Inr w)
  note i = model_init_pop_inv [OF Inr]
  have "0 < number_of_steps cfg \<longrightarrow> run_model cfg w \<noteq> None"
    using run_model_ends [of w cfg] i by auto
  moreover have "\<forall>w'. run_model cfg w = Some (Inr w') \<longrightarrow> pop_inv w'"
    using run_model_pop_inv i by blast
  ultimately show ?thesis using Inr by (simp add: evacuation_dec_def pop_inv_def acted_def)
qed

theorem run_end_counters_witness:
  "0 < number_of_steps (ex_params\<lparr>number_of_steps := 1\<rparr>)
   \<and> evacuation_dec (ex_params\<lparr>number_of_steps := 1\<rparr>) ex_env \<noteq> None
   \<and> (\<exists>w'. evacuation_dec (ex_params\<lparr>number_of_steps := 1\<rparr>) ex_env = Some (Inr w')
        \<and> hotel_choice w' + friends_choice w' + shelter_choice w' + stay_choice w'
          = card {k. k < length (pop w') \<and> phase (agent_at w' k) = 3})"
proof -
  have d: "evacuation_dec (ex_params\<lparr>number_of_steps := 1\<rparr>) ex_env
      = run_model (ex_params\<lparr>number_of_steps := 1\<rparr>) (init_world [ex_env_agent])"
    by (simp add: evacuation_dec_def ex_env_init)
  obtain w' where w': "run_model (ex_params\<lparr>number_of_steps := 1\<rparr>) (init_world [ex_env_agent]) = Some (Inr w')"
    using ex_env_run_ok by blast
  show ?thesis using run_end_counters [of "ex_params\<lparr>number_of_steps := 1\<rparr>" ex_env] d w' by auto
qed

end
